(* ===== verification/Prelude.thy ===== *)
theory Prelude
  imports Main "HOL-Library.Word"
begin

text \<open>
  Shared vocabulary of the development: the types Go values are modelled by, the result type of a
  Go call (a value, an error, or a run-time panic), slices and the builtin \<open>copy\<close>, and the
  automation the component theories rely on.

  \<^item> a byte is an \<open>8 word\<close>, a byte slice or array a list of bytes, a \<open>uint64\<close> a \<open>64 word\<close>;
    a \<open>*big.Int\<close> is an \<open>int\<close>; a Go string is a list of characters, one per byte;
  \<^item> an \<open>error\<close> keeps how it was made: a fixed text, a format with its arguments, a wrapped
    error (\<open>fmt.Errorf("prefix: %w", err)\<close>, which has the same text as
    \<open>"prefix: " + err.Error()\<close>), or the text of an error that a library or a node returned;
  \<^item> \<^verbatim>\<open>Panic\<close> is a Go run-time panic, which no \<open>if err != nil\<close> of the caller sees.
\<close>

section \<open>Types\<close>

type_synonym byte = "8 word"
type_synonym bytes = "byte list"
type_synonym uint64 = "64 word"
type_synonym address = bytes
type_synonym hash = bytes

datatype fmt_arg = FInt int | FStr string | FBytes bytes

datatype error =
    ErrText string
  | ErrExt string
  | ErrFmt string "fmt_arg list"
  | ErrWrap string error

datatype 'a res = Ok 'a | Err error | Panic string

fun bind_res :: "'a res \<Rightarrow> ('a \<Rightarrow> 'b res) \<Rightarrow> 'b res" where
  "bind_res (Ok x) f = f x"
| "bind_res (Err e) f = Err e"
| "bind_res (Panic m) f = Panic m"

fun wrap_err :: "string \<Rightarrow> 'a res \<Rightarrow> 'a res" where
  "wrap_err p (Ok x) = Ok x"
| "wrap_err p (Err e) = Err (ErrWrap p e)"
| "wrap_err p (Panic m) = Panic m"

fun is_ok :: "'a res \<Rightarrow> bool" where
  "is_ok (Ok x) = True"
| "is_ok _ = False"

lemma bind_res_Ok_iff [simp]: "bind_res r f = Ok y \<longleftrightarrow> (\<exists>x. r = Ok x \<and> f x = Ok y)"
  by (cases r) auto

lemma bind_res_assoc: "bind_res (bind_res r f) g = bind_res r (\<lambda>x. bind_res (f x) g)"
  by (cases r) auto

lemma wrap_err_Ok_iff [simp]: "wrap_err p r = Ok x \<longleftrightarrow> r = Ok x"
  by (cases r) auto

lemma wrap_err_Panic_iff [simp]: "wrap_err p r = Panic m \<longleftrightarrow> r = Panic m"
  by (cases r) auto

lemma is_ok_iff: "is_ok r \<longleftrightarrow> (\<exists>x. r = Ok x)"
  by (cases r) auto

section \<open>Slices and copy\<close>

text \<open>
  \<open>slice i j s\<close> is \<open>s[i:j]\<close> for bounds that are in range; where the code can leave the
  range, the model tests the bounds first and panics. \<open>copy_into a b src buf\<close> is
  \<open>copy(buf[a:b], src)\<close>: it writes as many bytes as both sides have, from the front of
  \<open>src\<close>, and leaves the rest of the buffer alone.
\<close>

definition slice :: "nat \<Rightarrow> nat \<Rightarrow> 'a list \<Rightarrow> 'a list" where
  "slice i j xs = take (j - i) (drop i xs)"

definition copy_into :: "nat \<Rightarrow> nat \<Rightarrow> 'a list \<Rightarrow> 'a list \<Rightarrow> 'a list" where
  "copy_into a b src buf =
     (let n = min (b - a) (length src) in take a buf @ take n src @ drop (a + n) buf)"

named_theorems layout \<open>rewriting of buffers assembled by successive copies\<close>

lemma length_slice [simp]: "length (slice i j xs) = min (j - i) (length xs - i)"
  by (simp add: slice_def min.commute)

lemma slice_all [simp]: "slice 0 (length xs) xs = xs"
  by (simp add: slice_def)

lemma slice_append_left [layout]: "length xs = n \<Longrightarrow> slice 0 n (xs @ ys) = xs"
  by (simp add: slice_def)

lemma slice_append_right [layout]:
  "length xs \<le> i \<Longrightarrow> slice i j (xs @ ys) = slice (i - length xs) (j - length xs) ys"
  by (simp add: slice_def)

lemma slice_exact [layout]: "length xs = n \<Longrightarrow> slice 0 n xs = xs"
  by (simp add: slice_def)

lemma length_copy_into [simp]:
  "a \<le> b \<Longrightarrow> b \<le> length buf \<Longrightarrow> length (copy_into a b src buf) = length buf"
  by (simp add: copy_into_def Let_def)

lemma copy_into_append_right [layout]:
  "length xs \<le> a \<Longrightarrow>
    copy_into a b src (xs @ ys) = xs @ copy_into (a - length xs) (b - length xs) src ys"
proof -
  assume "length xs \<le> a"
  moreover from this have "b - length xs - (a - length xs) = b - a" by simp
  ultimately show ?thesis by (simp add: copy_into_def Let_def)
qed

lemma copy_into_append_left [layout]:
  "length xs = b \<Longrightarrow> length src = b \<Longrightarrow> copy_into 0 b src (xs @ ys) = src @ ys"
  by (simp add: copy_into_def)

lemma copy_into_exact [layout]:
  "length xs = b \<Longrightarrow> length src = b \<Longrightarrow> copy_into 0 b src xs = src"
  by (simp add: copy_into_def)

lemma copy_into_full [layout]:
  "length src = length xs \<Longrightarrow> length xs \<le> b \<Longrightarrow> copy_into 0 b src xs = src"
  by (simp add: copy_into_def)

text \<open>\<open>copy(buf[a:], src)\<close>.\<close>

definition copy_at :: "nat \<Rightarrow> 'a list \<Rightarrow> 'a list \<Rightarrow> 'a list" where
  "copy_at a src buf = copy_into a (length buf) src buf"

lemma copy_at_append_right [layout]:
  "length xs \<le> a \<Longrightarrow> copy_at a src (xs @ ys) = xs @ copy_at (a - length xs) src ys"
  by (simp add: copy_at_def copy_into_append_right)

lemma copy_at_append_left [layout]:
  "length src = length xs \<Longrightarrow> copy_at 0 src (xs @ ys) = src @ ys"
  by (simp add: copy_at_def copy_into_def)

lemma copy_at_exact [layout]: "length src = length xs \<Longrightarrow> copy_at 0 src xs = src"
  by (simp add: copy_at_def copy_into_def)

section \<open>Lists\<close>

lemma distinct_map_filterI: "distinct (map f xs) \<Longrightarrow> distinct (map f (filter p xs))"
  by (induction xs) auto

lemma distinct_map_eqD:
  "distinct (map f xs) \<Longrightarrow> x \<in> set xs \<Longrightarrow> y \<in> set xs \<Longrightarrow> f x = f y \<Longrightarrow> x = y"
  by (auto simp: distinct_map inj_on_def)

end
