(* ===== verification/GoLib.thy ===== *)
theory GoLib
  imports Prelude
begin

text \<open>
  The parts of Go's standard library the sources call: \<open>encoding/hex\<close>, \<open>math/big\<close>
  (bytes, text, conversions to machine integers), \<open>encoding/binary\<close> and \<open>strings\<close>.
\<close>

section \<open>Characters and digits\<close>

definition byte_of_char :: "char \<Rightarrow> byte" where
  "byte_of_char c = word_of_int (of_char c)"

definition char_of_byte :: "byte \<Rightarrow> char" where
  "char_of_byte b = char_of (uint b)"

lemma char_of_byte_of_char [simp]: "char_of_byte (byte_of_char c) = c"
  by (simp add: char_of_byte_def byte_of_char_def uint_word_of_int char_of_mod_256)

lemma byte_of_char_of_byte [simp]: "byte_of_char (char_of_byte b) = b"
proof -
  have "uint b mod 256 = uint b"
    using uint_lt2p [of b] uint_ge_0 [of b] by simp
  then show ?thesis
    by (simp add: char_of_byte_def byte_of_char_def)
qed

definition stringBytes :: "string \<Rightarrow> bytes" where
  "stringBytes s = map byte_of_char s"

definition bytesString :: "bytes \<Rightarrow> string" where
  "bytesString b = map char_of_byte b"

lemma bytesString_stringBytes [simp]: "bytesString (stringBytes s) = s"
  by (simp add: bytesString_def stringBytes_def comp_def)

lemma length_stringBytes [simp]: "length (stringBytes s) = length s"
  by (simp add: stringBytes_def)

text \<open>A digit in a base up to 36: \<open>0-9\<close>, then the letters of either case.\<close>

definition digitVal :: "char \<Rightarrow> int option" where
  "digitVal c =
     (let k = of_char c :: int in
      if 48 \<le> k \<and> k \<le> 57 then Some (k - 48)
      else if 97 \<le> k \<and> k \<le> 122 then Some (k - 87)
      else if 65 \<le> k \<and> k \<le> 90 then Some (k - 55)
      else None)"

definition digitChar :: "int \<Rightarrow> char" where
  "digitChar d = (if d < 10 then char_of (48 + d) else char_of (87 + d))"

lemma digitVal_digitChar: "0 \<le> d \<Longrightarrow> d < 36 \<Longrightarrow> digitVal (digitChar d) = Some d"
  by (simp add: digitVal_def digitChar_def Let_def)

lemma digitVal_range: "digitVal c = Some d \<Longrightarrow> 0 \<le> d \<and> d < 36"
  by (auto simp: digitVal_def Let_def split: if_splits)

lemma digitVal_signs: "digitVal (CHR ''-'') = None" "digitVal (CHR ''+'') = None"
  by (simp_all add: digitVal_def)

section \<open>Package encoding/hex\<close>

definition fromHexChar :: "char \<Rightarrow> int option" where
  "fromHexChar c = (case digitVal c of Some d \<Rightarrow> if d < 16 then Some d else None | None \<Rightarrow> None)"

fun hexEncode :: "bytes \<Rightarrow> string" where
  "hexEncode [] = []"
| "hexEncode (b # bs) = digitChar (uint b div 16) # digitChar (uint b mod 16) # hexEncode bs"

text \<open>
  \<open>hex.DecodeString\<close> returns the bytes decoded before the first offending character together
  with the error.
\<close>

definition invalidByteError :: "char \<Rightarrow> error" where
  "invalidByteError c = ErrFmt ''encoding/hex: invalid byte: %#U'' [FStr [c]]"

definition errLength :: error where
  "errLength = ErrText ''encoding/hex: odd length hex string''"

fun hexDecode :: "string \<Rightarrow> bytes \<times> error option" where
  "hexDecode [] = ([], None)"
| "hexDecode [p] =
     (case fromHexChar p of None \<Rightarrow> ([], Some (invalidByteError p)) | Some _ \<Rightarrow> ([], Some errLength))"
| "hexDecode (p # q # r) =
     (case fromHexChar p of
        None \<Rightarrow> ([], Some (invalidByteError p))
      | Some a \<Rightarrow>
         (case fromHexChar q of
            None \<Rightarrow> ([], Some (invalidByteError q))
          | Some b \<Rightarrow> (case hexDecode r of (bs, e) \<Rightarrow> (word_of_int (16 * a + b) # bs, e))))"

lemma fromHexChar_digitChar: "0 \<le> d \<Longrightarrow> d < 16 \<Longrightarrow> fromHexChar (digitChar d) = Some d"
  by (simp add: fromHexChar_def digitVal_digitChar)

lemma byte_nibbles: fixes b :: byte shows "uint b div 16 < 16" "0 \<le> uint b div 16" "0 \<le> uint b mod 16" "uint b mod 16 < 16"
  using uint_lt2p [of b] by (auto simp: pos_imp_zdiv_nonneg_iff)

lemma hexDecode_hexEncode [simp]: "hexDecode (hexEncode bs) = (bs, None)"
  by (induction bs) (simp_all add: fromHexChar_digitChar byte_nibbles)

lemma length_hexEncode [simp]: "length (hexEncode bs) = 2 * length bs"
  by (induction bs) simp_all

lemma hexEncode_inject [simp]: "hexEncode bs = hexEncode cs \<longleftrightarrow> bs = cs"
  by (metis hexDecode_hexEncode prod.inject)

lemma length_hexDecode: "hexDecode s = (bs, None) \<Longrightarrow> length s = 2 * length bs"
  by (induction s arbitrary: bs rule: hexDecode.induct) (auto split: option.splits prod.splits)

section \<open>Package math/big: bytes\<close>

text \<open>
  \<open>x.Bytes()\<close> is the absolute value as a big-endian byte slice with no leading zero;
  \<open>SetBytes\<close> reads a big-endian unsigned integer.
\<close>

function natBytes :: "int \<Rightarrow> bytes" where
  "natBytes n = (if n \<le> 0 then [] else natBytes (n div 256) @ [word_of_int n])"
  by pat_completeness auto
termination
  by (relation "measure nat") auto

declare natBytes.simps [simp del]

definition Bytes :: "int \<Rightarrow> bytes" where
  "Bytes n = natBytes \<bar>n\<bar>"

definition SetBytes :: "bytes \<Rightarrow> int" where
  "SetBytes bs = foldl (\<lambda>a b. a * 256 + uint b) 0 bs"

lemma SetBytes_Nil [simp]: "SetBytes [] = 0"
  by (simp add: SetBytes_def)

lemma SetBytes_snoc [simp]: "SetBytes (bs @ [b]) = SetBytes bs * 256 + uint b"
  by (simp add: SetBytes_def)

lemma SetBytes_append: "SetBytes (as @ bs) = SetBytes as * 256 ^ length bs + SetBytes bs"
proof (induction bs rule: rev_induct)
  case (snoc b bs)
  have "SetBytes (as @ bs @ [b]) = SetBytes (as @ bs) * 256 + uint b"
    by (metis SetBytes_snoc append_assoc)
  with snoc show ?case by (simp add: algebra_simps)
qed simp

lemma SetBytes_nonneg [simp]: "0 \<le> SetBytes bs"
  by (induction bs rule: rev_induct) auto

lemma SetBytes_less: "SetBytes bs < 256 ^ length bs"
proof (induction bs rule: rev_induct)
  case (snoc b bs)
  have "uint b < 256" using uint_lt2p [of b] by simp
  with snoc show ?case by simp
qed simp

lemma SetBytes_replicate0 [simp]: "SetBytes (replicate k 0) = 0"
  by (induction k) (simp_all add: SetBytes_append SetBytes_def)

lemma SetBytes_pad [simp]: "SetBytes (replicate k 0 @ bs) = SetBytes bs"
  by (simp add: SetBytes_append)

lemma SetBytes_drop_mod:
  "k \<le> length bs \<Longrightarrow> SetBytes (drop (length bs - k) bs) = SetBytes bs mod 256 ^ k"
proof -
  assume "k \<le> length bs"
  let ?hi = "take (length bs - k) bs" and ?lo = "drop (length bs - k) bs"
  have len: "length ?lo = k" using \<open>k \<le> length bs\<close> by simp
  have "SetBytes bs = SetBytes ?hi * 256 ^ k + SetBytes ?lo"
    using SetBytes_append [of ?hi ?lo] len by simp
  moreover have "SetBytes ?lo < 256 ^ k" using SetBytes_less [of ?lo] len by simp
  ultimately show ?thesis by simp
qed

lemma SetBytes_inject:
  "length as = length bs \<Longrightarrow> SetBytes as = SetBytes bs \<longleftrightarrow> as = bs"
proof (induction as arbitrary: bs rule: rev_induct)
  case (snoc a as)
  then obtain bs' b where bs: "bs = bs' @ [b]" and len: "length as = length bs'"
    by (cases bs rule: rev_cases) auto
  have ub: "uint a < 256" "uint b < 256" "0 \<le> uint a" "0 \<le> uint b"
    using uint_lt2p [of a] uint_lt2p [of b] by auto
  show ?case
  proof
    assume "SetBytes (as @ [a]) = SetBytes bs"
    then have eq: "SetBytes as * 256 + uint a = SetBytes bs' * 256 + uint b"
      by (simp add: bs)
    have "uint a = (SetBytes as * 256 + uint a) mod 256" using ub by simp
    also have "\<dots> = uint b" using ub by (simp add: eq)
    finally have "uint a = uint b" .
    moreover from this eq have "SetBytes as = SetBytes bs'" by simp
    ultimately have "a = b" and "SetBytes as = SetBytes bs'" by (simp_all add: word_uint_eqI)
    with snoc.IH [OF len] show "as @ [a] = bs" by (simp add: bs)
  qed (simp)
qed simp

lemma SetBytes_natBytes: "0 \<le> n \<Longrightarrow> SetBytes (natBytes n) = n"
proof (induction n rule: natBytes.induct)
  case (1 n)
  show ?case
  proof (cases "n = 0")
    case False
    with "1" have "SetBytes (natBytes (n div 256)) = n div 256" by simp
    with False "1.prems" show ?thesis
      by (simp add: natBytes.simps [of n] uint_word_of_int)
  qed (simp add: natBytes.simps)
qed

lemma SetBytes_Bytes [simp]: "SetBytes (Bytes n) = \<bar>n\<bar>"
  by (simp add: Bytes_def SetBytes_natBytes)

lemma length_natBytes_le: "n < 256 ^ k \<Longrightarrow> length (natBytes n) \<le> k"
proof (induction k arbitrary: n)
  case 0
  then show ?case by (simp add: natBytes.simps)
next
  case (Suc k)
  then have "n div 256 < 256 ^ k" by simp
  with Suc.IH have "length (natBytes (n div 256)) \<le> k" by blast
  then show ?case by (simp add: natBytes.simps [of n])
qed

lemma length_Bytes_le_iff: "length (Bytes n) \<le> k \<longleftrightarrow> \<bar>n\<bar> < 256 ^ k"
proof
  assume "length (Bytes n) \<le> k"
  then have "(256::int) ^ length (Bytes n) \<le> 256 ^ k" by (rule power_increasing) simp
  with SetBytes_less [of "Bytes n"] show "\<bar>n\<bar> < 256 ^ k" by (metis SetBytes_Bytes order_less_le_trans)
qed (simp add: Bytes_def length_natBytes_le)

lemma Bytes_minus [simp]: "Bytes (- n) = Bytes n"
  by (simp add: Bytes_def)

lemma Bytes_0 [simp]: "Bytes 0 = []"
  by (simp add: Bytes_def natBytes.simps)

section \<open>Package math/big: text\<close>

text \<open>
  \<open>x.Text(base)\<close> writes minimal lower-case digits with a leading minus sign for negative
  values. \<open>SetString(s, base)\<close> with a base other than 0 accepts an optional sign followed by
  at least one digit of the base, letters in either case, and nothing else.
\<close>

function natText :: "int \<Rightarrow> int \<Rightarrow> string" where
  "natText b n =
     (if b < 2 \<or> n < b then [digitChar n] else natText b (n div b) @ [digitChar (n mod b)])"
  by pat_completeness auto
termination
  by (relation "measure (\<lambda>(b, n). nat n)") (auto simp: int_div_less_self)

declare natText.simps [simp del]

definition Text :: "int \<Rightarrow> int \<Rightarrow> string" where
  "Text b n = (if n < 0 then CHR ''-'' # natText b (- n) else natText b n)"

fun scanDigits :: "int \<Rightarrow> int \<Rightarrow> string \<Rightarrow> int option" where
  "scanDigits b acc [] = Some acc"
| "scanDigits b acc (c # cs) =
     (case digitVal c of
        Some d \<Rightarrow> if d < b then scanDigits b (acc * b + d) cs else None
      | None \<Rightarrow> None)"

definition scanNat :: "int \<Rightarrow> string \<Rightarrow> int option" where
  "scanNat b s = (if s = [] then None else scanDigits b 0 s)"

fun SetString :: "int \<Rightarrow> string \<Rightarrow> int option" where
  "SetString b [] = None"
| "SetString b (c # cs) =
     (if c = CHR ''-'' then map_option uminus (scanNat b cs)
      else if c = CHR ''+'' then scanNat b cs
      else scanNat b (c # cs))"

lemma scanDigits_append:
  "scanDigits b acc (s @ t) = Option.bind (scanDigits b acc s) (\<lambda>a. scanDigits b a t)"
  by (induction s arbitrary: acc) (auto split: option.splits)

lemma natText_nonempty [simp]: "natText b n \<noteq> []"
  by (subst natText.simps) simp

lemma scanDigits_natText:
  "0 \<le> n \<Longrightarrow> 2 \<le> b \<Longrightarrow> b \<le> 36 \<Longrightarrow> scanDigits b 0 (natText b n) = Some n"
proof (induction b n rule: natText.induct)
  case (1 b n)
  show ?case
  proof (cases "n < b")
    case True
    with 1 show ?thesis by (simp add: natText.simps [of b n] digitVal_digitChar)
  next
    case False
    with 1 have IH: "scanDigits b 0 (natText b (n div b)) = Some (n div b)"
      by (simp add: pos_imp_zdiv_nonneg_iff)
    have "n mod b < b" "0 \<le> n mod b" "n mod b < 36" using "1.prems"
      by (auto intro: order_less_le_trans [of _ b])
    with False "1.prems" IH show ?thesis
      by (simp add: natText.simps [of b n] scanDigits_append digitVal_digitChar)
  qed
qed

lemma natText_hd_digit: "0 \<le> n \<Longrightarrow> 2 \<le> b \<Longrightarrow> b \<le> 36 \<Longrightarrow> digitVal (hd (natText b n)) \<noteq> None"
proof (induction b n rule: natText.induct)
  case (1 b n)
  then show ?case
    by (cases "n < b") (simp_all add: natText.simps [of b n] digitVal_digitChar pos_imp_zdiv_nonneg_iff)
qed

lemma SetString_natText:
  "0 \<le> n \<Longrightarrow> 2 \<le> b \<Longrightarrow> b \<le> 36 \<Longrightarrow> SetString b (natText b n) = Some n"
  using natText_hd_digit [of n b] scanDigits_natText [of n b] natText_nonempty [of b n]
  by (cases "natText b n") (auto simp: scanNat_def digitVal_signs)

lemma SetString_Text: "2 \<le> b \<Longrightarrow> b \<le> 36 \<Longrightarrow> SetString b (Text b n) = Some n"
  by (simp add: Text_def SetString_natText scanNat_def scanDigits_natText)

section \<open>Machine integers\<close>

text \<open>
  \<open>x.Uint64()\<close> and \<open>x.Int64()\<close> keep the low 64 bits of the absolute value; a Go
  \<open>int\<close> is 64 bits wide, so additions on it wrap into the signed range.
\<close>

definition Uint64 :: "int \<Rightarrow> uint64" where
  "Uint64 n = word_of_int \<bar>n\<bar>"

definition wrap64 :: "int \<Rightarrow> int" where
  "wrap64 n = (n + 2 ^ 63) mod 2 ^ 64 - 2 ^ 63"

definition Int64 :: "int \<Rightarrow> int" where
  "Int64 n = (if n < 0 then wrap64 (- wrap64 \<bar>n\<bar>) else wrap64 n)"

lemma uint_Uint64: "uint (Uint64 n) = \<bar>n\<bar> mod 2 ^ 64"
  by (simp add: Uint64_def uint_word_of_int)

lemma uint64_of_int: "0 \<le> k \<Longrightarrow> k < 2 ^ 64 \<Longrightarrow> uint (word_of_int k :: uint64) = k"
  by (simp add: uint_word_of_int)

lemma wrap64_id [simp]: "- (2 ^ 63) \<le> n \<Longrightarrow> n < 2 ^ 63 \<Longrightarrow> wrap64 n = n"
  by (simp add: wrap64_def)

lemma wrap64_range: "- (2 ^ 63) \<le> wrap64 n" "wrap64 n < 2 ^ 63"
proof -
  have "0 \<le> (n + 2 ^ 63) mod 2 ^ 64" "(n + 2 ^ 63) mod 2 ^ 64 < 2 ^ 64"
    by (rule pos_mod_sign pos_mod_bound, simp)+
  then show "- (2 ^ 63) \<le> wrap64 n" "wrap64 n < 2 ^ 63"
    unfolding wrap64_def by simp_all
qed

text \<open>
  Slice expressions and \<open>make\<close> with computed bounds: out of range they panic. The upper bounds
  the code computes are compared with the length first, so the capacity never matters; no allocation
  of more than \<open>2 ^ 47\<close> bytes succeeds.
\<close>

definition goSlice :: "int \<Rightarrow> int \<Rightarrow> 'a list \<Rightarrow> 'a list res" where
  "goSlice i j xs =
     (if 0 \<le> i \<and> i \<le> j \<and> j \<le> int (length xs) then Ok (slice (nat i) (nat j) xs)
      else Panic ''runtime error: slice bounds out of range'')"

definition goMake :: "int \<Rightarrow> bytes res" where
  "goMake n =
     (if 0 \<le> n \<and> n \<le> 2 ^ 47 then Ok (replicate (nat n) 0)
      else Panic ''runtime error: makeslice: len out of range'')"

lemma goSlice_nat [simp]:
  "i \<le> j \<Longrightarrow> j \<le> length xs \<Longrightarrow> goSlice (int i) (int j) xs = Ok (slice i j xs)"
  by (simp add: goSlice_def)

lemma Int64_small [simp]: "0 \<le> n \<Longrightarrow> n < 2 ^ 63 \<Longrightarrow> Int64 n = n"
  by (simp add: Int64_def)

text \<open>\<open>binary.BigEndian.PutUint64\<close>: eight bytes, most significant first.\<close>

definition putUint64 :: "uint64 \<Rightarrow> bytes" where
  "putUint64 w = map (\<lambda>k. word_of_int (uint w div 256 ^ (7 - k))) [0..<8]"

lemma length_putUint64 [simp]: "length (putUint64 w) = 8"
  by (simp add: putUint64_def)

section \<open>Package strings\<close>

definition toLowerChar :: "char \<Rightarrow> char" where
  "toLowerChar c = (let k = of_char c :: int in if 65 \<le> k \<and> k \<le> 90 then char_of (k + 32) else c)"

definition ToLower :: "string \<Rightarrow> string" where
  "ToLower s = map toLowerChar s"

definition hasPrefix :: "string \<Rightarrow> string \<Rightarrow> bool" where
  "hasPrefix s p = (take (length p) s = p)"

definition TrimPrefix :: "string \<Rightarrow> string \<Rightarrow> string" where
  "TrimPrefix s p = (if hasPrefix s p then drop (length p) s else s)"

fun contains :: "string \<Rightarrow> string \<Rightarrow> bool" where
  "contains [] p = (p = [])"
| "contains (c # cs) p = (hasPrefix (c # cs) p \<or> contains cs p)"

lemma TrimPrefix_append [simp]: "TrimPrefix (p @ s) p = s"
  by (simp add: TrimPrefix_def hasPrefix_def)

lemma contains_iff: "contains s p \<longleftrightarrow> (\<exists>u v. s = u @ p @ v)"
proof (induction s)
  case (Cons c cs)
  have "hasPrefix (c # cs) p \<longleftrightarrow> (\<exists>v. c # cs = p @ v)"
    unfolding hasPrefix_def by (metis append_eq_conv_conj)
  moreover have "(\<exists>u v. c # cs = u @ p @ v) \<longleftrightarrow> (\<exists>v. c # cs = p @ v) \<or> (\<exists>u v. cs = u @ p @ v)"
    by (metis append_Cons append_Nil list.exhaust list.inject)
  ultimately show ?case using Cons by simp
qed auto

end
