(* ===== verification/Ethereum.thy ===== *)
theory Ethereum
  imports GoLib
begin

text \<open>
  The third-party functions the packages call: \<open>sha3.NewLegacyKeccak256\<close> of
  \<open>golang.org/x/crypto\<close> and the conversions of \<open>common.Address\<close> and
  \<open>common.Hash\<close> of go-ethereum. They are the fields of a record that every definition using
  them takes as its argument; what their documentation promises is the predicate \<open>ethlib_ok\<close>.
\<close>

record ethlib =
  keccak :: "bytes \<Rightarrow> bytes"
  HexToAddress :: "string \<Rightarrow> address"
  BytesToAddress :: "bytes \<Rightarrow> address"
  AddressHex :: "address \<Rightarrow> string"
  HexToHash :: "string \<Rightarrow> hash"
  BytesToHash :: "bytes \<Rightarrow> hash"
  HashHex :: "hash \<Rightarrow> string"

text \<open>
  A digest has 32 bytes, an address 20 and a hash 32; \<open>BytesToAddress\<close> keeps a slice of
  exactly 20 bytes and \<open>BytesToHash\<close> one of exactly 32; the
  text of an address is not empty; reading back the text of an address, in the checksum spelling,
  lower-cased or as plain hexadecimal digits, or of a hash, gives the value that was written.
\<close>

definition ethlib_ok :: "ethlib \<Rightarrow> bool" where
  "ethlib_ok L \<longleftrightarrow>
     (\<forall>x. length (keccak L x) = 32) \<and>
     (\<forall>s. length (HexToAddress L s) = 20) \<and>
     (\<forall>b. length b = 20 \<longrightarrow> BytesToAddress L b = b) \<and>
     (\<forall>a. AddressHex L a \<noteq> []) \<and>
     (\<forall>a. length a = 20 \<longrightarrow> HexToAddress L (AddressHex L a) = a) \<and>
     (\<forall>a. length a = 20 \<longrightarrow> HexToAddress L (ToLower (AddressHex L a)) = a) \<and>
     (\<forall>a. length a = 20 \<longrightarrow> HexToAddress L (''0x'' @ hexEncode a) = a) \<and>
     (\<forall>s. length (HexToHash L s) = 32) \<and>
     (\<forall>b. length b = 32 \<longrightarrow> BytesToHash L b = b) \<and>
     (\<forall>h. length h = 32 \<longrightarrow> HexToHash L (HashHex L h) = h)"

lemma ethlib_okD:
  assumes "ethlib_ok L"
  shows length_keccak: "length (keccak L x) = 32"
    and length_HexToAddress: "length (HexToAddress L s) = 20"
    and BytesToAddress_id: "length b = 20 \<Longrightarrow> BytesToAddress L b = b"
    and AddressHex_nonempty: "AddressHex L a \<noteq> []"
    and HexToAddress_Hex: "length b = 20 \<Longrightarrow> HexToAddress L (AddressHex L b) = b"
    and HexToAddress_lower: "length b = 20 \<Longrightarrow> HexToAddress L (ToLower (AddressHex L b)) = b"
    and HexToAddress_hex: "length b = 20 \<Longrightarrow> HexToAddress L (CHR ''0'' # CHR ''x'' # hexEncode b) = b"
    and length_HexToHash: "length (HexToHash L s) = 32"
    and BytesToHash_id: "length b = 32 \<Longrightarrow> BytesToHash L b = b"
    and HexToHash_Hex: "length h = 32 \<Longrightarrow> HexToHash L (HashHex L h) = h"
  using assms by (simp_all add: ethlib_ok_def)

text \<open>
  A concrete library that satisfies these laws, at which the theorems are instantiated: plain
  lower-case hexadecimal text, and a 32-bit checksum in the place of the digest.
\<close>

definition fixLen :: "nat \<Rightarrow> bytes \<Rightarrow> bytes" where
  "fixLen n bs = (if n \<le> length bs then drop (length bs - n) bs else replicate (n - length bs) 0 @ bs)"

definition checksum :: "bytes \<Rightarrow> bytes" where
  "checksum bs =
     replicate 24 0 @ putUint64 (word_of_int (foldl (\<lambda>a b. (a * 31 + uint b + 1) mod 4294967296) 7 bs))"

definition hexLib :: ethlib where
  "hexLib = \<lparr>keccak = checksum,
     HexToAddress = (\<lambda>s. fixLen 20 (fst (hexDecode (TrimPrefix s ''0x'')))),
     BytesToAddress = fixLen 20,
     AddressHex = (\<lambda>a. ''0x'' @ hexEncode a),
     HexToHash = (\<lambda>s. fixLen 32 (fst (hexDecode (TrimPrefix s ''0x'')))),
     BytesToHash = fixLen 32,
     HashHex = (\<lambda>h. ''0x'' @ hexEncode h)\<rparr>"

lemma length_fixLen [simp]: "length (fixLen n bs) = n"
  by (simp add: fixLen_def)

lemma fixLen_id [simp]: "length bs = n \<Longrightarrow> fixLen n bs = bs"
  by (simp add: fixLen_def)

lemma toLowerChar_digitChar: "0 \<le> d \<Longrightarrow> d < 16 \<Longrightarrow> toLowerChar (digitChar d) = digitChar d"
  by (simp add: toLowerChar_def digitChar_def Let_def)

lemma ToLower_hexEncode [simp]: "ToLower (hexEncode bs) = hexEncode bs"
  by (induction bs) (simp_all add: ToLower_def toLowerChar_digitChar byte_nibbles)

lemma ToLower_0x [simp]: "ToLower (''0x'' @ s) = ''0x'' @ ToLower s"
  by (simp add: ToLower_def toLowerChar_def)

lemma TrimPrefix_0x [simp]: "TrimPrefix (CHR ''0'' # CHR ''x'' # s) ''0x'' = s"
  using TrimPrefix_append [of "''0x''" s] by simp

lemma hexLib_ok [simp]: "ethlib_ok hexLib"
proof -
  have "ToLower (CHR ''0'' # CHR ''x'' # hexEncode a) = CHR ''0'' # CHR ''x'' # hexEncode a" for a
    using ToLower_0x [of "hexEncode a"] by simp
  then show ?thesis
    by (simp add: ethlib_ok_def hexLib_def checksum_def)
qed

end
