(* ===== verification/Pack.thy ===== *)
theory Pack
  imports Ethereum
begin

text \<open>
  \<open>internal/core/pack.go\<close>: packing of gas values into 32-byte words, the digest helper, padding,
  and the hexadecimal text forms of byte slices and integers. A nil \<open>*big.Int\<close> is \<open>None\<close>.
\<close>

definition PackUint128s :: "uint64 \<Rightarrow> uint64 \<Rightarrow> bytes" where
  "PackUint128s hi lo =
     copy_into 24 32 (putUint64 lo) (copy_into 8 16 (putUint64 hi) (replicate 32 0))"

definition into128 :: "int option \<Rightarrow> bytes \<Rightarrow> bytes" where
  "into128 v dst =
     (case v of
        None \<Rightarrow> dst
      | Some n \<Rightarrow>
         (let vb0 = Bytes n;
              vb = (if length vb0 > 16 then drop (length vb0 - 16) vb0 else vb0)
          in copy_into (16 - length vb) 16 vb dst))"

definition PackBigInts :: "int option \<Rightarrow> int option \<Rightarrow> bytes" where
  "PackBigInts hi lo =
     (let b = replicate 32 0
      in into128 hi (slice 0 16 b) @ into128 lo (slice 16 32 b))"

definition Keccak256 :: "ethlib \<Rightarrow> bytes list \<Rightarrow> bytes" where
  "Keccak256 L data = keccak L (concat data)"

definition PadLeft32 :: "bytes \<Rightarrow> bytes" where
  "PadLeft32 b =
     (if length b \<ge> 32 then b else copy_into (32 - length b) 32 b (replicate 32 0))"

definition DecodeHex :: "string \<Rightarrow> bytes \<times> error option" where
  "DecodeHex s0 = (let s = TrimPrefix s0 ''0x'' in if s = [] then ([], None) else hexDecode s)"

definition BytesToHex :: "bytes \<Rightarrow> string" where
  "BytesToHex b = (if length b = 0 then ''0x'' else ''0x'' @ hexEncode b)"

definition BigToHex :: "int option \<Rightarrow> string" where
  "BigToHex n =
     (case n of
        None \<Rightarrow> ''0x0''
      | Some i \<Rightarrow> if i = 0 then ''0x0'' else ''0x'' @ Text 16 i)"

definition HexToBigInt :: "string \<Rightarrow> int res" where
  "HexToBigInt s0 =
     (let s = TrimPrefix s0 ''0x'' in
      case SetString 16 s of
        None \<Rightarrow> Err (ErrFmt ''invalid hex integer: %q'' [FStr s])
      | Some n \<Rightarrow> Ok n)"

definition ParseBigHex :: "string \<Rightarrow> int res" where
  "ParseBigHex s = HexToBigInt s"

section \<open>Padding and packing\<close>

lemma Keccak256_single [simp]: "Keccak256 L [d] = keccak L d"
  by (simp add: Keccak256_def)

lemma PadLeft32_short: "length b \<le> 32 \<Longrightarrow> PadLeft32 b = replicate (32 - length b) 0 @ b"
  by (auto simp: PadLeft32_def copy_into_def)

lemma length_PadLeft32: "length (PadLeft32 b) = max 32 (length b)"
  by (simp add: PadLeft32_def max_def)

lemma length_PadLeft32_short [simp]: "length b \<le> 32 \<Longrightarrow> length (PadLeft32 b) = 32"
  by (simp add: length_PadLeft32)

lemma SetBytes_PadLeft32 [simp]: "SetBytes (PadLeft32 b) = SetBytes b"
proof (cases "length b \<le> 32")
  case False
  then show ?thesis by (simp add: PadLeft32_def)
qed (simp add: PadLeft32_short)

lemma PadLeft32_inject:
  "length a \<le> 32 \<Longrightarrow> length b \<le> 32 \<Longrightarrow> PadLeft32 a = PadLeft32 b \<longleftrightarrow> SetBytes a = SetBytes b"
  by (metis SetBytes_PadLeft32 SetBytes_inject length_PadLeft32_short)

lemma into128_Some:
  "into128 (Some n) (replicate 16 0) =
     (let vb = Bytes n in
      if length vb > 16 then drop (length vb - 16) vb else replicate (16 - length vb) 0 @ vb)"
  by (simp add: into128_def Let_def copy_into_def)

lemma length_into128 [simp]: "length (into128 v (replicate 16 0)) = 16"
  by (cases v) (simp_all add: into128_Some Let_def, simp add: into128_def)

lemma SetBytes_into128: "SetBytes (into128 (Some n) (replicate 16 0)) = \<bar>n\<bar> mod 2 ^ 128"
proof (cases "length (Bytes n) > 16")
  case True
  then have "SetBytes (drop (length (Bytes n) - 16) (Bytes n)) = \<bar>n\<bar> mod 256 ^ 16"
    by (subst SetBytes_drop_mod) simp_all
  with True show ?thesis by (simp add: into128_Some Let_def)
next
  case False
  then have "\<bar>n\<bar> < 256 ^ 16" using length_Bytes_le_iff [of n 16] by linarith
  with False show ?thesis by (simp add: into128_Some Let_def)
qed

lemma PackBigInts_halves:
  "PackBigInts hi lo = into128 hi (replicate 16 0) @ into128 lo (replicate 16 0)"
  by (simp add: PackBigInts_def slice_def Let_def)

lemma length_PackBigInts [simp]: "length (PackBigInts hi lo) = 32"
  by (simp add: PackBigInts_halves)

lemma slice_PackBigInts [simp]:
  "slice 0 16 (PackBigInts hi lo) = into128 hi (replicate 16 0)"
  "slice 16 32 (PackBigInts hi lo) = into128 lo (replicate 16 0)"
  by (simp_all add: PackBigInts_halves slice_append_left slice_append_right slice_exact)

section \<open>Text forms\<close>

text \<open>
  The contract of a text form: what was written can be read back. Everything a client of such a
  form needs about equality of stored texts follows from it.
\<close>

locale text_form =
  fixes enc :: "'a \<Rightarrow> string" and dec :: "string \<Rightarrow> 'a option" and valid :: "'a \<Rightarrow> bool"
  assumes dec_enc: "valid x \<Longrightarrow> dec (enc x) = Some x"
begin

lemma enc_inject: "valid x \<Longrightarrow> valid y \<Longrightarrow> enc x = enc y \<longleftrightarrow> x = y"
  by (metis dec_enc option.inject)

lemma enc_inj_on: "inj_on enc {x. valid x}"
  by (auto simp: inj_on_def enc_inject)

lemma distinct_enc: "(\<And>x. x \<in> set xs \<Longrightarrow> valid x) \<Longrightarrow> distinct (map enc xs) \<longleftrightarrow> distinct xs"
  by (auto simp: distinct_map inj_on_def enc_inject)

end

lemma DecodeHex_BytesToHex [simp]: "DecodeHex (BytesToHex b) = (b, None)"
proof (cases "b = []")
  case False
  then have "hexEncode b \<noteq> []" by (metis hexEncode.simps(1) hexEncode_inject)
  with False show ?thesis by (simp add: BytesToHex_def DecodeHex_def)
qed (simp add: BytesToHex_def DecodeHex_def)

lemma HexToBigInt_BigToHex [simp]: "HexToBigInt (BigToHex (Some n)) = Ok n"
proof (cases "n = 0")
  case True
  then show ?thesis
    by (simp add: BigToHex_def HexToBigInt_def scanNat_def digitVal_def)
qed (simp add: BigToHex_def HexToBigInt_def SetString_Text Let_def)

definition readBytes :: "string \<Rightarrow> bytes option" where
  "readBytes s = (case DecodeHex s of (b, None) \<Rightarrow> Some b | (b, Some e) \<Rightarrow> None)"

definition readBig :: "string \<Rightarrow> int option" where
  "readBig s = (case HexToBigInt s of Ok n \<Rightarrow> Some n | _ \<Rightarrow> None)"

interpretation hexBytes: text_form BytesToHex readBytes "\<lambda>_. True"
  by unfold_locales (simp add: readBytes_def)

interpretation hexBig: text_form "\<lambda>n. BigToHex (Some n)" readBig "\<lambda>_. True"
  by unfold_locales (simp add: readBig_def)

section \<open>Equivalence of the two packing routines\<close>

lemma SetBytes_Cons: "SetBytes (b # bs) = uint b * 256 ^ length bs + SetBytes bs"
  using SetBytes_append [of "[b]" bs] by (simp add: SetBytes_def)

lemma SetBytes_big_endian:
  "SetBytes (map (\<lambda>i. word_of_int (n div 256 ^ (k - 1 - i))) [0..<k]) = n mod 256 ^ k"
proof (induction k)
  case (Suc k)
  have "map (\<lambda>i. word_of_int (n div 256 ^ (Suc k - 1 - i))) [0..<Suc k] =
      (word_of_int (n div 256 ^ k) :: byte) # map (\<lambda>i. word_of_int (n div 256 ^ (k - 1 - i))) [0..<k]"
    by (simp add: upt_conv_Cons map_Suc_upt [symmetric] del: upt_Suc)
  moreover have "n mod 256 ^ Suc k = (n div 256 ^ k mod 256) * 256 ^ k + n mod 256 ^ k"
    using zmod_zmult2_eq [of 256 n "256 ^ k"] by (simp add: mult.commute)
  ultimately show ?case
    using Suc by (simp add: SetBytes_Cons uint_word_of_int del: upt_Suc power_Suc)
qed simp

lemma SetBytes_putUint64: "SetBytes (putUint64 w) = uint w"
proof -
  have "uint w mod 256 ^ 8 = uint w" using uint_lt2p [of w] by simp
  then show ?thesis
    using SetBytes_big_endian [of "uint w" 8] by (simp add: putUint64_def)
qed

lemma PackUint128s_halves:
  "PackUint128s hi lo = (replicate 8 0 @ putUint64 hi) @ (replicate 8 0 @ putUint64 lo)"
proof -
  have "replicate 32 (0::byte) = replicate 8 0 @ replicate 8 0 @ replicate 8 0 @ replicate 8 0"
    by (simp add: replicate_add [symmetric])
  then show ?thesis by (simp add: PackUint128s_def layout)
qed

lemma pad64_eq_into128: "replicate 8 0 @ putUint64 w = into128 (Some (uint w)) (replicate 16 0)"
proof -
  have "uint w < 2 ^ 128" using uint_lt2p [of w] by simp
  then have "SetBytes (replicate 8 0 @ putUint64 w) = SetBytes (into128 (Some (uint w)) (replicate 16 0))"
    by (simp add: SetBytes_into128 SetBytes_putUint64)
  then show ?thesis by (subst (asm) SetBytes_inject) simp_all
qed

end
