(* ===== verification/UserOp.thy ===== *)
theory UserOp
  imports Pack
begin

text \<open>
  \<open>internal/core/userop.go\<close>: the wire format of a UserOperation (all fields are strings), the
  packed on-chain struct, and the conversion \<open>FromRPC\<close>. The field \<open>f\<close> of the Go struct
  \<open>UserOperationRPC\<close> is \<open>rpc_f\<close> here; the fields of \<open>PackedUserOp\<close> keep their names.
\<close>

record UserOperationRPC =
  rpc_Sender :: string
  rpc_Nonce :: string
  rpc_Factory :: string
  rpc_FactoryData :: string
  rpc_CallData :: string
  rpc_CallGasLimit :: string
  rpc_VerificationGasLimit :: string
  rpc_PreVerificationGas :: string
  rpc_MaxFeePerGas :: string
  rpc_MaxPriorityFeePerGas :: string
  rpc_Paymaster :: string
  rpc_PaymasterData :: string
  rpc_Signature :: string

record PackedUserOp =
  Sender :: address
  Nonce :: int
  InitCode :: bytes
  CallData :: bytes
  AccountGasLimits :: bytes
  PreVerificationGas :: int
  GasFees :: bytes
  PaymasterAndData :: bytes
  Signature :: bytes

text \<open>What the Go types guarantee of the fixed-size arrays.\<close>

definition wf_op :: "'a PackedUserOp_scheme \<Rightarrow> bool" where
  "wf_op op \<longleftrightarrow> length (Sender op) = 20 \<and> length (AccountGasLimits op) = 32 \<and> length (GasFees op) = 32"

definition checkedHex :: "string \<Rightarrow> bytes res" where
  "checkedHex s = (case DecodeHex s of (b, None) \<Rightarrow> Ok b | (b, Some e) \<Rightarrow> Err e)"

text \<open>
  An address in front of its data: \<open>make([]byte, 20+len(data))\<close>, the address copied to the
  first 20 bytes and the data behind it.
\<close>

definition addressAndData :: "address \<Rightarrow> bytes \<Rightarrow> bytes" where
  "addressAndData a d =
     (let buf = copy_into 0 20 a (replicate (20 + length d) 0)
      in copy_into 20 (20 + length d) d buf)"

definition FromRPC :: "ethlib \<Rightarrow> UserOperationRPC \<Rightarrow> PackedUserOp res" where
  "FromRPC L op =
     (let sender = HexToAddress L (rpc_Sender op) in
      bind_res (wrap_err ''nonce'' (HexToBigInt (rpc_Nonce op))) (\<lambda>nonce.
      bind_res (wrap_err ''callData'' (checkedHex (rpc_CallData op))) (\<lambda>callData.
      bind_res (wrap_err ''callGasLimit'' (HexToBigInt (rpc_CallGasLimit op))) (\<lambda>callGasLimit.
      bind_res (wrap_err ''verificationGasLimit'' (HexToBigInt (rpc_VerificationGasLimit op)))
        (\<lambda>verificationGasLimit.
      bind_res (wrap_err ''preVerificationGas'' (HexToBigInt (rpc_PreVerificationGas op)))
        (\<lambda>preVerificationGas.
      bind_res (wrap_err ''maxFeePerGas'' (HexToBigInt (rpc_MaxFeePerGas op))) (\<lambda>maxFeePerGas.
      bind_res (wrap_err ''maxPriorityFeePerGas'' (HexToBigInt (rpc_MaxPriorityFeePerGas op)))
        (\<lambda>maxPriorityFeePerGas.
      bind_res (wrap_err ''signature'' (checkedHex (rpc_Signature op))) (\<lambda>sig.
      bind_res
        (if rpc_Factory op \<noteq> [] then
           bind_res (wrap_err ''factoryData'' (checkedHex (rpc_FactoryData op))) (\<lambda>factoryData.
           Ok (addressAndData (HexToAddress L (rpc_Factory op)) factoryData))
         else Ok []) (\<lambda>initCode.
      bind_res
        (if rpc_Paymaster op \<noteq> [] then
           bind_res (wrap_err ''paymasterData'' (checkedHex (rpc_PaymasterData op))) (\<lambda>pmData.
           Ok (addressAndData (HexToAddress L (rpc_Paymaster op)) pmData))
         else Ok []) (\<lambda>paymasterAndData.
      Ok \<lparr>Sender = sender, Nonce = nonce, InitCode = initCode, CallData = callData,
          AccountGasLimits = PackBigInts (Some verificationGasLimit) (Some callGasLimit),
          PreVerificationGas = preVerificationGas,
          GasFees = PackBigInts (Some maxPriorityFeePerGas) (Some maxFeePerGas),
          PaymasterAndData = paymasterAndData, Signature = sig\<rparr>)))))))))))"

lemma addressAndData_append [simp]: "length a = 20 \<Longrightarrow> addressAndData a d = a @ d"
  by (simp add: addressAndData_def replicate_add layout)

lemma checkedHex_BytesToHex [simp]: "checkedHex (BytesToHex b) = Ok b"
  by (simp add: checkedHex_def)

lemma checkedHex_no_Panic [simp]: "checkedHex s \<noteq> Panic m"
  by (auto simp: checkedHex_def split: prod.splits option.splits)

lemma HexToBigInt_no_Panic [simp]: "HexToBigInt s \<noteq> Panic m"
  by (simp add: HexToBigInt_def Let_def split: option.splits)

text \<open>The fields of a successful conversion, as one elimination rule for the component proofs.\<close>

lemma FromRPC_OkE:
  assumes "FromRPC L op = Ok p" and "ethlib_ok L"
  obtains nonce callGas verifGas pvg maxFee maxPrio where
    "HexToBigInt (rpc_Nonce op) = Ok nonce"
    "HexToBigInt (rpc_CallGasLimit op) = Ok callGas"
    "HexToBigInt (rpc_VerificationGasLimit op) = Ok verifGas"
    "HexToBigInt (rpc_PreVerificationGas op) = Ok pvg"
    "HexToBigInt (rpc_MaxFeePerGas op) = Ok maxFee"
    "HexToBigInt (rpc_MaxPriorityFeePerGas op) = Ok maxPrio"
    "checkedHex (rpc_CallData op) = Ok (CallData p)"
    "checkedHex (rpc_Signature op) = Ok (Signature p)"
    "if rpc_Factory op = [] then InitCode p = []
     else \<exists>d. checkedHex (rpc_FactoryData op) = Ok d \<and> InitCode p = HexToAddress L (rpc_Factory op) @ d"
    "if rpc_Paymaster op = [] then PaymasterAndData p = []
     else \<exists>d. checkedHex (rpc_PaymasterData op) = Ok d \<and>
              PaymasterAndData p = HexToAddress L (rpc_Paymaster op) @ d"
    "Sender p = HexToAddress L (rpc_Sender op)" "Nonce p = nonce" "PreVerificationGas p = pvg"
    "AccountGasLimits p = PackBigInts (Some verifGas) (Some callGas)"
    "GasFees p = PackBigInts (Some maxPrio) (Some maxFee)"
  using assms by (auto simp: FromRPC_def Let_def length_HexToAddress split: if_splits)

lemma FromRPC_wf: "FromRPC L op = Ok p \<Longrightarrow> ethlib_ok L \<Longrightarrow> wf_op p"
  by (elim FromRPC_OkE) (simp_all add: wf_op_def length_HexToAddress)

section \<open>Properties\<close>

text \<open>
C23: a conversion that succeeds yields a well-formed packed operation with the values that were sent: the
sender, the nonce, the pre-verification gas, the calldata and the signature are those of the fields, the gas
limits and fees are the low 128 bits of the numbers, in their halves of the words, and initialisation
code and paymaster data are the 20 bytes of the factory or paymaster followed by its decoded data, or
empty when none is named.
\<close>

theorem FromRPC_well_typed:
  assumes "ethlib_ok L" "FromRPC L req = Ok p"
  shows "wf_op p \<and> Sender p = HexToAddress L (rpc_Sender req) \<and>
    HexToBigInt (rpc_Nonce req) = Ok (Nonce p) \<and> HexToBigInt (rpc_PreVerificationGas req) = Ok (PreVerificationGas p) \<and>
    checkedHex (rpc_CallData req) = Ok (CallData p) \<and> checkedHex (rpc_Signature req) = Ok (Signature p) \<and>
    (\<exists>verif call prio fee. HexToBigInt (rpc_VerificationGasLimit req) = Ok verif \<and> HexToBigInt (rpc_CallGasLimit req) = Ok call \<and>
       HexToBigInt (rpc_MaxPriorityFeePerGas req) = Ok prio \<and> HexToBigInt (rpc_MaxFeePerGas req) = Ok fee \<and>
       SetBytes (slice 0 16 (AccountGasLimits p)) = \<bar>verif\<bar> mod 2 ^ 128 \<and>
       SetBytes (slice 16 32 (AccountGasLimits p)) = \<bar>call\<bar> mod 2 ^ 128 \<and>
       SetBytes (slice 0 16 (GasFees p)) = \<bar>prio\<bar> mod 2 ^ 128 \<and> SetBytes (slice 16 32 (GasFees p)) = \<bar>fee\<bar> mod 2 ^ 128) \<and>
    (if rpc_Factory req = [] then InitCode p = []
     else \<exists>d. checkedHex (rpc_FactoryData req) = Ok d \<and> InitCode p = HexToAddress L (rpc_Factory req) @ d) \<and>
    (if rpc_Paymaster req = [] then PaymasterAndData p = []
     else \<exists>d. checkedHex (rpc_PaymasterData req) = Ok d \<and> PaymasterAndData p = HexToAddress L (rpc_Paymaster req) @ d)"
  using assms(2,1)
proof (rule FromRPC_OkE, goal_cases)
  case (1 nonce callGas verifGas pvg maxFee maxPrio)
  then show ?case
    using FromRPC_wf [OF assms(2,1)] by (simp add: SetBytes_into128)
qed

definition plainRequest :: UserOperationRPC where
  "plainRequest = \<lparr>rpc_Sender = ''0x11'', rpc_Nonce = ''0x5'', rpc_Factory = [], rpc_FactoryData = [],
     rpc_CallData = ''0x'', rpc_CallGasLimit = ''0x1'', rpc_VerificationGasLimit = ''0x5'',
     rpc_PreVerificationGas = ''0x1'', rpc_MaxFeePerGas = ''0x1'', rpc_MaxPriorityFeePerGas = ''0x1'',
     rpc_Paymaster = [], rpc_PaymasterData = [], rpc_Signature = ''0x''\<rparr>"

lemma HexToBigInt_digits: "HexToBigInt ''0x5'' = Ok 5" "HexToBigInt ''0x1'' = Ok 1"
  by (simp_all add: HexToBigInt_def scanNat_def digitVal_def)

lemma plainRequest_Ok: "is_ok (FromRPC hexLib plainRequest)"
proof -
  have "checkedHex ''0x'' = Ok []" by (simp add: checkedHex_def DecodeHex_def)
  then show ?thesis by (simp add: FromRPC_def plainRequest_def HexToBigInt_digits Let_def)
qed

text \<open>The same request with a factory.\<close>

definition factoryRequest :: UserOperationRPC where
  "factoryRequest = plainRequest\<lparr>rpc_Factory := ''0x22'', rpc_FactoryData := ''0x0102''\<rparr>"

lemma factoryRequest_Ok: "is_ok (FromRPC hexLib factoryRequest)" "checkedHex ''0x0102'' = Ok [1, 2]"
proof -
  show d: "checkedHex ''0x0102'' = Ok [1, 2]" by code_simp
  have "checkedHex ''0x'' = Ok []" by (simp add: checkedHex_def DecodeHex_def)
  then show "is_ok (FromRPC hexLib factoryRequest)"
    by (simp add: FromRPC_def factoryRequest_def plainRequest_def HexToBigInt_digits d Let_def)
qed

theorem FromRPC_well_typed_witness:
  "\<exists>p. FromRPC hexLib factoryRequest = Ok p \<and> wf_op p \<and> SetBytes (slice 0 16 (AccountGasLimits p)) = 5 \<and> Nonce p = 5 \<and>
     InitCode p = HexToAddress hexLib ''0x22'' @ [1, 2] \<and> PaymasterAndData p = []"
proof -
  obtain p where p: "FromRPC hexLib factoryRequest = Ok p" using factoryRequest_Ok(1) by (auto simp: is_ok_iff)
  from FromRPC_well_typed [OF hexLib_ok p] p show ?thesis
    by (simp add: factoryRequest_def plainRequest_def HexToBigInt_digits factoryRequest_Ok(2))
qed

end
