(* ===== verification/AbiSpec.thy ===== *)
theory AbiSpec
  imports Pack
begin

text \<open>
  Reference side of the ABI: the encodings of an address, a \<open>uint256\<close> and a \<open>bytes\<close> value
  as the Solidity ABI specifies them, and a reader for such words. The routines of the program are
  compared with these.
\<close>

definition abiAddress :: "address \<Rightarrow> bytes" where
  "abiAddress a = replicate 12 0 @ a"

definition abiUint :: "int \<Rightarrow> bytes" where
  "abiUint n = PadLeft32 (Bytes n)"

definition paddedLen :: "nat \<Rightarrow> nat" where
  "paddedLen n = ((n + 31) div 32) * 32"

definition abiBytes :: "bytes \<Rightarrow> bytes" where
  "abiBytes d = abiUint (int (length d)) @ d @ replicate (paddedLen (length d) - length d) 0"

definition uint256 :: "int \<Rightarrow> bool" where
  "uint256 n \<longleftrightarrow> 0 \<le> n \<and> n < 2 ^ 256"

text \<open>Reading: the 32-byte word at a position, and the bytes value a position points at.\<close>

definition wordAt :: "bytes \<Rightarrow> nat \<Rightarrow> bytes" where
  "wordAt buf p = slice p (p + 32) buf"

definition uintAt :: "bytes \<Rightarrow> nat \<Rightarrow> int" where
  "uintAt buf p = SetBytes (wordAt buf p)"

definition bytesAt :: "bytes \<Rightarrow> nat \<Rightarrow> bytes" where
  "bytesAt buf p = slice (p + 32) (p + 32 + nat (uintAt buf p)) buf"

lemma length_abiAddress [simp]: "length a = 20 \<Longrightarrow> length (abiAddress a) = 32"
  by (simp add: abiAddress_def)

lemma length_abiUint [simp]: "uint256 n \<Longrightarrow> length (abiUint n) = 32"
  using length_Bytes_le_iff [of n 32] by (simp add: abiUint_def uint256_def)

lemma SetBytes_abiUint [simp]: "0 \<le> n \<Longrightarrow> SetBytes (abiUint n) = n"
  by (simp add: abiUint_def)

lemma abiUint_inject: "uint256 m \<Longrightarrow> uint256 n \<Longrightarrow> abiUint m = abiUint n \<longleftrightarrow> m = n"
  using length_Bytes_le_iff [of n 32] length_Bytes_le_iff [of m 32]
  by (simp add: abiUint_def PadLeft32_inject uint256_def)

lemma uint256_uint64 [simp]: "uint256 (uint (w :: uint64))"
  using uint_lt2p [of w] by (simp add: uint256_def)

lemma uint256_numeral [simp]: "numeral k < (2::int) ^ 256 \<Longrightarrow> uint256 (numeral k)"
  by (simp add: uint256_def)

lemma uint256_of_nat: "int n < 2 ^ 63 \<Longrightarrow> uint256 (int n)"
  by (simp add: uint256_def)

lemma paddedLen_ge: "n \<le> paddedLen n"
  by (simp add: paddedLen_def)

lemma paddedLen_less: "paddedLen n < n + 32"
  by (simp add: paddedLen_def)

lemma length_abiBytes: "uint256 (int (length d)) \<Longrightarrow> length (abiBytes d) = 32 + paddedLen (length d)"
  using paddedLen_ge [of "length d"] by (simp add: abiBytes_def)

lemma abiUint_96: "abiUint 96 = replicate 31 0 @ [96]"
  by (simp add: abiUint_def Bytes_def natBytes.simps PadLeft32_short)

section \<open>Reading back\<close>

lemma slice_shift: "slice (length pre + i) (length pre + j) (pre @ xs) = slice i j xs"
  by (simp add: slice_def)

lemma wordAt_append: "length pre = p \<Longrightarrow> length w = 32 \<Longrightarrow> wordAt (pre @ w @ post) p = w"
  using slice_shift [of pre 0 32 "w @ post"] by (auto simp: wordAt_def slice_append_left)

lemma bytesAt_append:
  assumes "length pre = p" and "uint256 (int (length d))"
  shows "bytesAt (pre @ abiBytes d @ post) p = d"
proof -
  let ?tail = "d @ replicate (paddedLen (length d) - length d) 0 @ post"
  have buf: "pre @ abiBytes d @ post = pre @ abiUint (int (length d)) @ ?tail"
    by (simp add: abiBytes_def)
  have "uintAt (pre @ abiBytes d @ post) p = int (length d)"
    unfolding buf uintAt_def using assms by (subst wordAt_append) simp_all
  then have "bytesAt (pre @ abiBytes d @ post) p = slice (p + 32) (p + 32 + length d) (pre @ abiBytes d @ post)"
    by (simp add: bytesAt_def)
  also have "\<dots> = d"
    using assms slice_shift [of "pre @ abiUint (int (length d))" 0 "length d" ?tail]
    by (simp add: buf slice_append_left add.assoc)
  finally show ?thesis .
qed

end
