(* ===== verification/OpHash.thy ===== *)
theory OpHash
  imports UserOp AbiSpec
begin

text \<open>
  \<open>internal/core/hash.go\<close>: the ERC-4337 v0.7 \<open>userOpHash\<close>. The model fills the two byte
  buffers by the same copies as the code; the reference definition writes the two ABI encodings as
  concatenations of 32-byte words.
\<close>

definition innerBuffer :: "ethlib \<Rightarrow> 'a PackedUserOp_scheme \<Rightarrow> bytes" where
  "innerBuffer L op =
     (let inner = replicate 256 0;
          inner = copy_into 12 32 (Sender op) inner;
          inner = copy_into 32 64 (PadLeft32 (Bytes (Nonce op))) inner;
          inner = copy_into 64 96 (Keccak256 L [InitCode op]) inner;
          inner = copy_into 96 128 (Keccak256 L [CallData op]) inner;
          inner = copy_into 128 160 (AccountGasLimits op) inner;
          inner = copy_into 160 192 (PadLeft32 (Bytes (PreVerificationGas op))) inner;
          inner = copy_into 192 224 (GasFees op) inner;
          inner = copy_into 224 256 (Keccak256 L [PaymasterAndData op]) inner
      in inner)"

definition outerBuffer :: "bytes \<Rightarrow> address \<Rightarrow> uint64 \<Rightarrow> bytes" where
  "outerBuffer innerHash entryPoint chainID =
     (let outer = replicate 96 0;
          outer = copy_into 0 32 innerHash outer;
          outer = copy_into 44 64 entryPoint outer;
          outer = copy_into 64 96 (PadLeft32 (Bytes (uint chainID))) outer
      in outer)"

definition ComputeUserOpHash :: "ethlib \<Rightarrow> 'a PackedUserOp_scheme \<Rightarrow> address \<Rightarrow> uint64 \<Rightarrow> hash" where
  "ComputeUserOpHash L op entryPoint chainID =
     (let innerHash = copy_into 0 32 (Keccak256 L [innerBuffer L op]) (replicate 32 0)
      in copy_into 0 32 (Keccak256 L [outerBuffer innerHash entryPoint chainID]) (replicate 32 0))"

section \<open>The reference encoding\<close>

definition abiInner :: "ethlib \<Rightarrow> 'a PackedUserOp_scheme \<Rightarrow> bytes" where
  "abiInner L op = concat
     [abiAddress (Sender op), abiUint (Nonce op), keccak L (InitCode op), keccak L (CallData op),
      AccountGasLimits op, abiUint (PreVerificationGas op), GasFees op, keccak L (PaymasterAndData op)]"

definition abiOuter :: "bytes \<Rightarrow> address \<Rightarrow> uint64 \<Rightarrow> bytes" where
  "abiOuter h entryPoint chainID = concat [h, abiAddress entryPoint, abiUint (uint chainID)]"

definition specUserOpHash :: "ethlib \<Rightarrow> 'a PackedUserOp_scheme \<Rightarrow> address \<Rightarrow> uint64 \<Rightarrow> hash" where
  "specUserOpHash L op entryPoint chainID =
     keccak L (abiOuter (keccak L (abiInner L op)) entryPoint chainID)"

text \<open>An operation whose integers are \<open>uint256\<close> values, as the on-chain struct requires.\<close>

definition uint256_op :: "'a PackedUserOp_scheme \<Rightarrow> bool" where
  "uint256_op op \<longleftrightarrow> uint256 (Nonce op) \<and> uint256 (PreVerificationGas op)"

lemma innerBuffer_abi:
  assumes "ethlib_ok L" and "wf_op op" and "uint256_op op"
  shows "innerBuffer L op = abiInner L op"
proof -
  have "replicate 256 (0::byte) = replicate 12 0 @ replicate 20 0 @ replicate 32 0 @ replicate 32 0 @
     replicate 32 0 @ replicate 32 0 @ replicate 32 0 @ replicate 32 0 @ replicate 32 0"
    by (simp add: replicate_add [symmetric])
  moreover have "length (PadLeft32 (Bytes (Nonce op))) = 32" "length (PadLeft32 (Bytes (PreVerificationGas op))) = 32"
    using assms(3) length_abiUint [unfolded abiUint_def] by (simp_all add: uint256_op_def)
  ultimately show ?thesis
    using assms(1,2)
    by (simp add: innerBuffer_def abiInner_def abiAddress_def abiUint_def wf_op_def length_keccak layout)
qed

lemma outerBuffer_abi:
  assumes "length h = 32" and "length ep = 20"
  shows "outerBuffer h ep c = abiOuter h ep c"
proof -
  have "replicate 96 (0::byte) = replicate 32 0 @ replicate 12 0 @ replicate 20 0 @ replicate 32 0"
    by (simp add: replicate_add [symmetric])
  moreover have "length (PadLeft32 (Bytes (uint c))) = 32"
    using length_abiUint [OF uint256_uint64, of c] by (simp add: abiUint_def)
  ultimately show ?thesis
    using assms by (simp add: outerBuffer_def abiOuter_def abiAddress_def abiUint_def layout)
qed

lemma ComputeUserOpHash_spec:
  assumes "ethlib_ok L" and "wf_op op" and "uint256_op op" and "length ep = 20"
  shows "ComputeUserOpHash L op ep c = specUserOpHash L op ep c"
  using assms
  by (simp add: ComputeUserOpHash_def specUserOpHash_def innerBuffer_abi outerBuffer_abi
      length_keccak layout)

lemma length_ComputeUserOpHash [simp]: "length (ComputeUserOpHash L op ep c) = 32"
  by (simp add: ComputeUserOpHash_def)

text \<open>The byte strings that are hashed on the way to a \<open>userOpHash\<close>.\<close>

definition preimages :: "ethlib \<Rightarrow> 'a PackedUserOp_scheme \<Rightarrow> address \<Rightarrow> uint64 \<Rightarrow> bytes list" where
  "preimages L op ep c =
     [InitCode op, CallData op, PaymasterAndData op, abiInner L op,
      abiOuter (keccak L (abiInner L op)) ep c]"

text \<open>
  Everything the hash commits to; the signature is not part of it. \<open>Bytes()\<close> is the magnitude of a
  number, so of the nonce and the pre-verification gas the hash covers the absolute value.
\<close>

definition hashedFields :: "'a PackedUserOp_scheme \<Rightarrow> address \<times> int \<times> bytes \<times> bytes \<times> bytes \<times> int \<times> bytes \<times> bytes" where
  "hashedFields op = (Sender op, \<bar>Nonce op\<bar>, InitCode op, CallData op, AccountGasLimits op,
     \<bar>PreVerificationGas op\<bar>, GasFees op, PaymasterAndData op)"

definition magnitudes256 :: "'a PackedUserOp_scheme \<Rightarrow> bool" where
  "magnitudes256 op \<longleftrightarrow> \<bar>Nonce op\<bar> < 2 ^ 256 \<and> \<bar>PreVerificationGas op\<bar> < 2 ^ 256"

definition unsigned :: "'a PackedUserOp_scheme \<Rightarrow> 'a PackedUserOp_scheme" where
  "unsigned op = op\<lparr>Nonce := \<bar>Nonce op\<bar>, PreVerificationGas := \<bar>PreVerificationGas op\<bar>\<rparr>"

lemma unsigned_simps [simp]:
  "wf_op (unsigned op) = wf_op op" "uint256_op (unsigned op) = magnitudes256 op"
  "hashedFields (unsigned op) = hashedFields op"
  by (simp_all add: unsigned_def wf_op_def uint256_op_def uint256_def magnitudes256_def hashedFields_def)

lemma Bytes_abs: "Bytes \<bar>n\<bar> = Bytes n"
  by (simp add: abs_if)

lemma ComputeUserOpHash_unsigned [simp]:
  "ComputeUserOpHash L (unsigned op) ep c = ComputeUserOpHash L op ep c"
  "preimages L (unsigned op) ep c = preimages L op ep c"
  by (simp_all add: ComputeUserOpHash_def innerBuffer_def preimages_def abiInner_def abiUint_def unsigned_def Bytes_abs)

lemma abiOuter_inject:
  assumes "length h = 32" "length h' = 32" "length ep = 20" "length ep' = 20"
    and "abiOuter h ep c = abiOuter h' ep' c'"
  shows "h = h' \<and> ep = ep' \<and> c = c'"
  using assms by (simp add: abiOuter_def abiAddress_def abiUint_inject word_uint_eq_iff)

lemma abiInner_inject:
  assumes "ethlib_ok L" "wf_op op" "uint256_op op" "wf_op op'" "uint256_op op'"
    and "abiInner L op = abiInner L op'"
  shows "Sender op = Sender op' \<and> Nonce op = Nonce op' \<and> keccak L (InitCode op) = keccak L (InitCode op') \<and>
    keccak L (CallData op) = keccak L (CallData op') \<and> AccountGasLimits op = AccountGasLimits op' \<and>
    PreVerificationGas op = PreVerificationGas op' \<and> GasFees op = GasFees op' \<and>
    keccak L (PaymasterAndData op) = keccak L (PaymasterAndData op')"
  using assms
  by (simp add: abiInner_def abiAddress_def wf_op_def uint256_op_def length_keccak abiUint_inject)

lemma hash_fields_inject:
  assumes L: "ethlib_ok L" and wf: "wf_op op" "uint256_op op" "wf_op op'" "uint256_op op'"
    and ep: "length ep = 20" "length ep' = 20"
    and inj: "inj_on (keccak L) (set (preimages L op ep c @ preimages L op' ep' c'))"
    and eq: "ComputeUserOpHash L op ep c = ComputeUserOpHash L op' ep' c'"
  shows "hashedFields op = hashedFields op' \<and> ep = ep' \<and> c = c'"
proof -
  let ?pre = "set (preimages L op ep c @ preimages L op' ep' c')"
  have inj': "x = y" if "keccak L x = keccak L y" "x \<in> ?pre" "y \<in> ?pre" for x y
    using inj that by (simp add: inj_on_def)
  from eq have "specUserOpHash L op ep c = specUserOpHash L op' ep' c'"
    using L wf ep by (simp add: ComputeUserOpHash_spec)
  then have "abiOuter (keccak L (abiInner L op)) ep c = abiOuter (keccak L (abiInner L op')) ep' c'"
    unfolding specUserOpHash_def by (rule inj') (simp_all add: preimages_def)
  then have outer: "keccak L (abiInner L op) = keccak L (abiInner L op')" "ep = ep'" "c = c'"
    using abiOuter_inject [OF length_keccak [OF L] length_keccak [OF L] ep] by blast+
  from outer(1) have "abiInner L op = abiInner L op'"
    by (rule inj') (simp_all add: preimages_def)
  note inner = abiInner_inject [OF L wf this]
  have "InitCode op = InitCode op'" "CallData op = CallData op'" "PaymasterAndData op = PaymasterAndData op'"
    using inner by (auto intro!: inj' simp: preimages_def)
  with inner outer show ?thesis by (simp add: hashedFields_def)
qed

lemma hash_depends_only_on_fields:
  "hashedFields op = hashedFields op' \<Longrightarrow> ComputeUserOpHash L op ep c = ComputeUserOpHash L op' ep c"
  by (simp add: hashedFields_def ComputeUserOpHash_def innerBuffer_def) (metis Bytes_abs)

section \<open>Properties\<close>

text \<open>
  For a well-formed operation with \<open>uint256\<close> integers, the buffers \<open>ComputeUserOpHash\<close>
  fills are exactly the two ABI encodings of ERC-4337 v0.7, so the result is
  \<open>keccak256(abi.encode(keccak256(abi.encode(\<dots>)), entryPoint, chainId))\<close>.
\<close>

theorem ComputeUserOpHash_is_abi_encode:
  assumes "ethlib_ok L" and "wf_op op" and "uint256_op op" and "length ep = 20"
  shows "ComputeUserOpHash L op ep c = specUserOpHash L op ep c"
  using assms by (rule ComputeUserOpHash_spec)

definition sampleOp :: PackedUserOp where
  "sampleOp = \<lparr>Sender = replicate 20 17, Nonce = 5, InitCode = [], CallData = [1, 2, 3],
     AccountGasLimits = PackBigInts (Some 150000) (Some 50000), PreVerificationGas = 48000,
     GasFees = PackBigInts (Some 1000000000) (Some 2000000000),
     PaymasterAndData = replicate 20 34 @ [9], Signature = replicate 65 7\<rparr>"

lemma sampleOp_ok [simp]: "wf_op sampleOp" "uint256_op sampleOp"
  by (simp_all add: sampleOp_def wf_op_def uint256_op_def)

theorem ComputeUserOpHash_is_abi_encode_witness:
  "ComputeUserOpHash hexLib sampleOp (replicate 20 34) 1 = specUserOpHash hexLib sampleOp (replicate 20 34) 1"
  by (rule ComputeUserOpHash_is_abi_encode) simp_all

text \<open>
  C8: the hash commits to every field it covers, to the entry point and to the chain: unless
  keccak256 collides on the byte strings hashed for these two operations, two operations whose nonce and
  pre-verification gas fit 256 bits get the same \<open>userOpHash\<close> exactly when they agree on all of them, the two
  numbers up to their sign. The signature is the only field left out.
\<close>

theorem userOpHash_commits:
  assumes "ethlib_ok L" and "wf_op op" "magnitudes256 op" "wf_op op'" "magnitudes256 op'"
    and "length ep = 20" "length ep' = 20"
    and "inj_on (keccak L) (set (preimages L op ep c @ preimages L op' ep' c'))"
  shows "ComputeUserOpHash L op ep c = ComputeUserOpHash L op' ep' c' \<longleftrightarrow>
    hashedFields op = hashedFields op' \<and> ep = ep' \<and> c = c'"
  using hash_fields_inject [of L "unsigned op" "unsigned op'" ep ep' c c'] assms hash_depends_only_on_fields [of op op' L ep c]
  by auto

lemma inj_on_by_images: "distinct (map f (remdups xs)) \<Longrightarrow> inj_on f (set xs)"
  by (simp add: distinct_map)

lemma sample_preimages:
  "inj_on (keccak hexLib) (set (preimages hexLib sampleOp (replicate 20 34) 1 @
     preimages hexLib (sampleOp\<lparr>Nonce := 6\<rparr>) (replicate 20 34) 1))"
  by (rule inj_on_by_images) code_simp

theorem userOpHash_commits_witness:
  "ComputeUserOpHash hexLib sampleOp (replicate 20 34) 1 \<noteq>
   ComputeUserOpHash hexLib (sampleOp\<lparr>Nonce := 6\<rparr>) (replicate 20 34) 1"
proof -
  have "wf_op (sampleOp\<lparr>Nonce := 6\<rparr>)" "magnitudes256 (sampleOp\<lparr>Nonce := 6\<rparr>)" "magnitudes256 sampleOp"
    by (simp_all add: sampleOp_def wf_op_def magnitudes256_def)
  then show ?thesis
    using userOpHash_commits [OF hexLib_ok sampleOp_ok(1) _ _ _ _ _ sample_preimages]
    by (simp add: hashedFields_def sampleOp_def)
qed

text \<open>
  The hash sees integers through \<open>Bytes()\<close> only, so it does not see their sign: the parser
  accepts a negative nonce (for example \<open>0x-5\<close>), and the operation with nonce \<open>-n\<close> hashes like
  the one with nonce \<open>n\<close>.
\<close>

theorem userOpHash_ignores_sign:
  "ComputeUserOpHash L (op\<lparr>Nonce := - n\<rparr>) ep c = ComputeUserOpHash L (op\<lparr>Nonce := n\<rparr>) ep c \<and>
   HexToBigInt ''0x-5'' = Ok (- 5)"
proof
  show "ComputeUserOpHash L (op\<lparr>Nonce := - n\<rparr>) ep c = ComputeUserOpHash L (op\<lparr>Nonce := n\<rparr>) ep c"
    by (simp add: ComputeUserOpHash_def innerBuffer_def)
  show "HexToBigInt ''0x-5'' = Ok (- 5)"
    by (simp add: HexToBigInt_def scanNat_def digitVal_def)
qed

end
