(* ===== verification/Calldata.thy ===== *)
theory Calldata
  imports OpHash
begin

text \<open>
  \<open>internal/core/calldata.go\<close>: building and decoding the calldata of
  \<open>SignetAccount.execute(address,uint256,bytes)\<close> and the \<open>initCode\<close> of a first deployment.
  Offsets read from calldata are \<open>int64\<close> values that may be negative or wrap around; where a
  slice expression or \<open>make\<close> would then be out of range the model panics, as Go does.
\<close>

definition executeSelector :: "ethlib \<Rightarrow> bytes" where
  "executeSelector L = slice 0 4 (Keccak256 L [stringBytes ''execute(address,uint256,bytes)''])"

definition DecodeSignetExecuteTarget :: "ethlib \<Rightarrow> bytes \<Rightarrow> address res" where
  "DecodeSignetExecuteTarget L callData =
     (if length callData < 4 + 32 then Err (ErrText ''callData too short'')
      else if slice 0 4 callData \<noteq> executeSelector L
      then Err (ErrFmt ''unrecognised selector %x'' [FBytes (slice 0 4 callData)])
      else Ok (BytesToAddress L (slice (4 + 12) (4 + 32) callData)))"

definition DecodeSignetExecute :: "ethlib \<Rightarrow> bytes \<Rightarrow> (address \<times> int \<times> bytes) res" where
  "DecodeSignetExecute L callData =
     (if length callData < 4 + 32 + 32 + 32 then Err (ErrText ''callData too short for execute'')
      else if slice 0 4 callData \<noteq> executeSelector L
      then Err (ErrFmt ''unrecognised selector %x'' [FBytes (slice 0 4 callData)])
      else
        let target = BytesToAddress L (slice (4 + 12) (4 + 32) callData);
            val = SetBytes (slice (4 + 32) (4 + 64) callData);
            offset = SetBytes (slice (4 + 64) (4 + 96) callData);
            dataStart = wrap64 (4 + Int64 offset)
        in
        if int (length callData) < wrap64 (dataStart + 32)
        then Err (ErrText ''callData too short for data length'')
        else
          bind_res (goSlice dataStart (wrap64 (dataStart + 32)) callData) (\<lambda>lenWord.
          let dataLen = SetBytes lenWord;
              dataBegin = wrap64 (dataStart + 32);
              dataEnd = wrap64 (dataBegin + Int64 dataLen)
          in
          if int (length callData) < dataEnd
          then Err (ErrText ''callData too short for data payload'')
          else
            bind_res (goMake (Int64 dataLen)) (\<lambda>innerData.
            bind_res (goSlice dataBegin dataEnd callData) (\<lambda>payload.
            Ok (target, val, copy_into 0 (length innerData) payload innerData)))))"

definition BuildExecuteCalldata :: "ethlib \<Rightarrow> address \<Rightarrow> int \<Rightarrow> bytes \<Rightarrow> bytes" where
  "BuildExecuteCalldata L to val data =
     (let dataPaddedLen = ((length data + 31) div 32) * 32;
          buf = replicate (4 + 32 + 32 + 32 + 32 + dataPaddedLen) 0;
          buf = copy_into 0 4 (executeSelector L) buf;
          buf = copy_into (4 + 12) (4 + 32) to buf;
          buf = copy_into (4 + 32) (4 + 64) (PadLeft32 (Bytes val)) buf;
          buf = buf[4 + 64 + 31 := 96];
          buf = copy_into (4 + 96) (4 + 128) (PadLeft32 (Bytes (int (length data)))) buf;
          buf = copy_into (4 + 128) (length buf) data buf
      in buf)"

definition ABIEncodeFactoryArgs :: "address \<Rightarrow> bytes \<Rightarrow> int \<Rightarrow> bytes" where
  "ABIEncodeFactoryArgs entryPoint groupPubKey salt =
     (let dataPaddedLen = ((length groupPubKey + 31) div 32) * 32;
          buf = replicate (4 * 32 + dataPaddedLen) 0;
          buf = copy_into 12 32 entryPoint buf;
          buf = buf[32 + 31 := 96];
          buf = copy_into 64 96 (PadLeft32 (Bytes salt)) buf;
          buf = copy_into 96 128 (PadLeft32 (Bytes (int (length groupPubKey)))) buf;
          buf = copy_into 128 (length buf) groupPubKey buf
      in buf)"

definition BuildInitCode :: "ethlib \<Rightarrow> address \<Rightarrow> address \<Rightarrow> bytes \<Rightarrow> int \<Rightarrow> bytes" where
  "BuildInitCode L factory entryPoint groupPubKey salt =
     (let sel = slice 0 4 (Keccak256 L [stringBytes ''createAccount(address,bytes,uint256)'']);
          args = ABIEncodeFactoryArgs entryPoint groupPubKey salt;
          out = replicate (20 + 4 + length args) 0;
          out = copy_into 0 20 factory out;
          out = copy_into 20 24 sel out;
          out = copy_into 24 (length out) args out
      in out)"

section \<open>The encodings as concatenations\<close>

lemma length_executeSelector [simp]: "ethlib_ok L \<Longrightarrow> length (executeSelector L) = 4"
  by (simp add: executeSelector_def length_keccak)

lemma list_update_append_right [layout]:
  "length xs \<le> i \<Longrightarrow> (xs @ ys)[i := v] = xs @ ys[i - length xs := v]"
  by (simp add: list_update_append)

lemma list_update_word: "(replicate 32 (0::byte) @ ys)[31 := 96] = abiUint 96 @ ys"
proof -
  have "replicate 32 (0::byte) = replicate 31 0 @ [0]" by (simp add: numeral_eq_Suc)
  then show ?thesis by (simp add: abiUint_96 list_update_append)
qed

lemma copy_data_tail:
  "length d \<le> n \<Longrightarrow> n \<le> m \<Longrightarrow> copy_into 0 m d (replicate n 0) = d @ replicate (n - length d) 0"
  by (simp add: copy_into_def)

lemma BuildExecuteCalldata_abi:
  assumes "ethlib_ok L" "length to = 20" "uint256 val" "int (length data) < 2 ^ 63"
  shows "BuildExecuteCalldata L to val data =
    executeSelector L @ abiAddress to @ abiUint val @ abiUint 96 @ abiBytes data"
proof -
  let ?n = "paddedLen (length data)"
  have rep: "replicate (132 + ?n) (0::byte) =
     replicate 4 0 @ replicate 12 0 @ replicate 20 0 @ replicate 32 0 @ replicate 32 0 @ replicate 32 0 @ replicate ?n 0"
    by (simp only: replicate_add [symmetric]) simp
  have len: "length (PadLeft32 (Bytes val)) = 32" "length (PadLeft32 (Bytes (int (length data)))) = 32"
    using assms length_abiUint [unfolded abiUint_def] uint256_of_nat by blast+
  show ?thesis
    using assms(1,2) len paddedLen_ge [of "length data"]
    by (simp add: BuildExecuteCalldata_def Let_def paddedLen_def [symmetric] rep layout list_update_word
        abiAddress_def abiBytes_def copy_data_tail abiUint_def [symmetric])
qed

lemma ABIEncodeFactoryArgs_abi:
  assumes "length ep = 20" "uint256 salt" "int (length key) < 2 ^ 63"
  shows "ABIEncodeFactoryArgs ep key salt = abiAddress ep @ abiUint 96 @ abiUint salt @ abiBytes key"
proof -
  let ?n = "paddedLen (length key)"
  have rep: "replicate (128 + ?n) (0::byte) =
     replicate 12 0 @ replicate 20 0 @ replicate 32 0 @ replicate 32 0 @ replicate 32 0 @ replicate ?n 0"
    by (simp only: replicate_add [symmetric]) simp
  have len: "length (PadLeft32 (Bytes salt)) = 32" "length (PadLeft32 (Bytes (int (length key)))) = 32"
    using assms length_abiUint [unfolded abiUint_def] uint256_of_nat by blast+
  show ?thesis
    using assms(1) len paddedLen_ge [of "length key"]
    by (simp add: ABIEncodeFactoryArgs_def Let_def paddedLen_def [symmetric] rep layout list_update_word
        abiAddress_def abiBytes_def copy_data_tail abiUint_def [symmetric])
qed

lemma BuildInitCode_abi:
  assumes "ethlib_ok L" "length factory = 20" "length ep = 20" "uint256 salt" "int (length key) < 2 ^ 63"
  shows "BuildInitCode L factory ep key salt =
    factory @ slice 0 4 (keccak L (stringBytes ''createAccount(address,bytes,uint256)'')) @
    abiAddress ep @ abiUint 96 @ abiUint salt @ abiBytes key"
proof -
  let ?args = "abiAddress ep @ abiUint 96 @ abiUint salt @ abiBytes key"
  have rep: "replicate (24 + length ?args) (0::byte) = replicate 20 0 @ replicate 4 0 @ replicate (length ?args) 0"
    by (simp only: replicate_add [symmetric]) simp
  show ?thesis
    using assms(1,2)
    by (simp add: BuildInitCode_def Let_def ABIEncodeFactoryArgs_abi [OF assms(3-5)] rep length_keccak layout
        del: length_append)
qed

section \<open>Decoding\<close>

lemma Int64_high:
  assumes "2 ^ 63 \<le> n mod 2 ^ 64" and "0 \<le> n"
  shows "Int64 n = n mod 2 ^ 64 - 2 ^ 64"
proof -
  define r where "r = n mod 2 ^ 64"
  have r: "2 ^ 63 \<le> r" "r < 2 ^ 64" using assms(1) by (simp_all add: r_def)
  have "(n + 2 ^ 63) mod 2 ^ 64 = (r + 2 ^ 63) mod 2 ^ 64" by (simp add: r_def mod_simps)
  also have "r + 2 ^ 63 = (r - 2 ^ 63) + 2 ^ 64" by simp
  also have "\<dots> mod 2 ^ 64 = (r - 2 ^ 63) mod 2 ^ 64" by (rule mod_add_self2)
  also have "\<dots> = r - 2 ^ 63" using r by (intro mod_pos_pos_trivial) simp_all
  finally show ?thesis using assms(2) by (simp add: Int64_def wrap64_def r_def)
qed

text \<open>
  The words a decoder reads: the target, the value, the offset and, where the offset points, the
  length of the payload.
\<close>

abbreviation executeOffset :: "bytes \<Rightarrow> int" where
  "executeOffset cd \<equiv> uintAt cd 68"

abbreviation executeDataAt :: "bytes \<Rightarrow> nat" where
  "executeDataAt cd \<equiv> 4 + nat (executeOffset cd)"

lemma uintAt_nonneg [simp]: "0 \<le> uintAt cd p"
  by (simp add: uintAt_def)

lemma DecodeSignetExecute_in_range:
  assumes "length cd < 2 ^ 47" and "executeOffset cd < 2 ^ 61" and "uintAt cd (executeDataAt cd) < 2 ^ 61"
  shows "DecodeSignetExecute L cd =
    (if length cd < 100 then Err (ErrText ''callData too short for execute'')
     else if slice 0 4 cd \<noteq> executeSelector L
     then Err (ErrFmt ''unrecognised selector %x'' [FBytes (slice 0 4 cd)])
     else if length cd < executeDataAt cd + 32
     then Err (ErrText ''callData too short for data length'')
     else if length cd < executeDataAt cd + 32 + nat (uintAt cd (executeDataAt cd))
     then Err (ErrText ''callData too short for data payload'')
     else Ok (BytesToAddress L (slice 16 36 cd), uintAt cd 36, bytesAt cd (executeDataAt cd)))"
proof -
  define off where "off = nat (executeOffset cd)"
  define n where "n = nat (uintAt cd (executeDataAt cd))"
  have off: "SetBytes (slice 68 100 cd) = int off" "int off < 2 ^ 61"
    using assms(2) by (simp_all add: off_def uintAt_def wordAt_def)
  have n: "SetBytes (slice (4 + off) (36 + off) cd) = int n" "int n < 2 ^ 61"
    using assms(3) by (simp_all add: n_def off_def uintAt_def wordAt_def add.commute add.left_commute)
  have n': "nat (uintAt cd (4 + off)) = n" by (simp add: n_def off_def)
  have w: "wrap64 (4 + int off) = 4 + int off" "wrap64 (36 + int off) = 36 + int off"
    "wrap64 (36 + int off + int n) = 36 + int off + int n"
    using off(2) n(2) by simp_all
  have val: "SetBytes (slice 36 68 cd) = uintAt cd 36" by (simp add: uintAt_def wordAt_def)
  have sl: "goSlice (4 + int off) (36 + int off) cd = Ok (slice (4 + off) (36 + off) cd)"
    if "36 + off \<le> length cd" using that goSlice_nat [of "4 + off" "36 + off" cd] by simp
  have sl2: "goSlice (36 + int off) (36 + int off + int n) cd = Ok (slice (36 + off) (36 + off + n) cd)"
    if "36 + off + n \<le> length cd" using that goSlice_nat [of "36 + off" "36 + off + n" cd] by simp
  have mk: "goMake (int n) = Ok (replicate n 0)" if "36 + off + n \<le> length cd"
    using that assms(1) by (simp add: goMake_def)
  have cp: "copy_into 0 n (slice (36 + off) (36 + off + n) cd) (replicate n 0) = bytesAt cd (4 + off)"
    if "36 + off + n \<le> length cd"
    using that n(1) by (simp add: copy_into_def bytesAt_def uintAt_def wordAt_def add.commute add.left_commute)
  show ?thesis
    unfolding DecodeSignetExecute_def Let_def
    using off n by (simp add: off_def [symmetric] n' w val sl sl2 mk cp)
qed

lemma executeWords:
  assumes "ethlib_ok L" "length to = 20" "uint256 val" "int (length data) < 2 ^ 47"
  defines "cd \<equiv> executeSelector L @ abiAddress to @ abiUint val @ abiUint 96 @ abiBytes data"
  shows "slice 0 4 cd = executeSelector L" "slice 16 36 cd = to" "uintAt cd 36 = val" "uintAt cd 68 = 96"
    "uintAt cd 100 = int (length data)" "bytesAt cd 100 = data"
    "length cd = 132 + paddedLen (length data)"
proof -
  note len = length_abiUint [OF assms(3)] length_abiAddress [OF assms(2)] length_executeSelector [OF assms(1)]
  have u: "uint256 (int (length data))" using assms(4) by (intro uint256_of_nat) simp
  have [simp]: "0 \<le> val" using assms(3) by (simp add: uint256_def)
  show "slice 0 4 cd = executeSelector L" using len by (simp add: cd_def layout)
  show "slice 16 36 cd = to" using len assms(2) by (simp add: cd_def abiAddress_def layout)
  show "uintAt cd 36 = val"
    using len wordAt_append [of "executeSelector L @ abiAddress to" 36] by (simp add: cd_def uintAt_def)
  show "uintAt cd 68 = 96"
    using len wordAt_append [of "executeSelector L @ abiAddress to @ abiUint val" 68] by (simp add: cd_def uintAt_def)
  show "uintAt cd 100 = int (length data)"
    using len u wordAt_append [of "executeSelector L @ abiAddress to @ abiUint val @ abiUint 96" 100]
    by (simp add: cd_def uintAt_def abiBytes_def)
  show "bytesAt cd 100 = data"
    using len u bytesAt_append [of "executeSelector L @ abiAddress to @ abiUint val @ abiUint 96" 100 data "[]"]
    by (simp add: cd_def)
  show "length cd = 132 + paddedLen (length data)"
    using len u by (simp add: cd_def length_abiBytes)
qed

lemma execute_calldata_decodes:
  assumes "ethlib_ok L" "length to = 20" "uint256 val" "length data < 2 ^ 46"
  shows "DecodeSignetExecute L (BuildExecuteCalldata L to val data) = Ok (to, val, data)"
    and "DecodeSignetExecuteTarget L (BuildExecuteCalldata L to val data) = Ok to"
proof -
  have d: "int (length data) < 2 ^ 47" "int (length data) < 2 ^ 63" using assms(4) by simp_all
  note b = BuildExecuteCalldata_abi [OF assms(1-3) d(2)]
  note w = executeWords [OF assms(1-3) d(1)]
  have "paddedLen (length data) < 2 ^ 46 + 32" using paddedLen_less [of "length data"] assms(4) by simp
  then show "DecodeSignetExecute L (BuildExecuteCalldata L to val data) = Ok (to, val, data)"
    and "DecodeSignetExecuteTarget L (BuildExecuteCalldata L to val data) = Ok to"
    using DecodeSignetExecute_in_range [of "BuildExecuteCalldata L to val data" L] w d(1)
      paddedLen_ge [of "length data"] BytesToAddress_id [OF assms(1,2)]
    by (simp_all add: b DecodeSignetExecuteTarget_def)
qed

section \<open>Properties\<close>

text \<open>
  What \<open>BuildExecuteCalldata\<close> builds for a target, a \<open>uint256\<close> value and a payload,
  \<open>DecodeSignetExecute\<close> and \<open>DecodeSignetExecuteTarget\<close> read back unchanged.
\<close>

theorem execute_calldata_roundtrip:
  assumes "ethlib_ok L" "length to = 20" "uint256 val" "length data < 2 ^ 46"
  shows "DecodeSignetExecute L (BuildExecuteCalldata L to val data) = Ok (to, val, data) \<and>
    DecodeSignetExecuteTarget L (BuildExecuteCalldata L to val data) = Ok to"
  using execute_calldata_decodes [OF assms] by blast

theorem execute_calldata_roundtrip_witness:
  "DecodeSignetExecute hexLib (BuildExecuteCalldata hexLib (replicate 20 5) 1000 [1, 2, 3]) =
     Ok (replicate 20 5, 1000, [1, 2, 3])"
  using execute_calldata_roundtrip [of hexLib "replicate 20 5" 1000 "[1, 2, 3]"] by simp

text \<open>
  C33: on calldata whose offset and length words are below \<open>2 ^ 61\<close>, \<open>DecodeSignetExecute\<close>
  never panics and decides exactly: calldata with the selector, the three words of the head and a payload
  that ends within it gives the target, the value and the payload that the ABI assigns to these bytes; all
  other calldata gives an error.
\<close>

theorem DecodeSignetExecute_reads_abi:
  assumes "length cd < 2 ^ 47" "executeOffset cd < 2 ^ 61" "uintAt cd (executeDataAt cd) < 2 ^ 61"
  shows "if 100 \<le> length cd \<and> slice 0 4 cd = executeSelector L \<and>
         executeDataAt cd + 32 + nat (uintAt cd (executeDataAt cd)) \<le> length cd
       then DecodeSignetExecute L cd =
              Ok (BytesToAddress L (slice 16 36 cd), uintAt cd 36, bytesAt cd (executeDataAt cd)) \<and>
            int (length (bytesAt cd (executeDataAt cd))) = uintAt cd (executeDataAt cd)
       else \<exists>er. DecodeSignetExecute L cd = Err er"
  using DecodeSignetExecute_in_range [OF assms] by (auto simp: bytesAt_def)

text \<open>
  An offset word whose low 64 bits are a negative \<open>int64\<close> passes both length checks, and the
  slice expression that follows panics: a client can make the decoder panic with 100 bytes of calldata.
\<close>

theorem DecodeSignetExecute_panics:
  assumes "100 \<le> length cd" "slice 0 4 cd = executeSelector L"
    and "2 ^ 63 \<le> executeOffset cd mod 2 ^ 64" "executeOffset cd mod 2 ^ 64 < 2 ^ 64 - 36"
  shows "DecodeSignetExecute L cd = Panic ''runtime error: slice bounds out of range''"
proof -
  define s where "s = executeOffset cd mod 2 ^ 64 - 2 ^ 64"
  have s: "- (2 ^ 63) \<le> s" "s < - 36" using assms(3,4) by (simp_all add: s_def)
  have i: "Int64 (SetBytes (slice (4 + 64) (4 + 96) cd)) = s"
    using Int64_high [of "executeOffset cd"] assms(3) by (simp add: s_def uintAt_def wordAt_def)
  have w: "wrap64 (4 + s) = 4 + s" "wrap64 (4 + s + 32) = 4 + s + 32"
    using s by (intro wrap64_id; simp)+
  have "goSlice (4 + s) (4 + s + 32) cd = Panic ''runtime error: slice bounds out of range''"
    using s(2) by (simp add: goSlice_def)
  moreover have "\<not> int (length cd) < 4 + s + 32" using s(2) by linarith
  ultimately show ?thesis
    using assms(1,2) unfolding DecodeSignetExecute_def Let_def i w by simp
qed

text \<open>A 132-byte call whose offset word is \<open>2 ^ 63\<close>.\<close>

definition negativeOffsetCall :: bytes where
  "negativeOffsetCall = executeSelector hexLib @ abiAddress (replicate 20 5) @ abiUint 0 @ abiUint (2 ^ 63)"

theorem DecodeSignetExecute_panics_witness:
  "DecodeSignetExecute hexLib negativeOffsetCall = Panic ''runtime error: slice bounds out of range''"
proof -
  have u: "uint256 (2 ^ 63)" "uint256 0" by (simp_all add: uint256_def)
  have len: "length (executeSelector hexLib @ abiAddress (replicate 20 5) @ abiUint 0) = 68" using u by simp
  have "executeOffset negativeOffsetCall = 2 ^ 63"
    using wordAt_append [OF len length_abiUint [OF u(1)], of "[]"]
    by (simp add: negativeOffsetCall_def uintAt_def)
  moreover have "length negativeOffsetCall = 100" "slice 0 4 negativeOffsetCall = executeSelector hexLib"
    using u by (simp_all add: negativeOffsetCall_def layout)
  ultimately show ?thesis by (intro DecodeSignetExecute_panics) simp_all
qed

text \<open>A call with a payload of three bytes; the witness decodes it, and refuses it when it is cut within the payload.\<close>

definition sampleCall :: bytes where
  "sampleCall = BuildExecuteCalldata hexLib (replicate 20 5) 1000 [1, 2, 3]"

theorem DecodeSignetExecute_reads_abi_witness:
  "DecodeSignetExecute hexLib sampleCall = Ok (replicate 20 5, 1000, [1, 2, 3]) \<and>
   (\<exists>er. DecodeSignetExecute hexLib (take 134 sampleCall) = Err er)"
proof -
  have b: "sampleCall = executeSelector hexLib @ abiAddress (replicate 20 5) @ abiUint 1000 @ abiUint 96 @ abiBytes [1, 2, 3]"
    unfolding sampleCall_def by (rule BuildExecuteCalldata_abi) simp_all
  have "uint256 1000" "int (length [1::byte, 2, 3]) < 2 ^ 47" by simp_all
  note w = executeWords [OF hexLib_ok length_replicate this, of 5, folded b]
  have p: "length sampleCall = 164" using w(7) by (simp add: paddedLen_def)
  have short: "wordAt (take 134 sampleCall) q = wordAt sampleCall q" if "q + 32 \<le> 134" for q
    using that by (simp add: wordAt_def slice_def drop_take)
  have "uintAt (take 134 sampleCall) 68 = 96" "uintAt (take 134 sampleCall) 100 = 3"
    using w by (simp_all add: uintAt_def short)
  then show ?thesis
    using DecodeSignetExecute_reads_abi [of sampleCall hexLib] DecodeSignetExecute_reads_abi [of "take 134 sampleCall" hexLib]
      w p BytesToAddress_id [OF hexLib_ok, of "replicate 20 5"] by simp
qed

end
