(* ===== verification/Estimator.thy ===== *)
theory Estimator
  imports Calldata
begin

text \<open>
  \<open>internal/estimator/gas.go\<close>: \<open>eth_estimateUserOperationGas\<close> without simulation. The node's
  \<open>EstimateGas\<close> is a parameter, a function of the call message. Arithmetic on gas is on
  \<open>uint64\<close> and wraps.
\<close>

record CallMsg =
  msgFrom :: address
  msgTo :: address
  msgValue :: int
  msgData :: bytes

record GasEstimate =
  estPreVerificationGas :: int
  estVerificationGasLimit :: int
  estCallGasLimit :: int

definition VerificationGasLimit :: int where
  "VerificationGasLimit = 150000"

definition VerificationGasLimitCreate :: int where
  "VerificationGasLimitCreate = 1000000"

definition abiEncodePackedOp :: "'a PackedUserOp_scheme \<Rightarrow> bytes" where
  "abiEncodePackedOp op =
     PadLeft32 (Sender op) @ PadLeft32 (Bytes (Nonce op)) @ InitCode op @ CallData op @
     AccountGasLimits op @ PadLeft32 (Bytes (PreVerificationGas op)) @ GasFees op @
     PaymasterAndData op @ Signature op"

definition calldataCost :: "bytes \<Rightarrow> uint64" where
  "calldataCost packed = foldl (\<lambda>cost b. if b = 0 then cost + 4 else cost + 16) 0 packed"

definition CalcPreVerificationGas :: "'a PackedUserOp_scheme \<Rightarrow> int" where
  "CalcPreVerificationGas op = uint (calldataCost (abiEncodePackedOp op) + 21000 + 11000)"

definition estimateCallGas :: "ethlib \<Rightarrow> (CallMsg \<Rightarrow> uint64 res) \<Rightarrow> 'a PackedUserOp_scheme \<Rightarrow> int res" where
  "estimateCallGas L EstimateGas op =
     bind_res (DecodeSignetExecute L (CallData op)) (\<lambda>(target, val, innerData).
     bind_res (EstimateGas \<lparr>msgFrom = Sender op, msgTo = target, msgValue = val, msgData = innerData\<rparr>)
       (\<lambda>gas. Ok (uint (gas * 130 div 100))))"

definition Estimate :: "ethlib \<Rightarrow> (CallMsg \<Rightarrow> uint64 res) \<Rightarrow> 'a PackedUserOp_scheme \<Rightarrow> GasEstimate res" where
  "Estimate L EstimateGas op =
     (let pvg = CalcPreVerificationGas op in
      bind_res (wrap_err ''estimateCallGas'' (estimateCallGas L EstimateGas op)) (\<lambda>callGas.
      let verifGas = (if length (InitCode op) > 0 then VerificationGasLimitCreate else VerificationGasLimit)
      in Ok \<lparr>estPreVerificationGas = pvg, estVerificationGasLimit = verifGas, estCallGasLimit = callGas\<rparr>))"

section \<open>Calldata cost\<close>

text \<open>EIP-2028: 4 gas for a zero byte and 16 for any other.\<close>

definition zeroBytes :: "bytes \<Rightarrow> nat" where
  "zeroBytes bs = length (filter (\<lambda>b. b = 0) bs)"

definition nonzeroBytes :: "bytes \<Rightarrow> nat" where
  "nonzeroBytes bs = length (filter (\<lambda>b. b \<noteq> 0) bs)"

lemma zero_nonzero: "zeroBytes bs + nonzeroBytes bs = length bs"
  unfolding zeroBytes_def nonzeroBytes_def by (rule sum_length_filter_compl)

lemma calldataCost_word:
  "calldataCost bs = word_of_int (4 * int (zeroBytes bs) + 16 * int (nonzeroBytes bs))"
proof (induction bs rule: rev_induct)
  case Nil
  then show ?case by (simp add: calldataCost_def zeroBytes_def nonzeroBytes_def)
next
  case (snoc b bs)
  then show ?case
    by (auto simp: calldataCost_def zeroBytes_def nonzeroBytes_def algebra_simps wi_hom_add [symmetric])
qed

lemma CalcPreVerificationGas_exact:
  assumes "length (abiEncodePackedOp op) < 2 ^ 58"
  shows "CalcPreVerificationGas op =
    32000 + 4 * int (zeroBytes (abiEncodePackedOp op)) + 16 * int (nonzeroBytes (abiEncodePackedOp op))"
proof -
  let ?z = "int (zeroBytes (abiEncodePackedOp op))" and ?n = "int (nonzeroBytes (abiEncodePackedOp op))"
  have "?z + ?n < 2 ^ 58" "0 \<le> ?z" "0 \<le> ?n" using assms zero_nonzero [of "abiEncodePackedOp op"] by simp_all
  then have b: "0 \<le> 4 * ?z + 16 * ?n + 32000" "4 * ?z + 16 * ?n + 32000 < 2 ^ 64" by simp_all
  have "CalcPreVerificationGas op = uint (word_of_int (4 * ?z + 16 * ?n + 32000) :: uint64)"
    by (simp add: CalcPreVerificationGas_def calldataCost_word wi_hom_add [symmetric] add.assoc)
  also have "\<dots> = 4 * ?z + 16 * ?n + 32000"
    using b by (rule uint64_of_int)
  finally show ?thesis by simp
qed

section \<open>Properties\<close>

text \<open>
  C34: \<open>CalcPreVerificationGas\<close> is the EIP-2028 cost of the packed operation (4 gas per zero
  byte, 16 per other byte) plus the fixed 32000, with no wrap-around for an operation of fewer than
  \<open>2 ^ 58\<close> bytes.
\<close>

theorem preVerificationGas_eip2028:
  assumes "length (abiEncodePackedOp op) < 2 ^ 58"
  shows "CalcPreVerificationGas op = 32000 +
    4 * int (zeroBytes (abiEncodePackedOp op)) + 16 * int (nonzeroBytes (abiEncodePackedOp op))"
  using assms by (rule CalcPreVerificationGas_exact)

lemma sampleOp_length: "length (abiEncodePackedOp sampleOp) = 249"
  using length_Bytes_le_iff [of 5 32] length_Bytes_le_iff [of 48000 32]
  by (simp add: abiEncodePackedOp_def sampleOp_def)

theorem preVerificationGas_eip2028_witness:
  "CalcPreVerificationGas sampleOp = 32000 +
    4 * int (zeroBytes (abiEncodePackedOp sampleOp)) + 16 * int (nonzeroBytes (abiEncodePackedOp sampleOp))"
  by (rule preVerificationGas_eip2028) (simp add: sampleOp_length)

text \<open>
  For an operation whose calldata is an \<open>execute\<close> call, the node is asked about exactly that
  inner call, sent by the account; the estimate is its answer with a 30 percent buffer (when the
  product fits in 64 bits), the deployment limit if there is \<open>initCode\<close> and the plain one if not,
  and an error of the node is returned wrapped.
\<close>

theorem Estimate_execute_call:
  assumes "ethlib_ok L" "length to = 20" "uint256 val" "length data < 2 ^ 46"
    and "CallData op = BuildExecuteCalldata L to val data"
  shows "Estimate L EstimateGas op =
    (case EstimateGas \<lparr>msgFrom = Sender op, msgTo = to, msgValue = val, msgData = data\<rparr> of
       Ok gas \<Rightarrow> Ok \<lparr>estPreVerificationGas = CalcPreVerificationGas op,
          estVerificationGasLimit = (if InitCode op = [] then 150000 else 1000000),
          estCallGasLimit = (if uint gas * 130 < 2 ^ 64 then uint gas * 130 div 100
                             else (uint gas * 130 mod 2 ^ 64) div 100)\<rparr>
     | Err e \<Rightarrow> Err (ErrWrap ''estimateCallGas'' e)
     | Panic m \<Rightarrow> Panic m)"
proof -
  have g: "uint (gas * 130 div 100) = (uint gas * 130 mod 2 ^ 64) div 100" for gas :: uint64
    by (simp add: uint_div uint_word_ariths)
  have "DecodeSignetExecute L (CallData op) = Ok (to, val, data)"
    using execute_calldata_decodes [OF assms(1-4)] assms(5) by simp
  then show ?thesis
    by (auto simp: Estimate_def estimateCallGas_def g Let_def VerificationGasLimit_def
        VerificationGasLimitCreate_def split: res.splits)
qed

theorem Estimate_execute_call_witness:
  "Estimate hexLib (\<lambda>m. if msgValue m = 7 \<and> msgData m = [1] then Ok 21000 else Err (ErrExt ''reverted''))
     (sampleOp\<lparr>CallData := BuildExecuteCalldata hexLib (replicate 20 5) 7 [1]\<rparr>) =
   Ok \<lparr>estPreVerificationGas =
         CalcPreVerificationGas (sampleOp\<lparr>CallData := BuildExecuteCalldata hexLib (replicate 20 5) 7 [1]\<rparr>),
       estVerificationGasLimit = 150000, estCallGasLimit = 27300\<rparr>"
  by (subst Estimate_execute_call [of hexLib "replicate 20 5" 7 "[1]"]) (simp_all add: sampleOp_def)

end
