(* ===== verification/Validator.thy ===== *)
theory Validator
  imports UserOp
begin

text \<open>
  \<open>internal/validator/allowlist.go\<close>: the stateless policy gate. Gas limits are compared after
  \<open>Uint64()\<close>, which keeps the low 64 bits of the 128-bit field.
\<close>

record Validator =
  allowedPaymasters :: "address set"
  maxVerificationGas :: uint64
  maxCallGas :: uint64

definition newValidator :: "address list \<Rightarrow> uint64 \<Rightarrow> uint64 \<Rightarrow> Validator" where
  "newValidator allowed maxVerif maxCall =
     \<lparr>allowedPaymasters = foldl (\<lambda>m p. insert p m) {} allowed,
      maxVerificationGas = maxVerif, maxCallGas = maxCall\<rparr>"

definition checkGasLimits :: "Validator \<Rightarrow> 'a PackedUserOp_scheme \<Rightarrow> unit res" where
  "checkGasLimits v op =
     (let verifGas = SetBytes (slice 0 16 (AccountGasLimits op));
          callGas = SetBytes (slice 16 32 (AccountGasLimits op))
      in
      if Uint64 verifGas > maxVerificationGas v
      then Err (ErrFmt ''verificationGasLimit %d exceeds max %d''
                 [FInt (uint (Uint64 verifGas)), FInt (uint (maxVerificationGas v))])
      else if Uint64 callGas > maxCallGas v
      then Err (ErrFmt ''callGasLimit %d exceeds max %d''
                 [FInt (uint (Uint64 callGas)), FInt (uint (maxCallGas v))])
      else Ok ())"

definition checkPaymaster :: "ethlib \<Rightarrow> Validator \<Rightarrow> 'a PackedUserOp_scheme \<Rightarrow> unit res" where
  "checkPaymaster L v op =
     (if length (PaymasterAndData op) < 20 then Err (ErrText ''paymaster required'')
      else
        let pm = BytesToAddress L (slice 0 20 (PaymasterAndData op))
        in if pm \<in> allowedPaymasters v then Ok ()
           else Err (ErrFmt ''paymaster %s not in allowed list'' [FStr (AddressHex L pm)]))"

definition Validate :: "ethlib \<Rightarrow> Validator \<Rightarrow> 'a PackedUserOp_scheme \<Rightarrow> unit res" where
  "Validate L v op = bind_res (checkGasLimits v op) (\<lambda>_. bind_res (checkPaymaster L v op) (\<lambda>_. Ok ()))"

text \<open>The gas limits an operation carries, as the 128-bit values the EntryPoint will read.\<close>

definition verificationGasOf :: "'a PackedUserOp_scheme \<Rightarrow> int" where
  "verificationGasOf op = SetBytes (slice 0 16 (AccountGasLimits op))"

definition callGasOf :: "'a PackedUserOp_scheme \<Rightarrow> int" where
  "callGasOf op = SetBytes (slice 16 32 (AccountGasLimits op))"

lemma newValidator_set [simp]: "allowedPaymasters (newValidator ps a b) = set ps"
proof -
  have "foldl (\<lambda>m p. insert p m) s ps = set ps \<union> s" for s
    by (induction ps arbitrary: s) auto
  then show ?thesis by (simp add: newValidator_def)
qed

lemma newValidator_caps [simp]:
  "maxVerificationGas (newValidator ps a b) = a" "maxCallGas (newValidator ps a b) = b"
  by (simp_all add: newValidator_def)

lemma Uint64_le_iff: "0 \<le> n \<Longrightarrow> \<not> m < Uint64 n \<longleftrightarrow> n mod 2 ^ 64 \<le> uint m"
  by (simp add: not_less word_le_def uint_Uint64)

lemma checkGasLimits_Ok_iff:
  "checkGasLimits v op = Ok () \<longleftrightarrow>
     verificationGasOf op mod 2 ^ 64 \<le> uint (maxVerificationGas v) \<and>
     callGasOf op mod 2 ^ 64 \<le> uint (maxCallGas v)"
proof -
  have "\<not> maxVerificationGas v < Uint64 (verificationGasOf op) \<longleftrightarrow>
      verificationGasOf op mod 2 ^ 64 \<le> uint (maxVerificationGas v)"
    and "\<not> maxCallGas v < Uint64 (callGasOf op) \<longleftrightarrow> callGasOf op mod 2 ^ 64 \<le> uint (maxCallGas v)"
    by (rule Uint64_le_iff, simp add: verificationGasOf_def callGasOf_def)+
  then show ?thesis
    by (auto simp: checkGasLimits_def Let_def verificationGasOf_def callGasOf_def)
qed

lemma checkPaymaster_Ok_iff:
  "checkPaymaster L v op = Ok () \<longleftrightarrow>
     20 \<le> length (PaymasterAndData op) \<and>
     BytesToAddress L (slice 0 20 (PaymasterAndData op)) \<in> allowedPaymasters v"
  by (auto simp: checkPaymaster_def Let_def)

lemma Validate_no_Panic [simp]: "Validate L v op \<noteq> Panic m"
  by (auto simp: Validate_def checkGasLimits_def checkPaymaster_def Let_def)

section \<open>Properties\<close>

text \<open>
  C22: \<open>Validate\<close> accepts an operation exactly when it names a paymaster of the allowlist in its
  first 20 bytes of \<open>paymasterAndData\<close> and both gas limits, taken modulo \<open>2 ^ 64\<close>, are within
  the caps; in particular an accepted operation whose limits fit in 64 bits respects the caps.
\<close>

theorem Validate_policy:
  assumes "ethlib_ok L"
  shows "Validate L (newValidator ps mv mc) op = Ok () \<longleftrightarrow>
    verificationGasOf op mod 2 ^ 64 \<le> uint mv \<and> callGasOf op mod 2 ^ 64 \<le> uint mc \<and>
    20 \<le> length (PaymasterAndData op) \<and> slice 0 20 (PaymasterAndData op) \<in> set ps"
proof -
  have "length (slice 0 20 (PaymasterAndData op)) = 20" if "20 \<le> length (PaymasterAndData op)"
    using that by simp
  then show ?thesis
    using BytesToAddress_id [OF assms]
    by (auto simp: Validate_def checkGasLimits_Ok_iff checkPaymaster_Ok_iff)
qed

theorem Validate_policy_witness:
  "Validate hexLib (newValidator [replicate 20 34] 200000 60000)
     \<lparr>Sender = replicate 20 17, Nonce = 5, InitCode = [], CallData = [],
      AccountGasLimits = PackBigInts (Some 150000) (Some 50000), PreVerificationGas = 48000,
      GasFees = PackBigInts (Some 1) (Some 2), PaymasterAndData = replicate 20 34 @ [9],
      Signature = []\<rparr> = Ok ()"
  by (subst Validate_policy)
    (simp_all add: verificationGasOf_def callGasOf_def SetBytes_into128 slice_append_left)

text \<open>
  The caps do not bound the 128-bit limits: for every validator there is an operation whose
  \<open>verificationGasLimit\<close> is above the configured maximum and whose gas check succeeds, because
  only the low 64 bits are compared.
\<close>

theorem gas_cap_can_be_exceeded:
  "\<exists>op :: PackedUserOp. uint (maxVerificationGas v) < verificationGasOf op \<and> checkGasLimits v op = Ok ()"
proof -
  let ?op = "\<lparr>Sender = replicate 20 0, Nonce = 0, InitCode = [], CallData = [],
      AccountGasLimits = PackBigInts (Some (2 ^ 64)) (Some 0), PreVerificationGas = 0,
      GasFees = PackBigInts None None, PaymasterAndData = [], Signature = []\<rparr> :: PackedUserOp"
  have "verificationGasOf ?op = 2 ^ 64" "callGasOf ?op = 0"
    by (simp_all add: verificationGasOf_def callGasOf_def SetBytes_into128)
  moreover have "uint (maxVerificationGas v) < 2 ^ 64" using uint_lt2p [of "maxVerificationGas v"] by simp
  ultimately show ?thesis by (intro exI [of _ ?op]) (simp add: checkGasLimits_Ok_iff)
qed

end
