(* ===== verification/Repository.thy ===== *)
theory Repository
  imports UserOp
begin

text \<open>
  \<open>internal/mempool/types.go\<close>: the status of an operation, stored operations, the optional fields
  of a status update, and the \<open>Repository\<close> interface. A Go interface value is a record of
  functions over an abstract database \<open>'db\<close>; \<open>'e\<close> is what the environment contributes to one
  call (the clock and the failures of the database). The locale \<open>repository\<close> is the contract the
  clients rely on, stated over the view of the database as a map from hashes to stored operations.
\<close>

datatype Status =
    StatusPending | StatusBundling | StatusSubmitted | StatusConfirmed | StatusFailed | StatusReplaced

fun statusText :: "Status \<Rightarrow> string" where
  "statusText StatusPending = ''pending''"
| "statusText StatusBundling = ''bundling''"
| "statusText StatusSubmitted = ''submitted''"
| "statusText StatusConfirmed = ''confirmed''"
| "statusText StatusFailed = ''failed''"
| "statusText StatusReplaced = ''replaced''"

definition IsTerminal :: "Status \<Rightarrow> bool" where
  "IsTerminal s \<longleftrightarrow> s = StatusConfirmed \<or> s = StatusFailed \<or> s = StatusReplaced"

record StoredOp = PackedUserOp +
  Hash :: hash
  OpStatus :: Status
  BundleTxHash :: "hash option"
  BundleIndex :: "int option"
  SubmittedAt :: "int option"
  BlockNumber :: "uint64 option"
  RevertReason :: "string option"
  ActualGasCost :: "int option"
  ReceivedAt :: int
  UpdatedAt :: int

record StatusExtra =
  x_BundleTxHash :: "hash option"
  x_BundleIndex :: "int option"
  x_SubmittedAt :: "int option"
  x_BlockNumber :: "uint64 option"
  x_RevertReason :: "string option"
  x_ActualGasCost :: "int option"

definition noExtra :: StatusExtra where
  "noExtra = \<lparr>x_BundleTxHash = None, x_BundleIndex = None, x_SubmittedAt = None,
     x_BlockNumber = None, x_RevertReason = None, x_ActualGasCost = None\<rparr>"

record ('e, 'db) Repository =
  rInsert :: "'e \<Rightarrow> PackedUserOp \<Rightarrow> hash \<Rightarrow> 'db \<Rightarrow> unit res \<times> 'db"
  rReplace :: "'e \<Rightarrow> hash \<Rightarrow> PackedUserOp \<Rightarrow> hash \<Rightarrow> 'db \<Rightarrow> unit res \<times> 'db"
  rGetPending :: "'e \<Rightarrow> int \<Rightarrow> 'db \<Rightarrow> StoredOp list res"
  rClaimForBundling :: "'e \<Rightarrow> hash list \<Rightarrow> 'db \<Rightarrow> unit res \<times> 'db"
  rUpdateStatus :: "'e \<Rightarrow> hash \<Rightarrow> Status \<Rightarrow> StatusExtra option \<Rightarrow> 'db \<Rightarrow> unit res \<times> 'db"
  rGetByHash :: "'e \<Rightarrow> hash \<Rightarrow> 'db \<Rightarrow> StoredOp res"
  rGetConfirmedByHash :: "'e \<Rightarrow> hash \<Rightarrow> 'db \<Rightarrow> StoredOp res"
  rGetByBundleTx :: "'e \<Rightarrow> hash \<Rightarrow> 'db \<Rightarrow> StoredOp list res"
  rGetByStatus :: "'e \<Rightarrow> Status \<Rightarrow> 'db \<Rightarrow> StoredOp list res"
  rResetBundlingToPending :: "'e \<Rightarrow> 'db \<Rightarrow> int res \<times> 'db"
  rMarkTtlExpired :: "'e \<Rightarrow> int \<Rightarrow> 'db \<Rightarrow> int res \<times> 'db"
  rPruneHistory :: "'e \<Rightarrow> int \<Rightarrow> 'db \<Rightarrow> int res \<times> 'db"

section \<open>The abstract store\<close>

text \<open>
  What each call means on the view. A later \<open>Some\<close> field of the update replaces the stored one; a
  missing field keeps it.
\<close>

type_synonym view = "hash \<Rightarrow> StoredOp option"

definition orElse :: "'a option \<Rightarrow> 'a option \<Rightarrow> 'a option" where
  "orElse x y = (case x of None \<Rightarrow> y | Some v \<Rightarrow> Some v)"

definition applyUpdate :: "int \<Rightarrow> Status \<Rightarrow> StatusExtra option \<Rightarrow> StoredOp \<Rightarrow> StoredOp" where
  "applyUpdate now s extra op =
     (let x = (case extra of None \<Rightarrow> noExtra | Some e \<Rightarrow> e) in
      op\<lparr>OpStatus := s, UpdatedAt := now,
         BundleTxHash := orElse (x_BundleTxHash x) (BundleTxHash op),
         BundleIndex := orElse (x_BundleIndex x) (BundleIndex op),
         SubmittedAt := orElse (x_SubmittedAt x) (SubmittedAt op),
         BlockNumber := orElse (x_BlockNumber x) (BlockNumber op),
         RevertReason := orElse (x_RevertReason x) (RevertReason op),
         ActualGasCost := orElse (x_ActualGasCost x) (ActualGasCost op)\<rparr>)"

definition freshOp :: "int \<Rightarrow> PackedUserOp \<Rightarrow> hash \<Rightarrow> StoredOp" where
  "freshOp now op h = PackedUserOp.extend op
     \<lparr>Hash = h, OpStatus = StatusPending, BundleTxHash = None, BundleIndex = None,
      SubmittedAt = None, BlockNumber = None, RevertReason = None, ActualGasCost = None,
      ReceivedAt = now, UpdatedAt = now\<rparr>"

lemma applyUpdate_simps [simp]:
  "OpStatus (applyUpdate now s x op) = s" "Hash (applyUpdate now s x op) = Hash op"
  "ReceivedAt (applyUpdate now s x op) = ReceivedAt op" "UpdatedAt (applyUpdate now s x op) = now"
  "Sender (applyUpdate now s x op) = Sender op" "Nonce (applyUpdate now s x op) = Nonce op"
  "PackedUserOp.truncate (applyUpdate now s x op) = PackedUserOp.truncate op"
  by (simp_all add: applyUpdate_def Let_def PackedUserOp.truncate_def)

lemma freshOp_simps [simp]:
  "OpStatus (freshOp now op h) = StatusPending" "Hash (freshOp now op h) = h"
  "ReceivedAt (freshOp now op h) = now" "UpdatedAt (freshOp now op h) = now"
  "Sender (freshOp now op h) = Sender op" "Nonce (freshOp now op h) = Nonce op"
  "PackedUserOp.truncate (freshOp now op h) = op"
  by (simp_all add: freshOp_def PackedUserOp.defs)

lemma orElse_None [simp]: "orElse None y = y" and orElse_Some [simp]: "orElse (Some v) y = Some v"
  by (simp_all add: orElse_def)

lemma IsTerminal_simps [simp]:
  "\<not> IsTerminal StatusPending" "\<not> IsTerminal StatusBundling" "\<not> IsTerminal StatusSubmitted"
  "IsTerminal StatusConfirmed" "IsTerminal StatusFailed" "IsTerminal StatusReplaced"
  by (simp_all add: IsTerminal_def)

text \<open>
  The types of an update: the hash has 32 bytes. A block number must fit a signed 64-bit column.
\<close>

definition extra_ok :: "StatusExtra option \<Rightarrow> bool" where
  "extra_ok extra =
     (case extra of None \<Rightarrow> True
      | Some x \<Rightarrow> (case x_BundleTxHash x of None \<Rightarrow> True | Some t \<Rightarrow> length t = 32))"

definition argsOk :: "StatusExtra option \<Rightarrow> bool" where
  "argsOk extra =
     (case extra of None \<Rightarrow> True
      | Some x \<Rightarrow> (case x_BlockNumber x of None \<Rightarrow> True | Some n \<Rightarrow> uint n < 2 ^ 63))"

lemma extra_ok_None [simp]: "extra_ok None" and argsOk_None [simp]: "argsOk None"
  by (simp_all add: extra_ok_def argsOk_def)

section \<open>The contract\<close>

text \<open>
  \<open>view\<close> abstracts the database, \<open>inv\<close> is its invariant, \<open>now\<close> the clock of a call and
  \<open>quiet\<close> says that the database does not fail during the call. Every call keeps the invariant,
  an error leaves the database as it was, and a success has the effect stated on the view.
\<close>

locale repository =
  fixes R :: "('e, 'db) Repository"
    and view :: "'db \<Rightarrow> view"
    and inv :: "'db \<Rightarrow> bool"
    and now :: "'e \<Rightarrow> int"
    and quiet :: "'e \<Rightarrow> bool"
  assumes view_Hash: "inv db \<Longrightarrow> view db h = Some op \<Longrightarrow> Hash op = h \<and> length h = 32 \<and> wf_op op"
    and unique_active: "inv db \<Longrightarrow> view db h = Some op \<Longrightarrow> view db h' = Some op' \<Longrightarrow>
          \<not> IsTerminal (OpStatus op) \<Longrightarrow> \<not> IsTerminal (OpStatus op') \<Longrightarrow>
          Sender op = Sender op' \<Longrightarrow> Nonce op = Nonce op' \<Longrightarrow> h = h'"
    and insert_ok: "inv db \<Longrightarrow> wf_op p \<Longrightarrow> length h = 32 \<Longrightarrow> rInsert R e p h db = (Ok (), db') \<Longrightarrow>
          inv db' \<and> view db h = None \<and> view db' = (view db)(h \<mapsto> freshOp (now e) p h)"
    and insert_progress: "inv db \<Longrightarrow> quiet e \<Longrightarrow> wf_op p \<Longrightarrow> length h = 32 \<Longrightarrow> view db h = None \<Longrightarrow>
          (\<forall>h' op. view db h' = Some op \<longrightarrow> Sender op = Sender p \<longrightarrow> Nonce op = Nonce p \<longrightarrow> IsTerminal (OpStatus op)) \<Longrightarrow>
          fst (rInsert R e p h db) = Ok ()"
    and insert_err: "rInsert R e p h db = (Err er, db') \<Longrightarrow> db' = db"
    and insert_no_panic: "fst (rInsert R e p h db) \<noteq> Panic m"
    and update_ok: "inv db \<Longrightarrow> length h = 32 \<Longrightarrow> extra_ok extra \<Longrightarrow>
          rUpdateStatus R e h s extra db = (Ok (), db') \<Longrightarrow>
          inv db' \<and> (\<exists>op. view db h = Some op \<and> view db' = (view db)(h \<mapsto> applyUpdate (now e) s extra op))"
    and update_err: "rUpdateStatus R e h s extra db = (Err er, db') \<Longrightarrow> db' = db"
    and update_no_panic: "fst (rUpdateStatus R e h s extra db) \<noteq> Panic m"
    and update_progress: "inv db \<Longrightarrow> quiet e \<Longrightarrow> view db h = Some op \<Longrightarrow>
          \<not> IsTerminal (OpStatus op) \<or> IsTerminal s \<Longrightarrow> argsOk extra \<Longrightarrow> fst (rUpdateStatus R e h s extra db) = Ok ()"
    and claim_ok: "inv db \<Longrightarrow> (\<forall>h \<in> set hs. length h = 32) \<Longrightarrow> rClaimForBundling R e hs db = (Ok (), db') \<Longrightarrow>
          inv db' \<and> distinct hs \<and> (\<forall>h \<in> set hs. \<exists>op. view db h = Some op \<and> OpStatus op = StatusPending) \<and>
          view db' = (\<lambda>h. if h \<in> set hs
            then map_option (applyUpdate (now e) StatusBundling None) (view db h) else view db h)"
    and claim_err: "rClaimForBundling R e hs db = (Err er, db') \<Longrightarrow> db' = db"
    and claim_no_panic: "fst (rClaimForBundling R e hs db) \<noteq> Panic m"
    and claim_progress: "inv db \<Longrightarrow> quiet e \<Longrightarrow> distinct hs \<Longrightarrow>
          (\<forall>h \<in> set hs. \<exists>op. view db h = Some op \<and> OpStatus op = StatusPending) \<Longrightarrow>
          fst (rClaimForBundling R e hs db) = Ok ()"
    and pending_ok: "inv db \<Longrightarrow> rGetPending R e limit db = Ok ops \<Longrightarrow>
          distinct (map Hash ops) \<and> (\<forall>op \<in> set ops. view db (Hash op) = Some op \<and> OpStatus op = StatusPending) \<and>
          sorted (map ReceivedAt ops) \<and> (0 \<le> limit \<longrightarrow> int (length ops) \<le> limit) \<and>
          (\<forall>h op. view db h = Some op \<longrightarrow> OpStatus op = StatusPending \<longrightarrow> op \<notin> set ops \<longrightarrow>
             0 \<le> limit \<and> int (length ops) = limit \<and> (\<forall>q \<in> set ops. ReceivedAt q \<le> ReceivedAt op))"
    and pending_progress: "inv db \<Longrightarrow> quiet e \<Longrightarrow> is_ok (rGetPending R e limit db)"
    and status_ok: "inv db \<Longrightarrow> rGetByStatus R e s db = Ok ops \<Longrightarrow>
          distinct (map Hash ops) \<and> (\<forall>op. op \<in> set ops \<longleftrightarrow> view db (Hash op) = Some op \<and> OpStatus op = s)"
    and status_progress: "inv db \<Longrightarrow> quiet e \<Longrightarrow> is_ok (rGetByStatus R e s db)"
    and status_no_panic: "rGetByStatus R e s db \<noteq> Panic m"
    and pending_no_panic: "rGetPending R e limit db \<noteq> Panic m"
    and reset_ok: "inv db \<Longrightarrow> rResetBundlingToPending R e db = (Ok n, db') \<Longrightarrow>
          inv db' \<and> view db' = (\<lambda>h. map_option (\<lambda>op. if OpStatus op = StatusBundling
            then applyUpdate (now e) StatusPending None op else op) (view db h))"
    and reset_err: "rResetBundlingToPending R e db = (Err er, db') \<Longrightarrow> db' = db"
    and reset_no_panic: "fst (rResetBundlingToPending R e db) \<noteq> Panic m"
    and reset_progress: "inv db \<Longrightarrow> quiet e \<Longrightarrow> is_ok (fst (rResetBundlingToPending R e db))"
    and expire_ok: "inv db \<Longrightarrow> rMarkTtlExpired R e cutoff db = (Ok n, db') \<Longrightarrow>
          inv db' \<and> view db' = (\<lambda>h. map_option (\<lambda>op. if OpStatus op = StatusPending \<and> ReceivedAt op < cutoff
            then applyUpdate (now e) StatusFailed (Some (noExtra\<lparr>x_RevertReason := Some ''ttl_expired''\<rparr>)) op
            else op) (view db h))"
    and expire_err: "rMarkTtlExpired R e cutoff db = (Err er, db') \<Longrightarrow> db' = db"
    and expire_no_panic: "fst (rMarkTtlExpired R e cutoff db) \<noteq> Panic m"
    and prune_no_panic: "fst (rPruneHistory R e cutoff db) \<noteq> Panic m"
    and prune_ok: "inv db \<Longrightarrow> rPruneHistory R e cutoff db = (Ok n, db') \<Longrightarrow>
          inv db' \<and> view db' = (\<lambda>h. case view db h of None \<Rightarrow> None
            | Some op \<Rightarrow> if IsTerminal (OpStatus op) \<and> UpdatedAt op < cutoff then None else Some op)"
    and prune_err: "rPruneHistory R e cutoff db = (Err er, db') \<Longrightarrow> db' = db"
begin

lemma update_cases:
  assumes "inv db" "length h = 32" "extra_ok extra"
  obtains (ok) op where "fst (rUpdateStatus R e h s extra db) = Ok ()" "view db h = Some op"
      "view (snd (rUpdateStatus R e h s extra db)) = (view db)(h \<mapsto> applyUpdate (now e) s extra op)"
      "inv (snd (rUpdateStatus R e h s extra db))"
    | (err) er where "fst (rUpdateStatus R e h s extra db) = Err er"
      "snd (rUpdateStatus R e h s extra db) = db"
proof (cases "fst (rUpdateStatus R e h s extra db)")
  case (Ok u)
  then have "rUpdateStatus R e h s extra db = (Ok (), snd (rUpdateStatus R e h s extra db))"
    by (simp add: prod_eq_iff)
  with update_ok [OF assms this] Ok show ?thesis by (auto intro: ok)
next
  case (Err er)
  then show ?thesis using update_err [of e h s extra db er] by (auto simp: prod_eq_iff intro: err)
next
  case (Panic m)
  then show ?thesis using update_no_panic by blast
qed

end

end
