(* ===== verification/Mempool.thy ===== *)
theory Mempool
  imports Repository
begin

text \<open>
  \<open>internal/mempool/db.go\<close> and \<open>prune.go\<close>: the SQLite repository. The database is the table
  \<open>user_operations\<close>, a list of rows in the order of insertion; every column has the text or
  integer form the code writes. The environment of a call is the clock (\<open>time.Now().UnixMilli()\<close>)
  and, for the n-th statement of the call, the error text with which the driver fails it, if it does.
  A statement that fails changes nothing, and a transaction that is not committed is rolled back.
  The primary key and the partial unique index of the schema are checked by every statement that
  writes. \<open>ORDER BY received_at\<close> is a stable sort of the rows.
\<close>

section \<open>The table\<close>

record row =
  c_hash :: string
  c_sender :: string
  c_nonce :: string
  c_init_code :: string
  c_call_data :: string
  c_account_gas_limits :: string
  c_pre_verification_gas :: string
  c_gas_fees :: string
  c_paymaster_and_data :: string
  c_signature :: string
  c_status :: Status
  c_bundle_tx_hash :: "string option"
  c_bundle_index :: "int option"
  c_submitted_at :: "int option"
  c_block_number :: "int option"
  c_revert_reason :: "string option"
  c_actual_gas_cost :: "string option"
  c_received_at :: int
  c_updated_at :: int

type_synonym table = "row list"

record dbenv =
  clock :: int
  fault :: "nat \<Rightarrow> string option"

definition inIndex :: "row \<Rightarrow> bool" where
  "inIndex r \<longleftrightarrow> c_status r \<notin> {StatusConfirmed, StatusFailed, StatusReplaced}"

definition indexKey :: "row \<Rightarrow> string \<times> string" where
  "indexKey r = (c_sender r, c_nonce r)"

definition constraintsOk :: "table \<Rightarrow> bool" where
  "constraintsOk t \<longleftrightarrow> distinct (map c_hash t) \<and> distinct (map indexKey (filter inIndex t))"

definition uniqueError :: string where
  "uniqueError = ''constraint failed: UNIQUE constraint failed''"

definition errNoRows :: error where
  "errNoRows = ErrText ''sql: no rows in result set''"

text \<open>The statements: an error text, or the result.\<close>

definition execInsert :: "dbenv \<Rightarrow> nat \<Rightarrow> row \<Rightarrow> table \<Rightarrow> string + table" where
  "execInsert e k r t =
     (case fault e k of
        Some m \<Rightarrow> Inl m
      | None \<Rightarrow> if constraintsOk (t @ [r]) then Inr (t @ [r]) else Inl uniqueError)"

definition execUpdate :: "dbenv \<Rightarrow> nat \<Rightarrow> (row \<Rightarrow> bool) \<Rightarrow> (row \<Rightarrow> row) \<Rightarrow> table \<Rightarrow> string + (nat \<times> table)" where
  "execUpdate e k p f t =
     (case fault e k of
        Some m \<Rightarrow> Inl m
      | None \<Rightarrow>
         let t' = map (\<lambda>r. if p r then f r else r) t
         in if constraintsOk t' then Inr (length (filter p t), t') else Inl uniqueError)"

definition execDelete :: "dbenv \<Rightarrow> nat \<Rightarrow> (row \<Rightarrow> bool) \<Rightarrow> table \<Rightarrow> string + (nat \<times> table)" where
  "execDelete e k p t =
     (case fault e k of
        Some m \<Rightarrow> Inl m
      | None \<Rightarrow> Inr (length (filter p t), filter (\<lambda>r. \<not> p r) t))"

definition execSelect :: "dbenv \<Rightarrow> nat \<Rightarrow> (row \<Rightarrow> bool) \<Rightarrow> table \<Rightarrow> string + row list" where
  "execSelect e k p t = (case fault e k of Some m \<Rightarrow> Inl m | None \<Rightarrow> Inr (filter p t))"

section \<open>Hydrating rows\<close>

definition array32 :: "bytes \<Rightarrow> bytes" where
  "array32 b = (if length b = 32 then b else replicate 32 0)"

definition hydrateOp :: "ethlib \<Rightarrow> row \<Rightarrow> StoredOp res" where
  "hydrateOp L r =
     bind_res (wrap_err ''parse nonce'' (HexToBigInt (c_nonce r))) (\<lambda>nonce.
     bind_res (wrap_err ''parse preVerificationGas'' (HexToBigInt (c_pre_verification_gas r))) (\<lambda>pvg.
     Ok \<lparr>Sender = HexToAddress L (c_sender r),
         Nonce = nonce,
         InitCode = fst (DecodeHex (c_init_code r)),
         CallData = fst (DecodeHex (c_call_data r)),
         AccountGasLimits = array32 (fst (DecodeHex (c_account_gas_limits r))),
         PreVerificationGas = pvg,
         GasFees = array32 (fst (DecodeHex (c_gas_fees r))),
         PaymasterAndData = fst (DecodeHex (c_paymaster_and_data r)),
         Signature = fst (DecodeHex (c_signature r)),
         Hash = HexToHash L (c_hash r),
         OpStatus = c_status r,
         BundleTxHash = map_option (HexToHash L) (c_bundle_tx_hash r),
         BundleIndex = c_bundle_index r,
         SubmittedAt = c_submitted_at r,
         BlockNumber = map_option word_of_int (c_block_number r),
         RevertReason = c_revert_reason r,
         ActualGasCost = Option.bind (c_actual_gas_cost r) (SetString 10),
         ReceivedAt = c_received_at r,
         UpdatedAt = c_updated_at r\<rparr>))"

text \<open>
  \<open>scanOp\<close> takes the first row of a result, \<open>scanOps\<close> all of them, stopping at the first row
  that does not hydrate; the error of the cursor is reported last.
\<close>

definition scanOp :: "ethlib \<Rightarrow> string + row list \<Rightarrow> StoredOp res" where
  "scanOp L rows =
     (case rows of
        Inl m \<Rightarrow> Err (ErrExt m)
      | Inr [] \<Rightarrow> Err errNoRows
      | Inr (r # _) \<Rightarrow> hydrateOp L r)"

fun scanRows :: "ethlib \<Rightarrow> row list \<Rightarrow> StoredOp list res" where
  "scanRows L [] = Ok []"
| "scanRows L (r # rs) = bind_res (hydrateOp L r) (\<lambda>op. bind_res (scanRows L rs) (\<lambda>ops. Ok (op # ops)))"

definition scanOps :: "ethlib \<Rightarrow> dbenv \<Rightarrow> row list \<Rightarrow> StoredOp list res" where
  "scanOps L e rows =
     bind_res (scanRows L rows) (\<lambda>ops.
       case fault e 1 of Some m \<Rightarrow> Err (ErrExt m) | None \<Rightarrow> Ok ops)"

section \<open>The repository's methods\<close>

definition newRow :: "ethlib \<Rightarrow> int \<Rightarrow> PackedUserOp \<Rightarrow> hash \<Rightarrow> row" where
  "newRow L now op h =
     \<lparr>c_hash = HashHex L h, c_sender = ToLower (AddressHex L (Sender op)),
      c_nonce = BigToHex (Some (Nonce op)), c_init_code = BytesToHex (InitCode op),
      c_call_data = BytesToHex (CallData op),
      c_account_gas_limits = BytesToHex (AccountGasLimits op),
      c_pre_verification_gas = BigToHex (Some (PreVerificationGas op)),
      c_gas_fees = BytesToHex (GasFees op),
      c_paymaster_and_data = BytesToHex (PaymasterAndData op),
      c_signature = BytesToHex (Signature op),
      c_status = StatusPending, c_bundle_tx_hash = None, c_bundle_index = None, c_submitted_at = None,
      c_block_number = None, c_revert_reason = None, c_actual_gas_cost = None,
      c_received_at = now, c_updated_at = now\<rparr>"

definition Insert :: "ethlib \<Rightarrow> dbenv \<Rightarrow> PackedUserOp \<Rightarrow> hash \<Rightarrow> table \<Rightarrow> unit res \<times> table" where
  "Insert L e op h t =
     (case execInsert e 0 (newRow L (clock e) op h) t of
        Inl m \<Rightarrow>
          ((if contains m ''UNIQUE constraint failed''
            then Err (ErrText ''duplicate sender+nonce: op already exists in mempool'')
            else Err (ErrWrap ''insert op'' (ErrExt m))), t)
      | Inr t' \<Rightarrow> (Ok (), t'))"

definition Replace :: "ethlib \<Rightarrow> dbenv \<Rightarrow> hash \<Rightarrow> PackedUserOp \<Rightarrow> hash \<Rightarrow> table \<Rightarrow> unit res \<times> table" where
  "Replace L e oldHash newOp newHash t =
     (case fault e 0 of
        Some m \<Rightarrow> (Err (ErrWrap ''begin tx'' (ErrExt m)), t)
      | None \<Rightarrow>
     (case execSelect e 1 (\<lambda>r. c_hash r = HashHex L oldHash) t of
        Inl m \<Rightarrow> (Err (ErrWrap ''old op not found'' (ErrExt m)), t)
      | Inr [] \<Rightarrow> (Err (ErrWrap ''old op not found'' errNoRows), t)
      | Inr (r # _) \<Rightarrow>
      if c_status r \<noteq> StatusPending
      then (Err (ErrFmt ''cannot replace op in %s status'' [FStr (statusText (c_status r))]), t)
      else
     (case execUpdate e 2 (\<lambda>r. c_hash r = HashHex L oldHash)
             (\<lambda>r. r\<lparr>c_status := StatusReplaced, c_updated_at := clock e\<rparr>) t of
        Inl m \<Rightarrow> (Err (ErrWrap ''mark replaced'' (ErrExt m)), t)
      | Inr (_, t1) \<Rightarrow>
     (case execInsert e 3 (newRow L (clock e) newOp newHash) t1 of
        Inl m \<Rightarrow> (Err (ErrWrap ''insert replacement'' (ErrExt m)), t)
      | Inr t2 \<Rightarrow>
     (case fault e 4 of
        Some m \<Rightarrow> (Err (ErrExt m), t)
      | None \<Rightarrow> (Ok (), t2))))))"

text \<open>
  Rows of the same arrival time are answered in the order of insertion; SQLite leaves their order open, and
  the contract \<open>repository\<close>, on which all results rest, does not speak of it.
\<close>

definition limitRows :: "int \<Rightarrow> 'a list \<Rightarrow> 'a list" where
  "limitRows limit rows = (if limit < 0 then rows else take (nat limit) rows)"

definition GetPending :: "ethlib \<Rightarrow> dbenv \<Rightarrow> int \<Rightarrow> table \<Rightarrow> StoredOp list res" where
  "GetPending L e limit t =
     (case execSelect e 0 (\<lambda>r. c_status r = StatusPending) t of
        Inl m \<Rightarrow> Err (ErrExt m)
      | Inr rows \<Rightarrow> scanOps L e (limitRows limit (sort_key c_received_at rows)))"

fun claimEach :: "ethlib \<Rightarrow> dbenv \<Rightarrow> nat \<Rightarrow> hash list \<Rightarrow> table \<Rightarrow> error + table" where
  "claimEach L e k [] t = Inr t"
| "claimEach L e k (h # hs) t =
     (case execUpdate e k (\<lambda>r. c_hash r = HashHex L h \<and> c_status r = StatusPending)
             (\<lambda>r. r\<lparr>c_status := StatusBundling, c_updated_at := clock e\<rparr>) t of
        Inl m \<Rightarrow> Inl (ErrWrap (''claim '' @ HashHex L h) (ErrExt m))
      | Inr (n, t') \<Rightarrow>
          if n = 0 then Inl (ErrFmt ''claim %s: op not pending'' [FStr (HashHex L h)])
          else claimEach L e (Suc k) hs t')"

definition ClaimForBundling :: "ethlib \<Rightarrow> dbenv \<Rightarrow> hash list \<Rightarrow> table \<Rightarrow> unit res \<times> table" where
  "ClaimForBundling L e hashes t =
     (if length hashes = 0 then (Ok (), t)
      else case fault e 0 of
        Some m \<Rightarrow> (Err (ErrExt m), t)
      | None \<Rightarrow>
     (case claimEach L e 1 hashes t of
        Inl er \<Rightarrow> (Err er, t)
      | Inr t' \<Rightarrow>
     (case fault e (Suc (length hashes)) of
        Some m \<Rightarrow> (Err (ErrExt m), t)
      | None \<Rightarrow> (Ok (), t'))))"

definition setColumns :: "ethlib \<Rightarrow> int \<Rightarrow> Status \<Rightarrow> StatusExtra option \<Rightarrow> row \<Rightarrow> row" where
  "setColumns L now status extra r0 =
     (let r = r0\<lparr>c_status := status, c_updated_at := now\<rparr> in
      case extra of
        None \<Rightarrow> r
      | Some x \<Rightarrow>
        let r = (case x_BundleTxHash x of None \<Rightarrow> r | Some h \<Rightarrow> r\<lparr>c_bundle_tx_hash := Some (HashHex L h)\<rparr>);
            r = (case x_BundleIndex x of None \<Rightarrow> r | Some i \<Rightarrow> r\<lparr>c_bundle_index := Some i\<rparr>);
            r = (case x_SubmittedAt x of None \<Rightarrow> r | Some i \<Rightarrow> r\<lparr>c_submitted_at := Some i\<rparr>);
            r = (case x_BlockNumber x of None \<Rightarrow> r | Some n \<Rightarrow> r\<lparr>c_block_number := Some (uint n)\<rparr>);
            r = (case x_RevertReason x of None \<Rightarrow> r | Some s \<Rightarrow> r\<lparr>c_revert_reason := Some s\<rparr>);
            r = (case x_ActualGasCost x of None \<Rightarrow> r | Some n \<Rightarrow> r\<lparr>c_actual_gas_cost := Some (Text 10 n)\<rparr>)
        in r)"

text \<open>\<open>database/sql\<close> refuses a \<open>uint64\<close> argument whose high bit is set, before it calls the driver (\<open>argsOk\<close>).\<close>

definition UpdateStatus ::
    "ethlib \<Rightarrow> dbenv \<Rightarrow> hash \<Rightarrow> Status \<Rightarrow> StatusExtra option \<Rightarrow> table \<Rightarrow> unit res \<times> table" where
  "UpdateStatus L e h status extra t =
     (if \<not> argsOk extra
      then (Err (ErrWrap ''update status'' (ErrText ''uint64 values with high bit set are not supported'')), t)
      else
     (case execUpdate e 0 (\<lambda>r. c_hash r = HashHex L h) (setColumns L (clock e) status extra) t of
        Inl m \<Rightarrow> (Err (ErrWrap ''update status'' (ErrExt m)), t)
      | Inr (n, t') \<Rightarrow>
          if n = 0 then (Err (ErrFmt ''op %s not found'' [FStr (HashHex L h)]), t')
          else (Ok (), t')))"

definition GetByHash :: "ethlib \<Rightarrow> dbenv \<Rightarrow> hash \<Rightarrow> table \<Rightarrow> StoredOp res" where
  "GetByHash L e h t = scanOp L (execSelect e 0 (\<lambda>r. c_hash r = HashHex L h) t)"

definition GetConfirmedByHash :: "ethlib \<Rightarrow> dbenv \<Rightarrow> hash \<Rightarrow> table \<Rightarrow> StoredOp res" where
  "GetConfirmedByHash L e h t =
     scanOp L (execSelect e 0 (\<lambda>r. c_hash r = HashHex L h \<and> c_status r = StatusConfirmed) t)"

text \<open>NULL sorts before every integer.\<close>

definition nullsFirst :: "int option \<Rightarrow> bool \<times> int" where
  "nullsFirst x = (case x of None \<Rightarrow> (False, 0) | Some i \<Rightarrow> (True, i))"

fun insertByIndex :: "row \<Rightarrow> row list \<Rightarrow> row list" where
  "insertByIndex r [] = [r]"
| "insertByIndex r (q # qs) =
     (let (a, i) = nullsFirst (c_bundle_index r); (b, j) = nullsFirst (c_bundle_index q)
      in if (\<not> a \<and> b) \<or> (a = b \<and> i \<le> j) then r # q # qs else q # insertByIndex r qs)"

definition GetByBundleTx :: "ethlib \<Rightarrow> dbenv \<Rightarrow> hash \<Rightarrow> table \<Rightarrow> StoredOp list res" where
  "GetByBundleTx L e txHash t =
     (case execSelect e 0 (\<lambda>r. c_bundle_tx_hash r = Some (HashHex L txHash)) t of
        Inl m \<Rightarrow> Err (ErrExt m)
      | Inr rows \<Rightarrow> scanOps L e (foldr insertByIndex rows []))"

definition GetByStatus :: "ethlib \<Rightarrow> dbenv \<Rightarrow> Status \<Rightarrow> table \<Rightarrow> StoredOp list res" where
  "GetByStatus L e s t =
     (case execSelect e 0 (\<lambda>r. c_status r = s) t of
        Inl m \<Rightarrow> Err (ErrExt m)
      | Inr rows \<Rightarrow> scanOps L e (sort_key c_received_at rows))"

definition ResetBundlingToPending :: "dbenv \<Rightarrow> table \<Rightarrow> int res \<times> table" where
  "ResetBundlingToPending e t =
     (case execUpdate e 0 (\<lambda>r. c_status r = StatusBundling)
             (\<lambda>r. r\<lparr>c_status := StatusPending, c_updated_at := clock e\<rparr>) t of
        Inl m \<Rightarrow> (Err (ErrExt m), t)
      | Inr (n, t') \<Rightarrow> (Ok (int n), t'))"

definition MarkTtlExpired :: "dbenv \<Rightarrow> int \<Rightarrow> table \<Rightarrow> int res \<times> table" where
  "MarkTtlExpired e cutoffMs t =
     (case execUpdate e 0 (\<lambda>r. c_status r = StatusPending \<and> c_received_at r < cutoffMs)
             (\<lambda>r. r\<lparr>c_status := StatusFailed, c_revert_reason := Some ''ttl_expired'',
                     c_updated_at := clock e\<rparr>) t of
        Inl m \<Rightarrow> (Err (ErrExt m), t)
      | Inr (n, t') \<Rightarrow> (Ok (int n), t'))"

definition PruneHistory :: "dbenv \<Rightarrow> int \<Rightarrow> table \<Rightarrow> int res \<times> table" where
  "PruneHistory e cutoffMs t =
     (case execDelete e 0 (\<lambda>r. c_status r \<in> {StatusConfirmed, StatusFailed, StatusReplaced} \<and>
                            c_updated_at r < cutoffMs) t of
        Inl m \<Rightarrow> (Err (ErrExt m), t)
      | Inr (n, t') \<Rightarrow> (Ok (int n), t'))"

definition sqliteRepo :: "ethlib \<Rightarrow> (dbenv, table) Repository" where
  "sqliteRepo L =
     \<lparr>rInsert = Insert L, rReplace = Replace L, rGetPending = GetPending L,
      rClaimForBundling = ClaimForBundling L, rUpdateStatus = UpdateStatus L,
      rGetByHash = GetByHash L, rGetConfirmedByHash = GetConfirmedByHash L,
      rGetByBundleTx = GetByBundleTx L, rGetByStatus = GetByStatus L,
      rResetBundlingToPending = ResetBundlingToPending, rMarkTtlExpired = MarkTtlExpired,
      rPruneHistory = PruneHistory\<rparr>"

section \<open>The pruner\<close>

record Pruner =
  pendingTtlMs :: int
  retentionMs :: int

definition NewPruner :: "int \<Rightarrow> int \<Rightarrow> Pruner" where
  "NewPruner ttl retention = \<lparr>pendingTtlMs = ttl, retentionMs = retention\<rparr>"

text \<open>One tick: errors are only logged. Each of the two calls has its own clock reading and environment.\<close>

definition prunerTick ::
    "('e, 'db) Repository \<Rightarrow> Pruner \<Rightarrow> int \<Rightarrow> 'e \<Rightarrow> int \<Rightarrow> 'e \<Rightarrow> 'db \<Rightarrow> 'db" where
  "prunerTick R p now1 e1 now2 e2 db =
     (let cutoff = wrap64 (now1 - pendingTtlMs p);
          (expired, db) = rMarkTtlExpired R e1 cutoff db;
          retentionCutoff = wrap64 (now2 - retentionMs p);
          (deleted, db) = rPruneHistory R e2 retentionCutoff db
      in db)"

end
