(* ===== verification/MempoolSpec.thy ===== *)
theory MempoolSpec
  imports Mempool
begin

text \<open>
  The SQLite repository implements the contract \<open>repository\<close>. The view of a table maps a hash
  to the operation its row hydrates to; the table invariant says that the constraints of the schema
  hold and that every row has the texts the code writes. One lemma on \<open>UPDATE\<close> statements
  (\<open>tableView_map\<close>) carries all the methods that change a status.
\<close>

section \<open>Invariant and view\<close>

definition rowOk :: "ethlib \<Rightarrow> row \<Rightarrow> bool" where
  "rowOk L r \<longleftrightarrow>
     c_hash r = HashHex L (HexToHash L (c_hash r)) \<and>
     c_sender r = ToLower (AddressHex L (HexToAddress L (c_sender r))) \<and>
     (case HexToBigInt (c_nonce r) of Ok n \<Rightarrow> c_nonce r = BigToHex (Some n) | _ \<Rightarrow> False) \<and>
     is_ok (HexToBigInt (c_pre_verification_gas r))"

definition table_inv :: "ethlib \<Rightarrow> table \<Rightarrow> bool" where
  "table_inv L t \<longleftrightarrow> constraintsOk t \<and> list_all (rowOk L) t"

definition tableView :: "ethlib \<Rightarrow> table \<Rightarrow> view" where
  "tableView L t h =
     (if length h = 32
      then case find (\<lambda>r. c_hash r = HashHex L h) t of
             None \<Rightarrow> None
           | Some r \<Rightarrow> (case hydrateOp L r of Ok op \<Rightarrow> Some op | _ \<Rightarrow> None)
      else None)"

definition quiet :: "dbenv \<Rightarrow> bool" where
  "quiet e \<longleftrightarrow> (\<forall>k. fault e k = None)"

lemma hydrateOp_OkD:
  assumes "hydrateOp L r = Ok op"
  shows "Hash op = HexToHash L (c_hash r)" "OpStatus op = c_status r" "ReceivedAt op = c_received_at r"
    "UpdatedAt op = c_updated_at r" "Sender op = HexToAddress L (c_sender r)"
    "HexToBigInt (c_nonce r) = Ok (Nonce op)" "BundleTxHash op = map_option (HexToHash L) (c_bundle_tx_hash r)"
    "BundleIndex op = c_bundle_index r"
  using assms by (auto simp: hydrateOp_def)

lemma hydrateOp_wf: "hydrateOp L r = Ok op \<Longrightarrow> ethlib_ok L \<Longrightarrow> wf_op op"
  by (auto simp: hydrateOp_def wf_op_def length_HexToAddress array32_def)

lemma rowOk_hydrates: "rowOk L r \<Longrightarrow> \<exists>op. hydrateOp L r = Ok op"
  by (auto simp: rowOk_def hydrateOp_def is_ok_iff split: res.splits)

lemma inv_hydrates: "table_inv L t \<Longrightarrow> r \<in> set t \<Longrightarrow> \<exists>op. hydrateOp L r = Ok op"
  by (auto simp: table_inv_def list_all_iff intro: rowOk_hydrates)

lemma rowOk_keys:
  assumes "rowOk L r" "hydrateOp L r = Ok op"
  shows "c_hash r = HashHex L (Hash op)"
    and "indexKey r = (ToLower (AddressHex L (Sender op)), BigToHex (Some (Nonce op)))"
  using assms by (auto simp: rowOk_def hydrateOp_OkD indexKey_def split: res.splits)

lemma hydrateOp_no_Panic [simp]: "hydrateOp L r \<noteq> Panic m"
  by (cases "HexToBigInt (c_nonce r)"; cases "HexToBigInt (c_pre_verification_gas r)")
     (auto simp: hydrateOp_def)

lemma tableView_iff:
  assumes L: "ethlib_ok L" and t: "table_inv L t"
  shows "tableView L t h = Some op \<longleftrightarrow> (\<exists>r \<in> set t. hydrateOp L r = Ok op \<and> Hash op = h)"
proof
  assume "tableView L t h = Some op"
  then obtain r where h: "length h = 32" and r: "find (\<lambda>r. c_hash r = HashHex L h) t = Some r"
    and op: "hydrateOp L r = Ok op"
    by (auto simp: tableView_def split: if_splits option.splits res.splits)
  from r have "r \<in> set t" "c_hash r = HashHex L h" by (auto simp: find_Some_iff)
  with op h L show "\<exists>r \<in> set t. hydrateOp L r = Ok op \<and> Hash op = h"
    by (metis hydrateOp_OkD(1) HexToHash_Hex)
next
  assume "\<exists>r \<in> set t. hydrateOp L r = Ok op \<and> Hash op = h"
  then obtain r where r: "r \<in> set t" "hydrateOp L r = Ok op" "Hash op = h" by blast
  with t have hash: "c_hash r = HashHex L h"
    by (auto simp: table_inv_def list_all_iff dest: rowOk_keys(1))
  from r L have "length h = 32" by (auto simp: hydrateOp_OkD length_HexToHash)
  moreover have "find (\<lambda>r. c_hash r = HashHex L h) t = Some r"
  proof -
    have "find (\<lambda>r. c_hash r = HashHex L h) t \<noteq> None" using r hash by (auto simp: find_None_iff)
    then obtain q where q: "find (\<lambda>r. c_hash r = HashHex L h) t = Some q" by blast
    then have "q \<in> set t" "c_hash q = c_hash r" by (auto simp: find_Some_iff hash)
    with t r(1) have "q = r"
      by (auto simp: table_inv_def constraintsOk_def intro: distinct_map_eqD)
    with q show ?thesis by simp
  qed
  ultimately show "tableView L t h = Some op" using r by (simp add: tableView_def)
qed

lemma tableView_None_iff:
  assumes "ethlib_ok L" "table_inv L t"
  shows "tableView L t h = None \<longleftrightarrow> (\<forall>r \<in> set t. \<forall>op. hydrateOp L r = Ok op \<longrightarrow> Hash op \<noteq> h)"
  using tableView_iff [OF assms, of h] by (metis not_None_eq option.distinct(1))

lemma view_eqI:
  assumes "\<And>h op. v h = Some op \<longleftrightarrow> w h = Some op" shows "v = (w :: view)"
  using assms by (metis ext not_None_eq)

lemma row_of_hash_unique:
  assumes "ethlib_ok L" "table_inv L t" "length h = 32" "r \<in> set t" "hydrateOp L r = Ok op"
  shows "c_hash r = HashHex L h \<longleftrightarrow> Hash op = h"
  using assms rowOk_keys(1) [of L r op]
  by (auto simp: table_inv_def list_all_iff hydrateOp_OkD HexToHash_Hex)

section \<open>UPDATE and DELETE on the view\<close>

definition keepsKeys :: "(row \<Rightarrow> row) \<Rightarrow> bool" where
  "keepsKeys f \<longleftrightarrow> (\<forall>r. c_hash (f r) = c_hash r \<and> c_sender (f r) = c_sender r \<and> c_nonce (f r) = c_nonce r \<and>
     c_pre_verification_gas (f r) = c_pre_verification_gas r)"

text \<open>A row condition that is a condition on the operation, and a row change that is a change of the operation.\<close>

definition matches :: "ethlib \<Rightarrow> table \<Rightarrow> (row \<Rightarrow> bool) \<Rightarrow> (StoredOp \<Rightarrow> bool) \<Rightarrow> bool" where
  "matches L t p P \<longleftrightarrow> (\<forall>r \<in> set t. \<forall>op. hydrateOp L r = Ok op \<longrightarrow> p r = P op)"

definition lifts :: "ethlib \<Rightarrow> (row \<Rightarrow> row) \<Rightarrow> (StoredOp \<Rightarrow> StoredOp) \<Rightarrow> bool" where
  "lifts L f g \<longleftrightarrow> (\<forall>r op. hydrateOp L r = Ok op \<longrightarrow> hydrateOp L (f r) = Ok (g op) \<and> Hash (g op) = Hash op)"

lemma rowOk_keeps: "keepsKeys f \<Longrightarrow> rowOk L (f r) = rowOk L r"
  by (simp add: rowOk_def keepsKeys_def split: res.splits)

lemma table_inv_map:
  assumes "table_inv L t" "keepsKeys f" "constraintsOk (map (\<lambda>r. if p r then f r else r) t)"
  shows "table_inv L (map (\<lambda>r. if p r then f r else r) t)"
  using assms by (auto simp: table_inv_def list_all_iff rowOk_keeps)

lemma tableView_map:
  assumes L: "ethlib_ok L" and t: "table_inv L t"
    and t': "table_inv L (map (\<lambda>r. if p r then f r else r) t)"
    and f: "lifts L f g"
    and P: "matches L t p P"
  shows "tableView L (map (\<lambda>r. if p r then f r else r) t) =
           (\<lambda>h. map_option (\<lambda>op. if P op then g op else op) (tableView L t h))"
proof (rule view_eqI)
  fix h op'
  let ?F = "\<lambda>r. if p r then f r else r" and ?G = "\<lambda>op. if P op then g op else op"
  have ex: "\<exists>op. hydrateOp L r = Ok op" if "r \<in> set t" for r
    by (rule inv_hydrates [OF t that])
  have step: "hydrateOp L (?F r) = Ok (?G op)" "Hash (?G op) = Hash op"
    if "r \<in> set t" "hydrateOp L r = Ok op" for r op
    using f P that by (auto simp: lifts_def matches_def)
  show "tableView L (map ?F t) h = Some op' \<longleftrightarrow> map_option ?G (tableView L t h) = Some op'"
  proof
    assume "tableView L (map ?F t) h = Some op'"
    then obtain r where r: "r \<in> set t" "hydrateOp L (?F r) = Ok op'" "Hash op' = h"
      unfolding tableView_iff [OF L t'] set_map by blast
    from ex [OF r(1)] obtain op where op: "hydrateOp L r = Ok op" by blast
    from step [OF r(1) op] r(2,3) have "op' = ?G op" "Hash op = h" by simp_all
    moreover from r(1) op \<open>Hash op = h\<close> have "tableView L t h = Some op"
      unfolding tableView_iff [OF L t] by blast
    ultimately show "map_option ?G (tableView L t h) = Some op'" by simp
  next
    assume "map_option ?G (tableView L t h) = Some op'"
    then obtain op where "tableView L t h = Some op" and op': "op' = ?G op" by auto
    then obtain r where r: "r \<in> set t" "hydrateOp L r = Ok op" "Hash op = h"
      unfolding tableView_iff [OF L t] by blast
    have "?F r \<in> set (map ?F t)" using r(1) by simp
    with step [OF r(1,2)] r(3) op' show "tableView L (map ?F t) h = Some op'"
      unfolding tableView_iff [OF L t'] by blast
  qed
qed

lemma constraintsOk_filter: "constraintsOk t \<Longrightarrow> constraintsOk (filter p t)"
proof -
  assume "constraintsOk t"
  moreover have "filter inIndex (filter p t) = filter p (filter inIndex t)"
    by (simp add: conj_commute)
  ultimately show ?thesis by (simp only: constraintsOk_def distinct_map_filterI)
qed

lemma tableView_filter:
  assumes L: "ethlib_ok L" and t: "table_inv L t"
    and P: "matches L t p P"
  shows "table_inv L (filter p t)"
    and "tableView L (filter p t) =
           (\<lambda>h. case tableView L t h of None \<Rightarrow> None | Some op \<Rightarrow> if P op then Some op else None)"
proof -
  show inv: "table_inv L (filter p t)"
    using t by (auto simp: table_inv_def list_all_iff constraintsOk_filter)
  show "tableView L (filter p t) =
      (\<lambda>h. case tableView L t h of None \<Rightarrow> None | Some op \<Rightarrow> if P op then Some op else None)"
  proof (rule view_eqI)
    fix h op
    have "tableView L (filter p t) h = Some op \<longleftrightarrow> tableView L t h = Some op \<and> P op"
      unfolding tableView_iff [OF L inv] tableView_iff [OF L t] using P by (auto simp: matches_def)
    then show "tableView L (filter p t) h = Some op \<longleftrightarrow>
        (case tableView L t h of None \<Rightarrow> None | Some op \<Rightarrow> if P op then Some op else None) = Some op"
      by (auto split: option.splits)
  qed
qed

lemma constraintsOk_map:
  assumes t: "constraintsOk t" and f: "keepsKeys f"
    and idx: "\<And>r. r \<in> set t \<Longrightarrow> p r \<Longrightarrow> inIndex (f r) \<Longrightarrow> inIndex r"
  shows "constraintsOk (map (\<lambda>r. if p r then f r else r) t)"
proof -
  let ?F = "\<lambda>r. if p r then f r else r"
  have keys: "c_hash (?F r) = c_hash r" "indexKey (?F r) = indexKey r" for r
    using f by (simp_all add: keepsKeys_def indexKey_def)
  have "filter (inIndex \<circ> ?F) t = filter (inIndex \<circ> ?F) (filter inIndex t)"
    unfolding filter_filter by (rule filter_cong) (use idx in auto)
  then have "map indexKey (filter inIndex (map ?F t)) = map indexKey (filter (inIndex \<circ> ?F) (filter inIndex t))"
    by (simp only: filter_map map_map comp_def keys)
  moreover have "map c_hash (map ?F t) = map c_hash t"
    unfolding map_map comp_def keys ..
  ultimately show ?thesis
    using t by (simp only: constraintsOk_def distinct_map_filterI)
qed

text \<open>A status change of rows that are in the unique index already, or to a terminal status, succeeds.\<close>

lemma execUpdate_view:
  assumes L: "ethlib_ok L" and t: "table_inv L t" and f: "keepsKeys f"
    and g: "lifts L f g"
    and P: "matches L t p P"
    and exec: "execUpdate e k p f t = Inr (n, t')"
  shows "table_inv L t'" "n = length (filter p t)"
    "tableView L t' = (\<lambda>h. map_option (\<lambda>op. if P op then g op else op) (tableView L t h))"
proof -
  from exec have eq: "t' = map (\<lambda>r. if p r then f r else r) t" "n = length (filter p t)"
    and ok: "constraintsOk (map (\<lambda>r. if p r then f r else r) t)"
    by (auto simp: execUpdate_def Let_def split: option.splits if_splits)
  have inv: "table_inv L (map (\<lambda>r. if p r then f r else r) t)"
    by (rule table_inv_map [OF t f ok])
  then show "table_inv L t'" by (simp only: eq)
  show "n = length (filter p t)" by (fact eq)
  show "tableView L t' = (\<lambda>h. map_option (\<lambda>op. if P op then g op else op) (tableView L t h))"
    unfolding eq by (rule tableView_map [OF L t inv g P])
qed

lemma execUpdate_quiet:
  assumes "quiet e" "table_inv L t" "keepsKeys f"
    "\<And>r. r \<in> set t \<Longrightarrow> p r \<Longrightarrow> inIndex (f r) \<Longrightarrow> inIndex r"
  shows "execUpdate e k p f t = Inr (length (filter p t), map (\<lambda>r. if p r then f r else r) t)"
  using assms constraintsOk_map [of t f p] by (auto simp: execUpdate_def quiet_def table_inv_def Let_def)

section \<open>Insert\<close>

lemma hydrateOp_newRow:
  "ethlib_ok L \<Longrightarrow> wf_op p \<Longrightarrow> length h = 32 \<Longrightarrow> hydrateOp L (newRow L now p h) = Ok (freshOp now p h)"
  by (simp add: hydrateOp_def newRow_def freshOp_def PackedUserOp.defs wf_op_def array32_def
      HexToHash_Hex HexToAddress_lower)

lemma rowOk_newRow:
  "ethlib_ok L \<Longrightarrow> wf_op p \<Longrightarrow> length h = 32 \<Longrightarrow> rowOk L (newRow L now p h)"
  by (simp add: rowOk_def newRow_def wf_op_def HexToHash_Hex HexToAddress_lower)

lemma newRow_simps [simp]:
  "c_hash (newRow L now p h) = HashHex L h" "c_status (newRow L now p h) = StatusPending"
  "indexKey (newRow L now p h) = (ToLower (AddressHex L (Sender p)), BigToHex (Some (Nonce p)))"
  "inIndex (newRow L now p h)"
  by (simp_all add: newRow_def indexKey_def inIndex_def)

lemma table_inv_snoc:
  assumes "ethlib_ok L" "table_inv L t" "wf_op p" "length h = 32"
  shows "table_inv L (t @ [newRow L now p h]) = constraintsOk (t @ [newRow L now p h])"
  using assms by (auto simp: table_inv_def rowOk_newRow)

lemma tableView_snoc:
  assumes L: "ethlib_ok L" and t: "table_inv L t" and p: "wf_op p" "length h = 32"
    and ok: "constraintsOk (t @ [newRow L now p h])"
  shows "tableView L t h = None"
    and "tableView L (t @ [newRow L now p h]) = (tableView L t)(h \<mapsto> freshOp now p h)"
proof -
  have inv: "table_inv L (t @ [newRow L now p h])"
    using table_inv_snoc [OF L t p] ok by blast
  have "c_hash r \<noteq> HashHex L h" if "r \<in> set t" for r
    using ok that by (force simp: constraintsOk_def)
  then show none: "tableView L t h = None"
    using row_of_hash_unique [OF L t p(2)] by (simp add: tableView_None_iff [OF L t])
  show "tableView L (t @ [newRow L now p h]) = (tableView L t)(h \<mapsto> freshOp now p h)"
  proof (rule view_eqI)
    fix h' op
    have "tableView L (t @ [newRow L now p h]) h' = Some op \<longleftrightarrow>
        tableView L t h' = Some op \<or> op = freshOp now p h \<and> h = h'"
      unfolding tableView_iff [OF L inv] tableView_iff [OF L t] by (auto simp: hydrateOp_newRow [OF L p])
    then show "tableView L (t @ [newRow L now p h]) h' = Some op \<longleftrightarrow>
        ((tableView L t)(h \<mapsto> freshOp now p h)) h' = Some op"
      using none by auto
  qed
qed

lemma unique_active:
  assumes L: "ethlib_ok L" and t: "table_inv L t"
    and h: "tableView L t h = Some op" "tableView L t h' = Some op'"
    and act: "\<not> IsTerminal (OpStatus op)" "\<not> IsTerminal (OpStatus op')"
    and eq: "Sender op = Sender op'" "Nonce op = Nonce op'"
  shows "h = h'"
proof -
  from h obtain r r' where r: "r \<in> set t" "hydrateOp L r = Ok op" "Hash op = h"
    and r': "r' \<in> set t" "hydrateOp L r' = Ok op'" "Hash op' = h'"
    unfolding tableView_iff [OF L t] by blast
  from t r r' have "rowOk L r" "rowOk L r'" by (auto simp: table_inv_def list_all_iff)
  with rowOk_keys(2) r r' eq have "indexKey r = indexKey r'" by metis
  moreover have "r \<in> set (filter inIndex t)" "r' \<in> set (filter inIndex t)"
    using act r r' by (auto simp: inIndex_def IsTerminal_def hydrateOp_OkD)
  ultimately have "r = r'"
    using t by (auto simp: table_inv_def constraintsOk_def intro: distinct_map_eqD)
  with r r' show ?thesis by simp
qed

lemma constraintsOk_snocI:
  assumes L: "ethlib_ok L" and t: "table_inv L t" and p: "wf_op p" "length h = 32"
    and new: "tableView L t h = None"
    and free: "\<And>h' op. tableView L t h' = Some op \<Longrightarrow> Sender op = Sender p \<Longrightarrow> Nonce op = Nonce p \<Longrightarrow>
      IsTerminal (OpStatus op)"
  shows "constraintsOk (t @ [newRow L now p h])"
proof -
  have "HashHex L h \<noteq> c_hash r" if "r \<in> set t" for r
  proof -
    from inv_hydrates [OF t that] obtain op where "hydrateOp L r = Ok op" by blast
    with new that row_of_hash_unique [OF L t p(2) that this] show ?thesis
      by (auto simp: tableView_None_iff [OF L t])
  qed
  moreover have "indexKey r \<noteq> indexKey (newRow L now p h)" if "r \<in> set t" "inIndex r" for r
  proof
    assume key: "indexKey r = indexKey (newRow L now p h)"
    from t that obtain op where op: "hydrateOp L r = Ok op" and ok: "rowOk L r"
      by (auto simp: table_inv_def list_all_iff dest: rowOk_hydrates)
    from key have cols: "c_sender r = ToLower (AddressHex L (Sender p))" "c_nonce r = BigToHex (Some (Nonce p))"
      by (simp_all add: indexKey_def newRow_def)
    have "Sender op = Sender p"
      using hydrateOp_OkD(5) [OF op] cols(1) p(1) L by (simp add: HexToAddress_lower wf_op_def)
    moreover have "Nonce op = Nonce p"
      using hydrateOp_OkD(6) [OF op] cols(2) by simp
    moreover have "tableView L t (Hash op) = Some op"
      using that(1) op by (auto simp: tableView_iff [OF L t])
    ultimately have "IsTerminal (OpStatus op)" by (blast intro: free)
    with that(2) op show False by (auto simp: IsTerminal_def inIndex_def hydrateOp_OkD)
  qed
  then have "indexKey (newRow L now p h) \<notin> indexKey ` set (filter inIndex t)" by fastforce
  ultimately show ?thesis
    using t by (auto simp: table_inv_def constraintsOk_def simp del: newRow_simps(3))
qed

section \<open>Status changes\<close>

lemma setColumns_keys [simp]: "keepsKeys (setColumns L now s extra)"
  by (auto simp: keepsKeys_def setColumns_def Let_def split: option.splits)

lemma setColumns_status [simp]: "c_status (setColumns L now s extra r) = s"
  by (simp add: setColumns_def Let_def split: option.splits)

lemma hydrateOp_setColumns:
  assumes "ethlib_ok L" "extra_ok extra" "hydrateOp L r = Ok op"
  shows "hydrateOp L (setColumns L now s extra r) = Ok (applyUpdate now s extra op)"
proof (cases extra)
  case None
  with assms(3) show ?thesis
    by (auto simp: hydrateOp_def setColumns_def applyUpdate_def noExtra_def Let_def)
next
  case (Some x)
  define cols where "cols =
    r\<lparr>c_status := s, c_updated_at := now,
      c_bundle_tx_hash := orElse (map_option (HashHex L) (x_BundleTxHash x)) (c_bundle_tx_hash r),
      c_bundle_index := orElse (x_BundleIndex x) (c_bundle_index r),
      c_submitted_at := orElse (x_SubmittedAt x) (c_submitted_at r),
      c_block_number := orElse (map_option uint (x_BlockNumber x)) (c_block_number r),
      c_revert_reason := orElse (x_RevertReason x) (c_revert_reason r),
      c_actual_gas_cost := orElse (map_option (Text 10) (x_ActualGasCost x)) (c_actual_gas_cost r)\<rparr>"
  have "setColumns L now s extra r = cols"
    by (simp add: Some setColumns_def cols_def Let_def orElse_def split: option.splits)
  moreover have "map_option (HexToHash L) (orElse (map_option (HashHex L) (x_BundleTxHash x)) c) =
      orElse (x_BundleTxHash x) (map_option (HexToHash L) c)" for c
    using assms(1,2) by (cases "x_BundleTxHash x") (simp_all add: Some extra_ok_def HexToHash_Hex)
  moreover have "map_option word_of_int (orElse (map_option uint (x_BlockNumber x)) c) =
      orElse (x_BlockNumber x) (map_option word_of_int c)" for c
    by (cases "x_BlockNumber x") simp_all
  moreover have "Option.bind (orElse (map_option (Text 10) (x_ActualGasCost x)) c) (SetString 10) =
      orElse (x_ActualGasCost x) (Option.bind c (SetString 10))" for c
    by (cases "x_ActualGasCost x") (simp_all add: SetString_Text)
  ultimately show ?thesis
    using assms(3) by (auto simp: hydrateOp_def cols_def applyUpdate_def Some Let_def)
qed

lemma lifts_setColumns: "ethlib_ok L \<Longrightarrow> extra_ok extra \<Longrightarrow> lifts L (setColumns L now s extra) (applyUpdate now s extra)"
  by (simp add: lifts_def hydrateOp_setColumns)

lemma matches_hash:
  "ethlib_ok L \<Longrightarrow> table_inv L t \<Longrightarrow> length h = 32 \<Longrightarrow> matches L t (\<lambda>r. c_hash r = HashHex L h) (\<lambda>op. Hash op = h)"
  by (simp add: matches_def row_of_hash_unique)

text \<open>The statements that only set the status are the same update without extra columns.\<close>

lemma extra_ok_noTx: "extra_ok (Some (noExtra\<lparr>x_RevertReason := Some m\<rparr>))"
  by (simp add: extra_ok_def noExtra_def)

lemma lifts_setStatus:
  assumes "ethlib_ok L"
  shows "lifts L (\<lambda>r. r\<lparr>c_status := s, c_updated_at := now\<rparr>) (applyUpdate now s None)"
    and "lifts L (\<lambda>r. r\<lparr>c_status := s, c_revert_reason := Some m, c_updated_at := now\<rparr>)
           (applyUpdate now s (Some (noExtra\<lparr>x_RevertReason := Some m\<rparr>)))"
proof -
  have eq1: "setColumns L now s None = (\<lambda>r. r\<lparr>c_status := s, c_updated_at := now\<rparr>)"
    by (rule ext) (simp add: setColumns_def)
  from lifts_setColumns [OF assms extra_ok_None, of now s]
  show "lifts L (\<lambda>r. r\<lparr>c_status := s, c_updated_at := now\<rparr>) (applyUpdate now s None)"
    unfolding eq1 .
  have eq2: "setColumns L now s (Some (noExtra\<lparr>x_RevertReason := Some m\<rparr>)) =
      (\<lambda>r. r\<lparr>c_status := s, c_revert_reason := Some m, c_updated_at := now\<rparr>)"
    by (rule ext) (simp add: setColumns_def noExtra_def)
  from lifts_setColumns [OF assms extra_ok_noTx, of now s m]
  show "lifts L (\<lambda>r. r\<lparr>c_status := s, c_revert_reason := Some m, c_updated_at := now\<rparr>)
      (applyUpdate now s (Some (noExtra\<lparr>x_RevertReason := Some m\<rparr>)))"
    unfolding eq2 .
qed

lemma setStatus_keys [simp]:
  "keepsKeys (\<lambda>r. r\<lparr>c_status := s, c_updated_at := now\<rparr>)"
  "keepsKeys (\<lambda>r. r\<lparr>c_status := s, c_revert_reason := m, c_updated_at := now\<rparr>)"
  by (simp_all add: keepsKeys_def)

lemma tableView_Hash:
  "ethlib_ok L \<Longrightarrow> table_inv L t \<Longrightarrow> tableView L t h = Some op \<Longrightarrow> Hash op = h \<and> length h = 32 \<and> wf_op op"
  by (auto simp: tableView_iff hydrateOp_OkD(1) length_HexToHash dest: hydrateOp_wf)

lemma tableView_point:
  assumes "ethlib_ok L" "table_inv L t" "tableView L t h = Some op"
  shows "(\<lambda>h'. map_option (\<lambda>op. if Hash op = h then g op else op) (tableView L t h')) =
     (tableView L t)(h \<mapsto> g op)"
proof
  fix h'
  show "map_option (\<lambda>op. if Hash op = h then g op else op) (tableView L t h') = ((tableView L t)(h \<mapsto> g op)) h'"
    using tableView_Hash [OF assms(1,2), of h'] assms(3) by (cases "tableView L t h'") auto
qed

lemma filter_empty_view:
  assumes L: "ethlib_ok L" and t: "table_inv L t"
    and P: "matches L t p P"
  shows "filter p t = [] \<longleftrightarrow> (\<forall>h op. tableView L t h = Some op \<longrightarrow> \<not> P op)"
proof -
  have "\<exists>op. hydrateOp L r = Ok op" if "r \<in> set t" for r
    by (rule inv_hydrates [OF t that])
  then show ?thesis
    unfolding tableView_iff [OF L t] filter_empty_conv using P unfolding matches_def by metis
qed

lemma UpdateStatus_ok:
  assumes L: "ethlib_ok L" and t: "table_inv L t" and h: "length h = 32" and x: "extra_ok extra"
    and upd: "UpdateStatus L e h s extra t = (Ok (), t')"
  shows "table_inv L t' \<and> (\<exists>op. tableView L t h = Some op \<and>
           tableView L t' = (tableView L t)(h \<mapsto> applyUpdate (clock e) s extra op))"
proof -
  from upd obtain n where exec: "execUpdate e 0 (\<lambda>r. c_hash r = HashHex L h) (setColumns L (clock e) s extra) t = Inr (n, t')"
    and n: "n \<noteq> 0"
    by (auto simp: UpdateStatus_def split: if_splits sum.splits prod.splits)
  note row = matches_hash [OF L t h]
  have res: "table_inv L t'" "n = length (filter (\<lambda>r. c_hash r = HashHex L h) t)"
    "tableView L t' = (\<lambda>h'. map_option (\<lambda>op. if Hash op = h then applyUpdate (clock e) s extra op else op) (tableView L t h'))"
    by (fact execUpdate_view [OF L t setColumns_keys lifts_setColumns [OF L x] row exec])+
  from n res(2) filter_empty_view [OF L t row] obtain h' op where "tableView L t h' = Some op" "Hash op = h"
    by auto
  then have op: "tableView L t h = Some op" by (simp add: tableView_iff [OF L t])
  have "tableView L t' = (tableView L t)(h \<mapsto> applyUpdate (clock e) s extra op)"
    unfolding res(3) by (rule tableView_point [OF L t op])
  with res(1) op show ?thesis by blast
qed

lemma UpdateStatus_progress:
  assumes L: "ethlib_ok L" and t: "table_inv L t" and e: "quiet e" and op: "tableView L t h = Some op"
    and s: "\<not> IsTerminal (OpStatus op) \<or> IsTerminal s" and x: "argsOk extra"
  shows "fst (UpdateStatus L e h s extra t) = Ok ()"
proof -
  from op have h: "length h = 32" by (auto simp: tableView_def split: if_splits)
  note row = row_of_hash_unique [OF L t h]
  let ?p = "\<lambda>r. c_hash r = HashHex L h" and ?f = "setColumns L (clock e) s extra"
  have "inIndex r" if r: "r \<in> set t" "?p r" "inIndex (?f r)" for r
  proof -
    from inv_hydrates [OF t r(1)] obtain op' where op': "hydrateOp L r = Ok op'" by blast
    then have "tableView L t (Hash op') = Some op'" using r(1) by (auto simp: tableView_iff [OF L t])
    moreover have "Hash op' = h" using row [OF r(1) op'] r(2) by blast
    ultimately have "op' = op" using op by simp
    with r(3) s op' show ?thesis by (auto simp: inIndex_def IsTerminal_def hydrateOp_OkD)
  qed
  then have "execUpdate e 0 ?p ?f t = Inr (length (filter ?p t), map (\<lambda>r. if ?p r then ?f r else r) t)"
    by (rule execUpdate_quiet [OF e t setColumns_keys])
  moreover have "filter ?p t \<noteq> []"
    using filter_empty_view [OF L t matches_hash [OF L t h]] op tableView_Hash [OF L t op] by blast
  ultimately show ?thesis by (simp add: UpdateStatus_def x)
qed

lemma UpdateStatus_err: "UpdateStatus L e h s extra t = (Err er, t') \<Longrightarrow> t' = t"
  by (auto simp: UpdateStatus_def execUpdate_def Let_def split: if_splits option.splits intro!: map_idI
      dest: filter_empty_conv [THEN iffD1])

lemma UpdateStatus_no_Panic: "fst (UpdateStatus L e h s extra t) \<noteq> Panic m"
  by (simp add: UpdateStatus_def split: sum.splits prod.splits)

end
