(* ===== verification/MempoolRepo.thy ===== *)
theory MempoolRepo
  imports MempoolSpec
begin

text \<open>
  The transaction \<open>ClaimForBundling\<close>, the queries and the bulk statements of the SQLite
  repository, the interpretation of the contract \<open>repository\<close>, and the properties of the
  mempool.
\<close>

section \<open>Claiming\<close>

abbreviation pendingIn :: "view \<Rightarrow> hash \<Rightarrow> bool" where
  "pendingIn v h \<equiv> \<exists>op. v h = Some op \<and> OpStatus op = StatusPending"

definition claimView :: "int \<Rightarrow> hash set \<Rightarrow> view \<Rightarrow> view" where
  "claimView now H v = (\<lambda>h. if h \<in> H then map_option (applyUpdate now StatusBundling None) (v h) else v h)"

lemma matches_claim:
  "ethlib_ok L \<Longrightarrow> table_inv L t \<Longrightarrow> length h = 32 \<Longrightarrow>
    matches L t (\<lambda>r. c_hash r = HashHex L h \<and> c_status r = StatusPending)
      (\<lambda>op. Hash op = h \<and> OpStatus op = StatusPending)"
  by (auto simp: matches_def row_of_hash_unique hydrateOp_OkD)

lemma claim_one:
  assumes L: "ethlib_ok L" and t: "table_inv L t" and h: "length h = 32"
    and exec: "execUpdate e k (\<lambda>r. c_hash r = HashHex L h \<and> c_status r = StatusPending)
             (\<lambda>r. r\<lparr>c_status := StatusBundling, c_updated_at := clock e\<rparr>) t = Inr (n, t')"
  shows "table_inv L t'" "n \<noteq> 0 \<longleftrightarrow> pendingIn (tableView L t) h"
    "n \<noteq> 0 \<Longrightarrow> tableView L t' = claimView (clock e) {h} (tableView L t)"
proof -
  note res = execUpdate_view [OF L t setStatus_keys(1) lifts_setStatus(1) [OF L] matches_claim [OF L t h] exec]
  show "table_inv L t'" by (fact res(1))
  show pend: "n \<noteq> 0 \<longleftrightarrow> pendingIn (tableView L t) h"
    unfolding res(2) length_0_conv filter_empty_view [OF L t matches_claim [OF L t h]]
    using tableView_Hash [OF L t] by blast
  show "tableView L t' = claimView (clock e) {h} (tableView L t)" if "n \<noteq> 0"
  proof
    fix h'
    from that pend obtain op where op: "tableView L t h = Some op" "OpStatus op = StatusPending" by blast
    show "tableView L t' h' = claimView (clock e) {h} (tableView L t) h'"
      using op tableView_Hash [OF L t, of h'] by (cases "tableView L t h'") (auto simp: res(3) claimView_def)
  qed
qed

lemma claimEach_ok:
  assumes L: "ethlib_ok L"
  shows "table_inv L t \<Longrightarrow> \<forall>h \<in> set hs. length h = 32 \<Longrightarrow> claimEach L e k hs t = Inr t' \<Longrightarrow>
    table_inv L t' \<and> distinct hs \<and> (\<forall>h \<in> set hs. pendingIn (tableView L t) h) \<and>
    tableView L t' = claimView (clock e) (set hs) (tableView L t)"
proof (induction hs arbitrary: k t)
  case Nil
  then show ?case by (auto simp: claimView_def)
next
  case (Cons h hs)
  from Cons.prems(3) obtain n t1 where
    exec: "execUpdate e k (\<lambda>r. c_hash r = HashHex L h \<and> c_status r = StatusPending)
             (\<lambda>r. r\<lparr>c_status := StatusBundling, c_updated_at := clock e\<rparr>) t = Inr (n, t1)"
    and n: "n \<noteq> 0" and rest: "claimEach L e (Suc k) hs t1 = Inr t'"
    by (auto split: sum.splits prod.splits if_splits)
  have h: "length h = 32" using Cons.prems(2) by simp
  note one = claim_one [OF L Cons.prems(1) h exec]
  note v1 = one(3) [OF n]
  have IH: "table_inv L t'" "distinct hs" "\<forall>h \<in> set hs. pendingIn (tableView L t1) h"
    "tableView L t' = claimView (clock e) (set hs) (tableView L t1)"
    using Cons.IH [OF one(1) _ rest] Cons.prems(2) by simp_all
  have "\<not> pendingIn (tableView L t1) h" by (auto simp: v1 claimView_def)
  then have "h \<notin> set hs" using IH(3) by blast
  moreover have "\<forall>h' \<in> set hs. pendingIn (tableView L t) h'"
    using IH(3) calculation by (fastforce simp: v1 claimView_def split: if_splits)
  moreover have "tableView L t' = claimView (clock e) (set (h # hs)) (tableView L t)"
    using calculation(1) by (auto simp: IH(4) v1 claimView_def fun_eq_iff)
  ultimately show ?case using IH(1,2) one(2) n by simp
qed

lemma claimEach_progress:
  assumes L: "ethlib_ok L" and e: "quiet e"
  shows "table_inv L t \<Longrightarrow> distinct hs \<Longrightarrow> \<forall>h \<in> set hs. pendingIn (tableView L t) h \<Longrightarrow>
    \<exists>t'. claimEach L e k hs t = Inr t'"
proof (induction hs arbitrary: k t)
  case (Cons h hs)
  from Cons.prems(3) have pend: "pendingIn (tableView L t) h" by simp
  then have h: "length h = 32" using tableView_Hash [OF L Cons.prems(1)] by blast
  let ?p = "\<lambda>r. c_hash r = HashHex L h \<and> c_status r = StatusPending"
  let ?f = "\<lambda>r. r\<lparr>c_status := StatusBundling, c_updated_at := clock e\<rparr>"
  obtain n t1 where exec: "execUpdate e k ?p ?f t = Inr (n, t1)"
    using execUpdate_quiet [OF e Cons.prems(1) setStatus_keys(1), of ?p] by (auto simp: inIndex_def)
  note one = claim_one [OF L Cons.prems(1) h exec]
  have n: "n \<noteq> 0" using one(2) pend by blast
  have "\<forall>h' \<in> set hs. pendingIn (tableView L t1) h'"
    using Cons.prems(2,3) by (auto simp: one(3) [OF n] claimView_def)
  with Cons.IH [OF one(1), of "Suc k"] Cons.prems(2) n exec show ?case by simp
qed simp

lemma ClaimForBundling_ok:
  assumes L: "ethlib_ok L" and t: "table_inv L t" and h: "\<forall>h \<in> set hs. length h = 32"
    and c: "ClaimForBundling L e hs t = (Ok (), t')"
  shows "table_inv L t' \<and> distinct hs \<and> (\<forall>h \<in> set hs. pendingIn (tableView L t) h) \<and>
    tableView L t' = claimView (clock e) (set hs) (tableView L t)"
proof (cases hs)
  case Nil
  with c t show ?thesis by (auto simp: ClaimForBundling_def claimView_def)
next
  case (Cons a as)
  with c have "claimEach L e 1 hs t = Inr t'"
    by (auto simp: ClaimForBundling_def simp del: claimEach.simps split: option.splits sum.splits)
  from claimEach_ok [OF L t h this] show ?thesis .
qed

lemma ClaimForBundling_progress:
  assumes "ethlib_ok L" "quiet e" "table_inv L t" "distinct hs" "\<forall>h \<in> set hs. pendingIn (tableView L t) h"
  shows "fst (ClaimForBundling L e hs t) = Ok ()"
  using claimEach_progress [OF assms, of 1] assms(2)
  by (auto simp: ClaimForBundling_def quiet_def)

lemma ClaimForBundling_err: "ClaimForBundling L e hs t = (Err er, t') \<Longrightarrow> t' = t"
  by (auto simp: ClaimForBundling_def split: if_splits option.splits sum.splits)

lemma ClaimForBundling_no_Panic: "fst (ClaimForBundling L e hs t) \<noteq> Panic m"
  by (simp add: ClaimForBundling_def split: option.splits sum.splits)

section \<open>Queries\<close>

lemma scanRows_ok:
  "scanRows L rs = Ok ops \<longleftrightarrow> list_all2 (\<lambda>r op. hydrateOp L r = Ok op) rs ops"
  by (induction rs arbitrary: ops) (auto simp: list_all2_Cons1)

lemma scanRows_rowOk: "\<forall>r \<in> set rs. rowOk L r \<Longrightarrow> \<exists>ops. scanRows L rs = Ok ops"
proof (induction rs)
  case (Cons r rs)
  then obtain op ops where "hydrateOp L r = Ok op" "scanRows L rs = Ok ops"
    using rowOk_hydrates by fastforce
  then show ?case by simp
qed simp

lemma scanRows_no_Panic [simp]: "scanRows L rs \<noteq> Panic m"
proof (induction rs)
  case (Cons r rs)
  then show ?case by (cases "hydrateOp L r"; cases "scanRows L rs") auto
qed simp

lemma scanOps_no_Panic [simp]: "scanOps L e rs \<noteq> Panic m"
  by (cases "scanRows L rs") (auto simp: scanOps_def split: option.splits)

lemma scanOps_ok: "scanOps L e rs = Ok ops \<longleftrightarrow> scanRows L rs = Ok ops \<and> fault e 1 = None"
  by (auto simp: scanOps_def split: option.splits)

text \<open>What a scan of some rows of the table returns: the operations of these rows in this order.\<close>

lemma scanned:
  assumes L: "ethlib_ok L" and t: "table_inv L t" and sub: "set rs \<subseteq> set t" "distinct (map c_hash rs)"
    and scan: "scanRows L rs = Ok ops"
  shows "distinct (map Hash ops)" "map ReceivedAt ops = map c_received_at rs" "length ops = length rs"
    "map OpStatus ops = map c_status rs"
    "\<And>op. op \<in> set ops \<longleftrightarrow> (\<exists>r \<in> set rs. hydrateOp L r = Ok op)"
    "\<And>op. op \<in> set ops \<Longrightarrow> tableView L t (Hash op) = Some op"
proof -
  from scan have all2: "list_all2 (\<lambda>r op. hydrateOp L r = Ok op) rs ops" by (simp add: scanRows_ok)
  show len: "length ops = length rs" using all2 by (simp add: list_all2_lengthD)
  have nth: "hydrateOp L (rs ! i) = Ok (ops ! i)" if "i < length rs" for i
    using list_all2_nthD [OF all2 that] .
  show "map ReceivedAt ops = map c_received_at rs" "map OpStatus ops = map c_status rs"
    using hydrateOp_OkD(2,3) [OF nth] len by (auto intro!: nth_equalityI)
  show mem: "op \<in> set ops \<longleftrightarrow> (\<exists>r \<in> set rs. hydrateOp L r = Ok op)" for op
    using nth len by (metis in_set_conv_nth res.inject(1))
  then show "tableView L t (Hash op) = Some op" if "op \<in> set ops" for op
    using that sub(1) by (auto simp: tableView_iff [OF L t])
  have "map c_hash rs = map (HashHex L \<circ> Hash) ops"
  proof (rule nth_equalityI)
    fix i assume "i < length (map c_hash rs)"
    moreover from this sub(1) t have "rowOk L (rs ! i)"
      by (metis length_map list_all_iff nth_mem subsetD table_inv_def)
    ultimately show "map c_hash rs ! i = map (HashHex L \<circ> Hash) ops ! i"
      using nth len by (simp add: rowOk_keys(1))
  qed (simp add: len)
  with sub(2) show "distinct (map Hash ops)" by (metis distinct_map map_map)
qed

lemma distinct_hashes: "table_inv L t \<Longrightarrow> distinct (map c_hash t)"
  by (simp add: table_inv_def constraintsOk_def)

lemma sorted_rows:
  assumes "table_inv L t"
  shows "set (sort_key c_received_at (filter p t)) = {r \<in> set t. p r}"
    "distinct (map c_hash (sort_key c_received_at (filter p t)))"
    "sorted (map c_received_at (sort_key c_received_at (filter p t)))"
proof -
  show "distinct (map c_hash (sort_key c_received_at (filter p t)))"
    using distinct_map_filterI [OF distinct_hashes [OF assms], of p]
    by (simp add: distinct_map)
qed simp_all

lemma GetByStatus_ok:
  assumes L: "ethlib_ok L" and t: "table_inv L t" and g: "GetByStatus L e s t = Ok ops"
  shows "distinct (map Hash ops) \<and> (\<forall>op. op \<in> set ops \<longleftrightarrow> tableView L t (Hash op) = Some op \<and> OpStatus op = s)"
proof -
  let ?rs = "sort_key c_received_at (filter (\<lambda>r. c_status r = s) t)"
  from g have scan: "scanRows L ?rs = Ok ops"
    by (auto simp: GetByStatus_def execSelect_def scanOps_ok split: option.splits)
  note rows = sorted_rows [OF t, of "\<lambda>r. c_status r = s"]
  have "set ?rs \<subseteq> set t" using rows(1) by blast
  note res = scanned [OF L t this rows(2) scan]
  have "op \<in> set ops \<longleftrightarrow> tableView L t (Hash op) = Some op \<and> OpStatus op = s" for op
    unfolding tableView_iff [OF L t] res(5) rows(1) by (auto simp: hydrateOp_OkD)
  with res(1) show ?thesis by blast
qed

lemma sorted_take_le:
  "sorted (map f xs) \<Longrightarrow> x \<in> set (take n xs) \<Longrightarrow> y \<in> set (drop n xs) \<Longrightarrow> f x \<le> f y"
  using sorted_append [of "map f (take n xs)" "map f (drop n xs)"] by (simp flip: map_append)

lemma set_limitRows: "set (limitRows n xs) \<subseteq> set xs"
  by (auto simp: limitRows_def dest: in_set_takeD)

lemma limitRows_missing:
  assumes "sorted (map f xs)" "y \<in> set xs" "y \<notin> set (limitRows n xs)"
  shows "0 \<le> n" "int (length (limitRows n xs)) = n" "\<forall>x \<in> set (limitRows n xs). f x \<le> f y"
proof -
  from assms(2,3) show n: "0 \<le> n" by (auto simp: limitRows_def split: if_splits)
  from assms(2,3) n have y: "y \<in> set (drop (nat n) xs)"
    by (metis limitRows_def linorder_not_less Un_iff append_take_drop_id set_append)
  with n show "int (length (limitRows n xs)) = n"
    by (cases "nat n \<le> length xs") (auto simp: limitRows_def)
  show "\<forall>x \<in> set (limitRows n xs). f x \<le> f y"
    using sorted_take_le [OF assms(1) _ y] n by (simp add: limitRows_def)
qed

lemma GetPending_ok:
  assumes L: "ethlib_ok L" and t: "table_inv L t" and g: "GetPending L e limit t = Ok ops"
  shows "distinct (map Hash ops) \<and> (\<forall>op \<in> set ops. tableView L t (Hash op) = Some op \<and> OpStatus op = StatusPending) \<and>
    sorted (map ReceivedAt ops) \<and> (0 \<le> limit \<longrightarrow> int (length ops) \<le> limit) \<and>
    (\<forall>h op. tableView L t h = Some op \<longrightarrow> OpStatus op = StatusPending \<longrightarrow> op \<notin> set ops \<longrightarrow>
       0 \<le> limit \<and> int (length ops) = limit \<and> (\<forall>q \<in> set ops. ReceivedAt q \<le> ReceivedAt op))"
proof -
  let ?all = "sort_key c_received_at (filter (\<lambda>r. c_status r = StatusPending) t)"
  let ?rs = "limitRows limit ?all"
  from g have scan: "scanRows L ?rs = Ok ops"
    by (auto simp: GetPending_def execSelect_def scanOps_ok split: option.splits)
  note rows = sorted_rows [OF t, of "\<lambda>r. c_status r = StatusPending"]
  have sub: "set ?rs \<subseteq> set t" using rows(1) set_limitRows [of limit ?all] by blast
  have dist: "distinct (map c_hash ?rs)"
    using distinct_take [OF rows(2), of "nat limit"] rows(2) by (simp add: limitRows_def take_map)
  note res = scanned [OF L t sub dist scan]
  have pend: "OpStatus op = StatusPending" if "op \<in> set ops" for op
    using that res(5) rows(1) set_limitRows [of limit ?all] by (fastforce simp: hydrateOp_OkD)
  have "sorted (map ReceivedAt ops)"
    unfolding res(2) using sorted_wrt_take [OF rows(3), of "nat limit"] rows(3) by (simp add: limitRows_def take_map)
  moreover have "0 \<le> limit \<longrightarrow> int (length ops) \<le> limit"
    unfolding res(3) by (auto simp: limitRows_def)
  moreover have "0 \<le> limit \<and> int (length ops) = limit \<and> (\<forall>q \<in> set ops. ReceivedAt q \<le> ReceivedAt op)"
    if op: "tableView L t h = Some op" "OpStatus op = StatusPending" "op \<notin> set ops" for h op
  proof -
    from op obtain r where r: "r \<in> set t" "hydrateOp L r = Ok op" by (auto simp: tableView_iff [OF L t])
    then have "r \<in> set ?all" using op(2) by (simp add: hydrateOp_OkD)
    moreover have "r \<notin> set ?rs" using r(2) op(3) res(5) by blast
    ultimately show ?thesis
      using limitRows_missing [OF rows(3)] r(2) res(3,5) by (fastforce simp: hydrateOp_OkD(3))
  qed
  ultimately show ?thesis using res(1,6) pend by blast
qed

lemma queries_progress:
  assumes t: "table_inv L t" and e: "quiet e"
  shows "is_ok (GetPending L e limit t)" "is_ok (GetByStatus L e s t)"
proof -
  have scan: "\<exists>ops. scanRows L rs = Ok ops" if "set rs \<subseteq> set t" for rs
    by (rule scanRows_rowOk) (use that t in \<open>auto simp: table_inv_def list_all_iff\<close>)
  have "set (limitRows limit (sort_key c_received_at (filter (\<lambda>r. c_status r = StatusPending) t))) \<subseteq> set t"
    using set_limitRows [of limit "sort_key c_received_at (filter (\<lambda>r. c_status r = StatusPending) t)"] by auto
  from scan [OF this] show "is_ok (GetPending L e limit t)"
    using e by (auto simp: GetPending_def execSelect_def scanOps_def quiet_def)
  have "set (sort_key c_received_at (filter (\<lambda>r. c_status r = s) t)) \<subseteq> set t" by auto
  from scan [OF this] show "is_ok (GetByStatus L e s t)"
    using e by (auto simp: GetByStatus_def execSelect_def scanOps_def quiet_def)
qed

lemma queries_no_Panic:
  "GetPending L e limit t \<noteq> Panic m" "GetByStatus L e s t \<noteq> Panic m"
  by (simp_all add: GetPending_def GetByStatus_def split: sum.splits)

lemma GetByHash_view:
  assumes L: "ethlib_ok L" and t: "table_inv L t" and e: "quiet e" and h: "length h = 32"
  shows "GetByHash L e h t = (case tableView L t h of Some op \<Rightarrow> Ok op | None \<Rightarrow> Err errNoRows)"
proof (cases "filter (\<lambda>r. c_hash r = HashHex L h) t")
  case Nil
  then have "find (\<lambda>r. c_hash r = HashHex L h) t = None" by (simp add: find_None_iff filter_empty_conv)
  with Nil e h show ?thesis by (simp add: GetByHash_def scanOp_def execSelect_def quiet_def tableView_def)
next
  case (Cons r rs)
  then have r: "r \<in> set t" "c_hash r = HashHex L h" by (auto simp: filter_eq_Cons_iff)
  then obtain op where op: "hydrateOp L r = Ok op"
    using inv_hydrates [OF t] by blast
  have "tableView L t h = Some op"
    using r op row_of_hash_unique [OF L t h r(1) op] by (auto simp: tableView_iff [OF L t])
  with Cons op e show ?thesis by (simp add: GetByHash_def scanOp_def execSelect_def quiet_def)
qed

lemma filter_key_unique:
  "distinct (map f t) \<Longrightarrow> r \<in> set t \<Longrightarrow> filter (\<lambda>q. f q = f r \<and> P q) t = (if P r then [r] else [])"
proof (induction t)
  case (Cons a t)
  then show ?case by (cases "a = r") (auto simp: filter_empty_conv image_iff)
qed simp

lemma GetConfirmedByHash_view:
  assumes L: "ethlib_ok L" and t: "table_inv L t" and e: "quiet e" and h: "length h = 32" and v: "tableView L t h = Some op"
  shows "GetConfirmedByHash L e h t = (if OpStatus op = StatusConfirmed then Ok op else Err errNoRows)"
proof -
  obtain r where r: "r \<in> set t" "hydrateOp L r = Ok op" "c_hash r = HashHex L h"
    using v h by (auto simp: tableView_def find_Some_iff intro: nth_mem split: option.splits res.splits if_splits)
  have "distinct (map c_hash t)" by (rule distinct_hashes [OF t])
  then have "filter (\<lambda>q. c_hash q = HashHex L h \<and> c_status q = StatusConfirmed) t = (if c_status r = StatusConfirmed then [r] else [])"
    using filter_key_unique [OF _ r(1), of c_hash "\<lambda>q. c_status q = StatusConfirmed"] by (simp add: r(3))
  moreover have "OpStatus op = c_status r" using r(2) by (auto simp: hydrateOp_def Let_def split: res.splits option.splits)
  ultimately show ?thesis
    using e r(2) by (simp add: GetConfirmedByHash_def scanOp_def execSelect_def quiet_def)
qed

section \<open>Bulk statements\<close>

lemma matches_status:
  "matches L t (\<lambda>r. c_status r = s) (\<lambda>op. OpStatus op = s)"
  "matches L t (\<lambda>r. c_status r = s \<and> c_received_at r < k) (\<lambda>op. OpStatus op = s \<and> ReceivedAt op < k)"
  "matches L t (\<lambda>r. \<not> (c_status r \<in> {StatusConfirmed, StatusFailed, StatusReplaced} \<and> c_updated_at r < k))
     (\<lambda>op. \<not> (IsTerminal (OpStatus op) \<and> UpdatedAt op < k))"
  by (auto simp: matches_def hydrateOp_OkD IsTerminal_def)

lemma ResetBundlingToPending_ok:
  assumes L: "ethlib_ok L" and t: "table_inv L t" and r: "ResetBundlingToPending e t = (Ok n, t')"
  shows "table_inv L t' \<and> tableView L t' = (\<lambda>h. map_option (\<lambda>op. if OpStatus op = StatusBundling
            then applyUpdate (clock e) StatusPending None op else op) (tableView L t h))"
proof -
  from r obtain m where
    exec: "execUpdate e 0 (\<lambda>r. c_status r = StatusBundling)
             (\<lambda>r. r\<lparr>c_status := StatusPending, c_updated_at := clock e\<rparr>) t = Inr (m, t')"
    by (auto simp: ResetBundlingToPending_def split: sum.splits)
  note res = execUpdate_view [OF L t setStatus_keys(1) lifts_setStatus(1) [OF L] matches_status(1) exec]
  from res(1,3) show ?thesis by blast
qed

lemma ResetBundlingToPending_progress:
  assumes "table_inv L t" "quiet e" shows "is_ok (fst (ResetBundlingToPending e t))"
  unfolding ResetBundlingToPending_def
  by (subst execUpdate_quiet [OF assms(2,1) setStatus_keys(1)]) (auto simp: inIndex_def)

lemma MarkTtlExpired_ok:
  assumes L: "ethlib_ok L" and t: "table_inv L t" and r: "MarkTtlExpired e cutoff t = (Ok n, t')"
  shows "table_inv L t' \<and> tableView L t' = (\<lambda>h. map_option (\<lambda>op. if OpStatus op = StatusPending \<and> ReceivedAt op < cutoff
            then applyUpdate (clock e) StatusFailed (Some (noExtra\<lparr>x_RevertReason := Some ''ttl_expired''\<rparr>)) op
            else op) (tableView L t h))"
proof -
  from r obtain m where
    exec: "execUpdate e 0 (\<lambda>r. c_status r = StatusPending \<and> c_received_at r < cutoff)
             (\<lambda>r. r\<lparr>c_status := StatusFailed, c_revert_reason := Some ''ttl_expired'',
                     c_updated_at := clock e\<rparr>) t = Inr (m, t')"
    by (auto simp: MarkTtlExpired_def split: sum.splits)
  note res = execUpdate_view [OF L t setStatus_keys(2) lifts_setStatus(2) [OF L] matches_status(2) exec]
  from res(1,3) show ?thesis by blast
qed

lemma MarkTtlExpired_progress:
  assumes "table_inv L t" "quiet e" shows "is_ok (fst (MarkTtlExpired e cutoff t))"
  unfolding MarkTtlExpired_def
  by (subst execUpdate_quiet [OF assms(2,1) setStatus_keys(2)]) (auto simp: inIndex_def)

lemma PruneHistory_ok:
  assumes L: "ethlib_ok L" and t: "table_inv L t" and r: "PruneHistory e cutoff t = (Ok n, t')"
  shows "table_inv L t' \<and> tableView L t' = (\<lambda>h. case tableView L t h of None \<Rightarrow> None
            | Some op \<Rightarrow> if IsTerminal (OpStatus op) \<and> UpdatedAt op < cutoff then None else Some op)"
proof -
  from r have t': "t' = filter (\<lambda>r. \<not> (c_status r \<in> {StatusConfirmed, StatusFailed, StatusReplaced} \<and> c_updated_at r < cutoff)) t"
    by (auto simp: PruneHistory_def execDelete_def split: option.splits)
  note res = tableView_filter [OF L t matches_status(3) [where k = cutoff]]
  have "(case v of None \<Rightarrow> None | Some op \<Rightarrow> if \<not> (IsTerminal (OpStatus op) \<and> UpdatedAt op < cutoff) then Some op else None) =
      (case v of None \<Rightarrow> None | Some op \<Rightarrow> if IsTerminal (OpStatus op) \<and> UpdatedAt op < cutoff then None else Some op)"
    for v :: "StoredOp option"
    by (simp split: option.splits)
  with res show ?thesis unfolding t' by presburger
qed

lemma bulk_err:
  "ResetBundlingToPending e t = (Err er, t') \<Longrightarrow> t' = t"
  "MarkTtlExpired e k t = (Err er, t') \<Longrightarrow> t' = t"
  "PruneHistory e k t = (Err er, t') \<Longrightarrow> t' = t"
  by (auto simp: ResetBundlingToPending_def MarkTtlExpired_def PruneHistory_def split: sum.splits)

section \<open>The contract holds\<close>

lemma Insert_ok:
  assumes L: "ethlib_ok L" and t: "table_inv L t" and p: "wf_op p" "length h = 32"
    and i: "Insert L e p h t = (Ok (), t')"
  shows "table_inv L t' \<and> tableView L t h = None \<and>
    tableView L t' = (tableView L t)(h \<mapsto> freshOp (clock e) p h)"
proof -
  from i have t': "t' = t @ [newRow L (clock e) p h]" and ok: "constraintsOk (t @ [newRow L (clock e) p h])"
    by (auto simp: Insert_def execInsert_def split: option.splits if_splits)
  show ?thesis
    unfolding t' using tableView_snoc [OF L t p ok] table_inv_snoc [OF L t p] ok by simp
qed

lemma Insert_progress:
  assumes "ethlib_ok L" "table_inv L t" "quiet e" "wf_op p" "length h = 32" "tableView L t h = None"
    "\<forall>h' op. tableView L t h' = Some op \<longrightarrow> Sender op = Sender p \<longrightarrow> Nonce op = Nonce p \<longrightarrow> IsTerminal (OpStatus op)"
  shows "fst (Insert L e p h t) = Ok ()"
  using constraintsOk_snocI [OF assms(1,2,4,5,6), of "clock e"] assms(3,7)
  by (simp add: Insert_def execInsert_def quiet_def)

lemma sqlite_repository:
  assumes L: "ethlib_ok L"
  shows "repository (sqliteRepo L) (tableView L) (table_inv L) clock quiet"
  by (unfold_locales; (simp only: sqliteRepo_def Repository.simps)?)
     ((rule tableView_Hash [OF L] Insert_ok [OF L] UpdateStatus_ok [OF L] UpdateStatus_progress [OF L]
         GetPending_ok [OF L] GetByStatus_ok [OF L] ResetBundlingToPending_ok [OF L] MarkTtlExpired_ok [OF L]
         PruneHistory_ok [OF L] Insert_progress [OF L] unique_active [OF L]
         ClaimForBundling_ok [OF L, unfolded claimView_def] ClaimForBundling_progress [OF L]
         queries_progress ResetBundlingToPending_progress queries_no_Panic
         UpdateStatus_no_Panic ClaimForBundling_no_Panic;
       assumption)
      | (erule UpdateStatus_err ClaimForBundling_err bulk_err)
      | (auto simp: Insert_def ResetBundlingToPending_def MarkTtlExpired_def PruneHistory_def split: sum.splits if_splits; fail))+

text \<open>
  Over any library that meets its documentation, the SQLite repository is a \<open>repository\<close>; the
  concrete library of \<open>Ethereum\<close> is one.
\<close>

locale eth_library =
  fixes L :: ethlib
  assumes L_ok: "ethlib_ok L"

sublocale eth_library \<subseteq> sqlite: repository "sqliteRepo L" "tableView L" "table_inv L" clock quiet
  by (rule sqlite_repository [OF L_ok])

interpretation hexEth: eth_library hexLib
  by unfold_locales simp

end
