(* ===== verification/MempoolProps.thy ===== *)
theory MempoolProps
  imports MempoolRepo
begin

text \<open>
  The properties of the mempool: insertion and lookup, the uniqueness of the active operation of a
  nonce, the atomic claim, the order of the pending queue, replacement, and one tick of the pruner.
\<close>

section \<open>A sample table\<close>

definition sampleEnv :: dbenv where
  "sampleEnv = \<lparr>clock = 1000, fault = (\<lambda>_. None)\<rparr>"

definition sampleHash :: "byte \<Rightarrow> hash" where
  "sampleHash b = replicate 31 0 @ [b]"

definition plainOp :: "byte \<Rightarrow> int \<Rightarrow> PackedUserOp" where
  "plainOp b n = \<lparr>Sender = replicate 20 b, Nonce = n, InitCode = [], CallData = [1, 2, 3],
     AccountGasLimits = PackBigInts (Some 100000) (Some 50000), PreVerificationGas = 21000,
     GasFees = PackBigInts (Some 1) (Some 2), PaymasterAndData = [], Signature = [9]\<rparr>"

lemma sampleEnv_quiet [simp]: "quiet sampleEnv" "fault sampleEnv k = None" "clock sampleEnv = 1000"
  by (simp_all add: quiet_def sampleEnv_def)

lemma length_sampleHash [simp]: "length (sampleHash b) = 32"
  by (simp add: sampleHash_def)

lemma sampleHash_inject [simp]: "sampleHash a = sampleHash b \<longleftrightarrow> a = b"
  by (simp add: sampleHash_def)

lemma plainOp_wf [simp]: "wf_op (plainOp b n)"
  by (simp add: plainOp_def wf_op_def)

lemma plainOp_key [simp]: "Sender (plainOp b n) = replicate 20 b" "Nonce (plainOp b n) = n"
  by (simp_all add: plainOp_def)

lemma empty_table [simp]: "table_inv L []" "tableView L [] = (\<lambda>_. None)"
  by (auto simp: table_inv_def constraintsOk_def tableView_def)

text \<open>The table after one insertion, and after two.\<close>

definition table1 :: table where
  "table1 = snd (Insert hexLib sampleEnv (plainOp 7 3) (sampleHash 1) [])"

lemma Insert_empty: "Insert hexLib sampleEnv (plainOp 7 3) (sampleHash 1) [] = (Ok (), table1)"
  using Insert_progress [of hexLib "[]" sampleEnv "plainOp 7 3" "sampleHash 1"]
  by (simp add: table1_def prod_eq_iff)

lemma table1_view:
  "table_inv hexLib table1" "tableView hexLib table1 = [sampleHash 1 \<mapsto> freshOp 1000 (plainOp 7 3) (sampleHash 1)]"
  using Insert_ok [OF hexLib_ok _ _ _ Insert_empty] by auto

lemma table1_pending:
  "GetPending hexLib sampleEnv 10 table1 = Ok [freshOp 1000 (plainOp 7 3) (sampleHash 1)]"
proof -
  let ?op = "freshOp 1000 (plainOp 7 3) (sampleHash 1)"
  obtain ops where ops: "GetPending hexLib sampleEnv 10 table1 = Ok ops"
    using queries_progress(1) [OF table1_view(1) sampleEnv_quiet(1), of 10] by (auto simp: is_ok_iff)
  note p = GetPending_ok [OF hexLib_ok table1_view(1) ops]
  have sub: "set ops \<subseteq> {?op}" using p by (auto simp: table1_view split: if_splits)
  have "distinct ops" using p by (simp add: distinct_map)
  then have short: "length ops \<le> 1" using sub card_mono [OF _ sub] by (simp add: distinct_card)
  have "?op \<in> set ops" using p short by (force simp: table1_view)
  with sub short have "ops = [?op]" by (cases ops) auto
  with ops show ?thesis by simp
qed

section \<open>Insert\<close>

text \<open>
C29: when the database does not fail, an operation is accepted exactly when its hash is new and no
operation of the same sender and nonce is active; otherwise the call reports the duplicate and the
table is unchanged.
\<close>

theorem insert_accepts_iff:
  assumes L: "ethlib_ok L" and t: "table_inv L t" and p: "wf_op p" "length h = 32" and e: "quiet e"
  shows "if tableView L t h = None \<and> (\<forall>h' op. tableView L t h' = Some op \<longrightarrow> Sender op = Sender p \<longrightarrow>
              Nonce op = Nonce p \<longrightarrow> IsTerminal (OpStatus op))
         then fst (Insert L e p h t) = Ok ()
         else Insert L e p h t = (Err (ErrText ''duplicate sender+nonce: op already exists in mempool''), t)"
proof (cases "fst (Insert L e p h t) = Ok ()")
  case True
  then obtain t' where i: "Insert L e p h t = (Ok (), t')" by (metis prod.collapse)
  note ok = Insert_ok [OF L t p i]
  have "IsTerminal (OpStatus op)"
    if op: "tableView L t h' = Some op" "Sender op = Sender p" "Nonce op = Nonce p" for h' op
  proof (rule ccontr)
    assume act: "\<not> IsTerminal (OpStatus op)"
    have "h' \<noteq> h" using ok op by auto
    then have v': "tableView L t' h' = Some op" using ok op by simp
    have v: "tableView L t' h = Some (freshOp (clock e) p h)" using ok by simp
    have "h' = h"
      by (rule unique_active [OF L _ v' v act]) (use ok op in simp_all)
    with \<open>h' \<noteq> h\<close> show False by simp
  qed
  with True ok show ?thesis by auto
next
  case False
  then have "Insert L e p h t = (Err (ErrText ''duplicate sender+nonce: op already exists in mempool''), t)"
    using e by (auto simp: Insert_def execInsert_def quiet_def uniqueError_def hasPrefix_def split: if_splits)
  with False Insert_progress [OF L t e p] show ?thesis by auto
qed

theorem insert_accepts_iff_witness:
  "Insert hexLib sampleEnv (plainOp 7 3) (sampleHash 2) table1 =
     (Err (ErrText ''duplicate sender+nonce: op already exists in mempool''), table1)"
  using insert_accepts_iff [OF hexLib_ok table1_view(1) plainOp_wf length_sampleHash sampleEnv_quiet(1),
      of 2 7 3]
  by (auto simp: table1_view(2) split: if_splits)

section \<open>Claiming\<close>

text \<open>
C9: claiming a batch is all or nothing. When the database does not fail, it succeeds exactly when the
hashes are distinct and all pending, and then exactly these operations become bundling; whatever
error it returns, also a failure of a statement or of the commit, no operation has changed.
\<close>

theorem claim_all_or_nothing:
  assumes L: "ethlib_ok L" and t: "table_inv L t" and h: "\<forall>h \<in> set hs. length h = 32"
  shows "case ClaimForBundling L e hs t of
      (Ok _, t') \<Rightarrow> table_inv L t' \<and> distinct hs \<and> (\<forall>h \<in> set hs. pendingIn (tableView L t) h) \<and>
        tableView L t' = claimView (clock e) (set hs) (tableView L t)
    | (Err _, t') \<Rightarrow> t' = t \<and> (quiet e \<longrightarrow> \<not> (distinct hs \<and> (\<forall>h \<in> set hs. pendingIn (tableView L t) h)))
    | (Panic _, _) \<Rightarrow> False"
proof (cases "ClaimForBundling L e hs t")
  case (Pair r t')
  then show ?thesis
    using ClaimForBundling_ok [OF L t h, of e t'] ClaimForBundling_err [of L e hs t]
      ClaimForBundling_progress [OF L _ t, of e hs] ClaimForBundling_no_Panic [of L e hs t]
    by (cases r) (auto simp: Pair)
qed

theorem claim_all_or_nothing_witness:
  "snd (ClaimForBundling hexLib sampleEnv [sampleHash 1, sampleHash 2] table1) = table1 \<and>
   tableView hexLib (snd (ClaimForBundling hexLib sampleEnv [sampleHash 1] table1)) =
     claimView 1000 {sampleHash 1} (tableView hexLib table1)"
proof -
  have "distinct [sampleHash 1]" "\<forall>h \<in> set [sampleHash 1]. pendingIn (tableView hexLib table1) h"
    by (simp_all add: table1_view)
  moreover have "\<not> (\<forall>h \<in> set [sampleHash 1, sampleHash 2]. pendingIn (tableView hexLib table1) h)"
    by (simp add: table1_view)
  ultimately show ?thesis
    using claim_all_or_nothing [OF hexLib_ok table1_view(1), of "[sampleHash 1]" sampleEnv]
      claim_all_or_nothing [OF hexLib_ok table1_view(1), of "[sampleHash 1, sampleHash 2]" sampleEnv]
    by (auto split: prod.splits res.splits)
qed

section \<open>The pending queue\<close>

text \<open>
\<open>GetPending\<close> answers only pending operations, each once and oldest first, never more than a
non-negative limit; an operation it leaves out was received no earlier than all it returns, and
only a full answer leaves one out. A negative limit returns every pending operation.
\<close>

theorem GetPending_fifo:
  assumes "ethlib_ok L" "table_inv L t" "quiet e"
  shows "\<exists>ops. GetPending L e limit t = Ok ops \<and> distinct (map Hash ops) \<and> sorted (map ReceivedAt ops) \<and>
    (\<forall>op \<in> set ops. tableView L t (Hash op) = Some op \<and> OpStatus op = StatusPending) \<and>
    (0 \<le> limit \<longrightarrow> int (length ops) \<le> limit) \<and>
    (\<forall>h op. tableView L t h = Some op \<longrightarrow> OpStatus op = StatusPending \<longrightarrow> op \<notin> set ops \<longrightarrow>
       0 \<le> limit \<and> int (length ops) = limit \<and> (\<forall>q \<in> set ops. ReceivedAt q \<le> ReceivedAt op))"
proof -
  obtain ops where ops: "GetPending L e limit t = Ok ops"
    using queries_progress(1) [OF assms(2,3), of limit] by (auto simp: is_ok_iff)
  show ?thesis
    by (rule exI [of _ ops]) (use ops GetPending_ok [OF assms(1,2) ops] in blast)
qed

theorem GetPending_fifo_witness:
  "GetPending hexLib sampleEnv 5 table1 = Ok [freshOp 1000 (plainOp 7 3) (sampleHash 1)]"
proof -
  let ?op = "freshOp 1000 (plainOp 7 3) (sampleHash 1)"
  obtain ops where ops: "GetPending hexLib sampleEnv 5 table1 = Ok ops" "distinct (map Hash ops)"
    "\<forall>op \<in> set ops. tableView hexLib table1 (Hash op) = Some op"
    "\<forall>h op. tableView hexLib table1 h = Some op \<longrightarrow> OpStatus op = StatusPending \<longrightarrow> op \<notin> set ops \<longrightarrow> int (length ops) = 5"
    using GetPending_fifo [OF hexLib_ok table1_view(1) sampleEnv_quiet(1), of 5] by blast
  have sub: "set ops \<subseteq> {?op}" using ops(3) by (auto simp: table1_view split: if_splits)
  have "distinct ops" using ops(2) by (simp add: distinct_map)
  then have "length ops \<le> 1" using sub by (metis card_mono card.empty card.insert distinct_card
        empty_iff finite.intros One_nat_def)
  moreover have "?op \<in> set ops" using ops(4) calculation by (force simp: table1_view)
  ultimately have "ops = [?op]" using sub by (cases ops) auto
  with ops(1) show ?thesis by simp
qed

section \<open>Replacement\<close>

text \<open>
A replacement retires a pending operation and inserts the new one in one transaction: on success
the old one is replaced and the new one pending, and on any error nothing has changed. It never
succeeds on an operation that is not pending.
\<close>

theorem replace_atomic:
  assumes L: "ethlib_ok L" and t: "table_inv L t" and old: "length old = 32" and new: "wf_op p" "length h = 32"
  shows "case Replace L e old p h t of
      (Ok _, t') \<Rightarrow> \<exists>op. tableView L t old = Some op \<and> OpStatus op = StatusPending \<and> h \<noteq> old \<and>
        table_inv L t' \<and> tableView L t' = (tableView L t)
          (old \<mapsto> applyUpdate (clock e) StatusReplaced None op, h \<mapsto> freshOp (clock e) p h)
    | (_, t') \<Rightarrow> t' = t"
proof (cases "Replace L e old p h t")
  case (Pair r t')
  show ?thesis
  proof (cases "r = Ok ()")
    case False
    have "fst (Replace L e old p h t) \<noteq> Ok () \<Longrightarrow> snd (Replace L e old p h t) = t"
      by (auto simp: Replace_def split: option.splits sum.splits list.splits if_splits prod.splits)
    with False Pair show ?thesis by (cases r) auto
  next
    case True
    with Pair obtain q qs n t1 where q: "filter (\<lambda>r. c_hash r = HashHex L old) t = q # qs" "c_status q = StatusPending"
      and upd: "execUpdate e 2 (\<lambda>r. c_hash r = HashHex L old)
             (\<lambda>r. r\<lparr>c_status := StatusReplaced, c_updated_at := clock e\<rparr>) t = Inr (n, t1)"
      and ins: "execInsert e 3 (newRow L (clock e) p h) t1 = Inr t'"
      by (auto simp: Replace_def execSelect_def split: option.splits sum.splits list.splits if_splits prod.splits)
    from q(1) have qt: "q \<in> set t" "c_hash q = HashHex L old" by (auto simp: filter_eq_Cons_iff)
    obtain op where op: "hydrateOp L q = Ok op" using inv_hydrates [OF t qt(1)] by blast
    then have v: "tableView L t old = Some op" "OpStatus op = StatusPending"
      using qt q(2) row_of_hash_unique [OF L t old qt(1) op]
      by (auto simp: tableView_iff [OF L t] hydrateOp_OkD)
    note u = execUpdate_view [OF L t setStatus_keys(1) lifts_setStatus(1) [OF L] matches_hash [OF L t old] upd]
    have v1: "tableView L t1 = (tableView L t)(old \<mapsto> applyUpdate (clock e) StatusReplaced None op)"
      unfolding u(3) by (rule tableView_point [OF L t v(1)])
    from ins have t': "t' = t1 @ [newRow L (clock e) p h]" and ok: "constraintsOk (t1 @ [newRow L (clock e) p h])"
      by (auto simp: execInsert_def split: option.splits if_splits)
    note s = tableView_snoc [OF L u(1) new ok]
    have "table_inv L t'" unfolding t' using table_inv_snoc [OF L u(1) new] ok by blast
    moreover have "h \<noteq> old" using s(1) by (auto simp: v1)
    ultimately show ?thesis using s(2) v v1 by (simp add: Pair True t')
  qed
qed

theorem replace_atomic_witness:
  "case Replace hexLib sampleEnv (sampleHash 5) (plainOp 7 3) (sampleHash 2) table1 of
     (Ok _, t') \<Rightarrow> False | (_, t') \<Rightarrow> t' = table1"
  using replace_atomic [OF hexLib_ok table1_view(1) length_sampleHash [of 5] plainOp_wf length_sampleHash [of 2],
      of sampleEnv 7 3]
  by (auto simp: table1_view split: prod.splits res.splits)

section \<open>The pruner\<close>

definition expireOp :: "int \<Rightarrow> int \<Rightarrow> StoredOp \<Rightarrow> StoredOp" where
  "expireOp cutoff now op =
     (if OpStatus op = StatusPending \<and> ReceivedAt op < cutoff
      then applyUpdate now StatusFailed (Some (noExtra\<lparr>x_RevertReason := Some ''ttl_expired''\<rparr>)) op
      else op)"

text \<open>
C32: a tick of the pruner runs two statements, each with its whole effect or, when it fails, with none; a
statement on a working database does not fail. The first fails exactly the pending operations older than their time
to live, with reason \<open>ttl_expired\<close>; the second, also after a failure of the first, deletes exactly the
terminal ones last changed before the retention period (among them expired ones). Bundling and submitted
operations are left alone.
\<close>

theorem pruner_tick_effect:
  assumes L: "ethlib_ok L" and t: "table_inv L t"
  shows "table_inv L (prunerTick (sqliteRepo L) p now1 e1 now2 e2 t) \<and>
    (\<exists>expired deleted. (quiet e1 \<longrightarrow> expired) \<and> (quiet e2 \<longrightarrow> deleted) \<and>
      (\<forall>h. tableView L (prunerTick (sqliteRepo L) p now1 e1 now2 e2 t) h =
        (case tableView L t h of None \<Rightarrow> None
         | Some op \<Rightarrow>
             let op' = (if expired then expireOp (wrap64 (now1 - pendingTtlMs p)) (clock e1) op else op) in
             if deleted \<and> IsTerminal (OpStatus op') \<and> UpdatedAt op' < wrap64 (now2 - retentionMs p) then None else Some op')))"
proof -
  let ?c1 = "wrap64 (now1 - pendingTtlMs p)" and ?c2 = "wrap64 (now2 - retentionMs p)"
  obtain r1 t1 r2 t2 where m: "MarkTtlExpired e1 ?c1 t = (r1, t1)" and d: "PruneHistory e2 ?c2 t1 = (r2, t2)"
    by (metis surj_pair)
  have tick: "prunerTick (sqliteRepo L) p now1 e1 now2 e2 t = t2"
    by (simp add: prunerTick_def sqliteRepo_def Let_def m d)
  have v1: "table_inv L t1 \<and> (\<forall>h. tableView L t1 h =
      (if is_ok r1 then map_option (expireOp ?c1 (clock e1)) (tableView L t h) else tableView L t h))"
  proof (cases r1)
    case (Ok n)
    from MarkTtlExpired_ok [OF L t m [unfolded Ok]] Ok show ?thesis by (simp add: expireOp_def [abs_def])
  next
    case (Err er)
    then have "t1 = t" using bulk_err(2) m by blast
    with t Err show ?thesis by simp
  qed (use m in \<open>auto simp: MarkTtlExpired_def split: sum.splits\<close>)
  have v2: "table_inv L t2 \<and> (\<forall>h. tableView L t2 h = (case tableView L t1 h of None \<Rightarrow> None
      | Some op \<Rightarrow> if is_ok r2 \<and> IsTerminal (OpStatus op) \<and> UpdatedAt op < ?c2 then None else Some op))"
  proof (cases r2)
    case (Ok n)
    have "is_ok r2" by (simp add: Ok)
    moreover have "table_inv L t1" using v1 by blast
    note PruneHistory_ok [OF L this d [unfolded Ok]]
    ultimately show ?thesis by presburger
  next
    case (Err er)
    then have "t2 = t1" using bulk_err(3) d by blast
    with v1 Err show ?thesis by (auto split: option.split)
  qed (use d in \<open>auto simp: PruneHistory_def split: sum.splits\<close>)
  have "quiet e1 \<longrightarrow> is_ok r1" using MarkTtlExpired_progress [OF t, of e1 ?c1] m by simp
  moreover have "quiet e2 \<longrightarrow> is_ok r2" using d by (auto simp: PruneHistory_def execDelete_def quiet_def)
  moreover have "tableView L t2 h = (case tableView L t h of None \<Rightarrow> None
         | Some op \<Rightarrow> let op' = (if is_ok r1 then expireOp ?c1 (clock e1) op else op) in
             if is_ok r2 \<and> IsTerminal (OpStatus op') \<and> UpdatedAt op' < ?c2 then None else Some op')" for h
    by (cases "tableView L t h") (simp_all add: v1 v2 Let_def)
  ultimately show ?thesis unfolding tick using v2 by blast
qed

theorem pruner_tick_effect_witness:
  "tableView hexLib (prunerTick (sqliteRepo hexLib) \<lparr>pendingTtlMs = 500, retentionMs = 5000\<rparr>
       2000 (sampleEnv\<lparr>clock := 2000\<rparr>) 2000 (sampleEnv\<lparr>clock := 2000\<rparr>) table1) (sampleHash 1) =
     Some (applyUpdate 2000 StatusFailed (Some (noExtra\<lparr>x_RevertReason := Some ''ttl_expired''\<rparr>))
       (freshOp 1000 (plainOp 7 3) (sampleHash 1)))"
proof -
  have "quiet (sampleEnv\<lparr>clock := 2000\<rparr>)" by (simp add: quiet_def sampleEnv_def)
  with pruner_tick_effect [OF hexLib_ok table1_view(1),
      of "\<lparr>pendingTtlMs = 500, retentionMs = 5000\<rparr>" 2000 "sampleEnv\<lparr>clock := 2000\<rparr>" 2000 "sampleEnv\<lparr>clock := 2000\<rparr>"]
  show ?thesis by (auto simp: table1_view wrap64_def expireOp_def)
qed

end
