(* ===== verification/Receipts.thy ===== *)
theory Receipts
  imports MempoolProps AbiSpec
begin

text \<open>
  \<open>internal/bundler/receipt.go\<close>: the outcomes of the operations of a mined bundle, read from
  the event logs of the entry point, and the handling of a reverted bundle. A Go map of outcomes is a
  partial map; a log whose length word makes a slice bound negative panics. The receipt of a mined
  transaction has a block number, as the JSON-RPC interface of nodes documents; a receipt without one, on which
  \<open>BlockNumber.Uint64()\<close> would panic, is not represented.
\<close>

record Log =
  logAddress :: address
  logTopics :: "hash list"
  logData :: bytes

record Receipt =
  rcStatus :: uint64
  rcLogs :: "Log list"
  rcBlockNumber :: int

record OpOutcome =
  o_Success :: bool
  o_ActualGasCost :: "int option"
  o_RevertReason :: "string option"

type_synonym outcomes = "hash \<Rightarrow> OpOutcome option"

definition userOperationEventTopic :: "ethlib \<Rightarrow> hash" where
  "userOperationEventTopic L = BytesToHash L (Keccak256 L
     [stringBytes ''UserOperationEvent(bytes32,address,address,uint256,bool,uint256,uint256)''])"

definition userOperationRevertReasonTopic :: "ethlib \<Rightarrow> hash" where
  "userOperationRevertReasonTopic L = BytesToHash L (Keccak256 L
     [stringBytes ''UserOperationRevertReason(bytes32,address,uint256,bytes)''])"

definition failedOpSelector :: "ethlib \<Rightarrow> bytes" where
  "failedOpSelector L = take 4 (Keccak256 L [stringBytes ''FailedOp(uint256,string)''])"

section \<open>Parsing a receipt\<close>

definition parseEvent :: "Log \<Rightarrow> outcomes \<Rightarrow> outcomes" where
  "parseEvent log outcomes =
     (if length (logTopics log) < 2 then outcomes
      else let h = logTopics log ! 1 in
      if length (logData log) < 96 then outcomes
      else
        let success = (logData log ! 63 = 1);
            gasCost = SetBytes (slice 64 96 (logData log))
        in outcomes(h \<mapsto> \<lparr>o_Success = success, o_ActualGasCost = Some gasCost, o_RevertReason = None\<rparr>))"

definition parseRevertReason :: "Log \<Rightarrow> outcomes \<Rightarrow> outcomes res" where
  "parseRevertReason log outcomes =
     (if length (logTopics log) < 2 then Ok outcomes
      else let h = logTopics log ! 1 in
      if length (logData log) < 96 then Ok outcomes
      else
        let reasonLen = Int64 (SetBytes (slice 64 96 (logData log)));
            reasonEnd0 = wrap64 (96 + reasonLen);
            reasonEnd = (if reasonEnd0 > int (length (logData log)) then int (length (logData log)) else reasonEnd0)
        in bind_res (goSlice 96 reasonEnd (logData log)) (\<lambda>b.
           let reason = bytesString b in
           case outcomes h of
             Some oc \<Rightarrow> Ok (outcomes(h \<mapsto> oc\<lparr>o_RevertReason := Some reason\<rparr>))
           | None \<Rightarrow> Ok (outcomes(h \<mapsto>
               \<lparr>o_Success = False, o_ActualGasCost = None, o_RevertReason = Some reason\<rparr>))))"

definition parseLog :: "ethlib \<Rightarrow> address \<Rightarrow> Log \<Rightarrow> outcomes \<Rightarrow> outcomes res" where
  "parseLog L entryPoint log outcomes =
     (if logAddress log \<noteq> entryPoint then Ok outcomes
      else if length (logTopics log) = 0 then Ok outcomes
      else if logTopics log ! 0 = userOperationEventTopic L then Ok (parseEvent log outcomes)
      else if logTopics log ! 0 = userOperationRevertReasonTopic L then parseRevertReason log outcomes
      else Ok outcomes)"

fun parseLogs :: "ethlib \<Rightarrow> address \<Rightarrow> Log list \<Rightarrow> outcomes \<Rightarrow> outcomes res" where
  "parseLogs L entryPoint [] outcomes = Ok outcomes"
| "parseLogs L entryPoint (log # logs) outcomes =
     bind_res (parseLog L entryPoint log outcomes) (parseLogs L entryPoint logs)"

definition ParseHandleOpsReceipt :: "ethlib \<Rightarrow> Receipt \<Rightarrow> address \<Rightarrow> outcomes res" where
  "ParseHandleOpsReceipt L receipt entryPoint = parseLogs L entryPoint (rcLogs receipt) (\<lambda>_. None)"

section \<open>A reverted bundle\<close>

definition DecodeFailedOp :: "bytes \<Rightarrow> (int \<times> string) res" where
  "DecodeFailedOp data =
     (if length data < 4 + 32 then Ok (0, ''unknown'')
      else let opIndex = Int64 (SetBytes (slice 4 (4 + 32) data)) in
      if length data < 4 + 32 + 32 then Ok (opIndex, ''unknown'')
      else
        let offset = Int64 (SetBytes (slice (4 + 32) (4 + 64) data));
            strStart = wrap64 (4 + offset)
        in if int (length data) < wrap64 (strStart + 32) then Ok (opIndex, ''unknown'')
        else bind_res (goSlice strStart (wrap64 (strStart + 32)) data) (\<lambda>lenWord.
          let strLen = Int64 (SetBytes lenWord);
              strDataStart = wrap64 (strStart + 32);
              strDataEnd0 = wrap64 (strDataStart + strLen);
              strDataEnd = (if strDataEnd0 > int (length data) then int (length data) else strDataEnd0)
          in bind_res (goSlice strDataStart strDataEnd data) (\<lambda>b. Ok (opIndex, bytesString b))))"

text \<open>
  A loop that calls \<open>UpdateStatus\<close> for one operation after the other and goes on when a call
  fails (the errors are only logged, or dropped). The k-th call of a handler has the environment
  \<open>es k\<close>; the result has the number of the next call.
\<close>

type_synonym statusUpdate = "hash \<times> Status \<times> StatusExtra option"

fun updateEach ::
    "('e, 'db) Repository \<Rightarrow> (nat \<Rightarrow> 'e) \<Rightarrow> nat \<Rightarrow> statusUpdate list \<Rightarrow> 'db \<Rightarrow> nat \<times> 'db" where
  "updateEach R es k [] db = (k, db)"
| "updateEach R es k ((h, s, x) # us) db = updateEach R es (Suc k) us (snd (rUpdateStatus R (es k) h s x db))"

definition reasonExtra :: "string \<Rightarrow> StatusExtra option" where
  "reasonExtra reason = Some (noExtra\<lparr>x_RevertReason := Some reason\<rparr>)"

definition resetUpdates :: "StoredOp list \<Rightarrow> statusUpdate list" where
  "resetUpdates ops = map (\<lambda>op. (Hash op, StatusPending, None)) ops"

definition failedOpUpdates :: "int \<Rightarrow> string \<Rightarrow> StoredOp list \<Rightarrow> statusUpdate list" where
  "failedOpUpdates opIndex reason ops =
     map (\<lambda>op. if BundleIndex op = Some opIndex then (Hash op, StatusFailed, reasonExtra reason)
               else (Hash op, StatusPending, None)) ops"

definition HandleBundleRevert ::
    "ethlib \<Rightarrow> ('e, 'db) Repository \<Rightarrow> (nat \<Rightarrow> 'e) \<Rightarrow> nat \<Rightarrow> bytes \<Rightarrow> StoredOp list \<Rightarrow> 'db \<Rightarrow> (nat \<times> 'db) res" where
  "HandleBundleRevert L R es k revertData ops db =
     (if length revertData \<ge> 4 \<and> take 4 revertData = failedOpSelector L
      then bind_res (DecodeFailedOp revertData) (\<lambda>(opIndex, reason).
             Ok (updateEach R es k (failedOpUpdates opIndex reason ops) db))
      else Ok (updateEach R es k (resetUpdates ops) db))"

section \<open>The events of the entry point\<close>

text \<open>
  The reference side: the events as the entry point emits them, in ABI form, and any other log. The
  indexed arguments after the hash are not read.
\<close>

datatype EPEvent =
    UserOperationEvent (evHash: hash) "hash list" int bool int int
  | UserOperationRevertReason (evHash: hash) "hash list" int string
  | OtherLog Log

definition boolWord :: "bool \<Rightarrow> bytes" where
  "boolWord b = abiUint (if b then 1 else 0)"

fun eventLog :: "ethlib \<Rightarrow> address \<Rightarrow> EPEvent \<Rightarrow> Log" where
  "eventLog L ep (UserOperationEvent h ts nonce ok cost used) =
     \<lparr>logAddress = ep, logTopics = userOperationEventTopic L # h # ts,
      logData = abiUint nonce @ boolWord ok @ abiUint cost @ abiUint used\<rparr>"
| "eventLog L ep (UserOperationRevertReason h ts nonce reason) =
     \<lparr>logAddress = ep, logTopics = userOperationRevertReasonTopic L # h # ts,
      logData = abiUint nonce @ abiUint 64 @ abiBytes (stringBytes reason)\<rparr>"
| "eventLog L ep (OtherLog log) = log"

fun validEvent :: "ethlib \<Rightarrow> address \<Rightarrow> EPEvent \<Rightarrow> bool" where
  "validEvent L ep (UserOperationEvent h ts nonce ok cost used) = (uint256 nonce \<and> uint256 cost)"
| "validEvent L ep (UserOperationRevertReason h ts nonce reason) = (uint256 nonce \<and> length reason < 2 ^ 60)"
| "validEvent L ep (OtherLog log) = (logAddress log \<noteq> ep \<or> logTopics log = [] \<or>
     hd (logTopics log) \<notin> {userOperationEventTopic L, userOperationRevertReasonTopic L})"

fun applyEvent :: "EPEvent \<Rightarrow> outcomes \<Rightarrow> outcomes" where
  "applyEvent (UserOperationEvent h ts nonce ok cost used) m =
     m(h \<mapsto> \<lparr>o_Success = ok, o_ActualGasCost = Some cost, o_RevertReason = None\<rparr>)"
| "applyEvent (UserOperationRevertReason h ts nonce reason) m =
     m(h \<mapsto> (case m h of
         Some oc \<Rightarrow> oc\<lparr>o_RevertReason := Some reason\<rparr>
       | None \<Rightarrow> \<lparr>o_Success = False, o_ActualGasCost = None, o_RevertReason = Some reason\<rparr>))"
| "applyEvent (OtherLog log) m = m"

lemma boolWord_simps [simp]: "length (boolWord b) = 32" "boolWord b ! 31 = (if b then 1 else 0)"
proof -
  show len: "length (boolWord b) = 32" by (simp add: boolWord_def uint256_def)
  have "replicate 32 (0::byte) = replicate 31 0 @ [0]"
    using replicate_add [of 31 1 "0::byte"] by simp
  then have "boolWord b = replicate 31 0 @ [if b then 1 else 0]"
    by (simp add: boolWord_def abiUint_def PadLeft32_def Bytes_def natBytes.simps copy_into_def)
  then show "boolWord b ! 31 = (if b then 1 else 0)" by (simp add: nth_append)
qed

lemma parseEvent_event:
  assumes "validEvent L ep (UserOperationEvent h ts nonce ok cost used)"
  shows "parseEvent (eventLog L ep (UserOperationEvent h ts nonce ok cost used)) m =
    applyEvent (UserOperationEvent h ts nonce ok cost used) m"
proof -
  let ?d = "abiUint nonce @ boolWord ok @ abiUint cost @ abiUint used"
  have len: "length (abiUint nonce) = 32" "length (abiUint cost) = 32" using assms by simp_all
  have "?d ! 63 = (if ok then 1 else 0)" using len by (simp add: nth_append)
  moreover have "SetBytes (slice 64 96 ?d) = cost"
    using len assms by (simp add: layout uint256_def)
  moreover have "96 \<le> length ?d" using len by simp
  ultimately show ?thesis by (simp add: parseEvent_def)
qed

lemma parseRevertReason_event:
  assumes "validEvent L ep (UserOperationRevertReason h ts nonce reason)"
  shows "parseRevertReason (eventLog L ep (UserOperationRevertReason h ts nonce reason)) m =
    Ok (applyEvent (UserOperationRevertReason h ts nonce reason) m)"
proof -
  let ?r = "stringBytes reason"
  let ?pad = "replicate (paddedLen (length ?r) - length ?r) 0 :: bytes"
  let ?d = "abiUint nonce @ abiUint 64 @ abiUint (int (length ?r)) @ ?r @ ?pad"
  have len: "length (abiUint nonce) = 32" "length (abiUint 64) = 32" "length (abiUint (int (length reason))) = 32"
    using assms length_abiUint [OF uint256_of_nat, of "length reason"] by simp_all
  have "SetBytes (slice 64 96 ?d) = int (length ?r)" using len by (simp add: layout)
  then have rl: "Int64 (SetBytes (slice 64 96 ?d)) = int (length ?r)" using assms by simp
  have re: "wrap64 (96 + int (length ?r)) = int (96 + length ?r)" using assms by simp
  have "goSlice (int 96) (int (96 + length ?r)) ?d = Ok (slice 96 (96 + length ?r) ?d)"
    using len by (intro goSlice_nat) simp_all
  also have "slice 96 (96 + length ?r) ?d = ?r" using len by (simp add: layout)
  finally have gs: "goSlice 96 (int (96 + length ?r)) ?d = Ok ?r" by simp
  have lend: "int (96 + length ?r) \<le> int (length ?d)" "96 \<le> length ?d" using len by simp_all
  define d where "d = ?d"
  have logd: "logData (eventLog L ep (UserOperationRevertReason h ts nonce reason)) = d"
    by (simp add: abiBytes_def d_def)
  show ?thesis
    unfolding parseRevertReason_def Let_def logd rl [folded d_def] re
    using lend [folded d_def] gs [folded d_def] by (simp split: option.split)
qed

lemma parseLog_event:
  assumes "validEvent L ep e" "userOperationEventTopic L \<noteq> userOperationRevertReasonTopic L"
  shows "parseLog L ep (eventLog L ep e) m = Ok (applyEvent e m)"
proof (cases e)
  case (UserOperationEvent h ts nonce ok cost used)
  then show ?thesis
    using parseEvent_event assms by (simp add: parseLog_def)
next
  case (UserOperationRevertReason h ts nonce reason)
  then show ?thesis
    using parseRevertReason_event assms by (simp add: parseLog_def)
next
  case (OtherLog log)
  then show ?thesis using assms by (cases "logTopics log") (auto simp: parseLog_def)
qed

lemma parseLogs_events:
  assumes "userOperationEventTopic L \<noteq> userOperationRevertReasonTopic L"
  shows "list_all (validEvent L ep) evs \<Longrightarrow> parseLogs L ep (map (eventLog L ep) evs) m = Ok (fold applyEvent evs m)"
  using assms by (induction evs arbitrary: m) (simp_all add: parseLog_event)

text \<open>What the outcome of one operation is after a sequence of events.\<close>

fun isOpEvent :: "hash \<Rightarrow> EPEvent \<Rightarrow> bool" where
  "isOpEvent h (UserOperationEvent h' _ _ _ _ _) = (h' = h)"
| "isOpEvent h _ = False"

fun reasonFor :: "hash \<Rightarrow> EPEvent \<Rightarrow> string option" where
  "reasonFor h (UserOperationRevertReason h' _ _ r) = (if h' = h then Some r else None)"
| "reasonFor h _ = None"

definition lastReason :: "hash \<Rightarrow> EPEvent list \<Rightarrow> string option" where
  "lastReason h evs = fold (\<lambda>e r. orElse (reasonFor h e) r) evs None"

lemma fold_after_event:
  "\<forall>e \<in> set evs. \<not> isOpEvent h e \<Longrightarrow> m h = Some oc \<Longrightarrow>
   fold applyEvent evs m h = Some (oc\<lparr>o_RevertReason := fold (\<lambda>e r. orElse (reasonFor h e) r) evs (o_RevertReason oc)\<rparr>)"
proof (induction evs arbitrary: m oc)
  case (Cons e evs)
  have "applyEvent e m h = Some (oc\<lparr>o_RevertReason := orElse (reasonFor h e) (o_RevertReason oc)\<rparr>)"
    using Cons.prems by (cases e) auto
  from Cons.IH [of "applyEvent e m", OF _ this] Cons.prems(1) show ?case by simp
qed simp

lemma fold_no_event:
  "\<forall>e \<in> set evs. \<not> isOpEvent h e \<and> reasonFor h e = None \<Longrightarrow> fold applyEvent evs m h = m h"
proof (induction evs arbitrary: m)
  case (Cons e evs)
  have "applyEvent e m h = m h" using Cons.prems by (cases e) (auto split: if_splits)
  with Cons show ?case by simp
qed simp

section \<open>Status loops over a repository\<close>

text \<open>Well-typed updates, and updates no constraint of the store rejects.\<close>

definition validUpdates :: "statusUpdate list \<Rightarrow> bool" where
  "validUpdates us \<longleftrightarrow> (\<forall>(h, s, x) \<in> set us. length h = 32 \<and> extra_ok x)"

definition allowedUpdates :: "view \<Rightarrow> statusUpdate list \<Rightarrow> bool" where
  "allowedUpdates v us \<longleftrightarrow> (\<forall>(h, s, x) \<in> set us. argsOk x \<and>
     (\<exists>op. v h = Some op \<and> (\<not> IsTerminal (OpStatus op) \<or> IsTerminal s)))"

lemma updateEach_count: "fst (updateEach R es k us db) = k + length us"
  by (induction R es k us db rule: updateEach.induct) simp_all

lemma updateEach_append:
  "updateEach R es k (us @ vs) db = (case updateEach R es k us db of (k', db') \<Rightarrow> updateEach R es k' vs db')"
  by (induction R es k us db rule: updateEach.induct) simp_all

context repository
begin

text \<open>Whatever fails, every operation is as before or has the update that was meant for it.\<close>

lemma updateEach_cases:
  "inv db \<Longrightarrow> validUpdates us \<Longrightarrow> distinct (map fst us) \<Longrightarrow>
    inv (snd (updateEach R es k us db)) \<and>
    (\<forall>h. view (snd (updateEach R es k us db)) h = view db h \<or>
       (\<exists>s x n op. (h, s, x) \<in> set us \<and> view db h = Some op \<and>
          view (snd (updateEach R es k us db)) h = Some (applyUpdate n s x op)))"
proof (induction us arbitrary: k db)
  case (Cons u us)
  obtain h s x where u: "u = (h, s, x)" by (metis prod_cases3)
  let ?db1 = "snd (rUpdateStatus R (es k) h s x db)"
  have hx: "length h = 32" "extra_ok x" and us: "validUpdates us" "distinct (map fst us)"
    and h: "\<And>s x. (h, s, x) \<notin> set us"
    using Cons.prems(2,3) by (force simp: u validUpdates_def)+
  have step: "inv ?db1" "\<And>h'. view ?db1 h' = view db h' \<or>
      h' = h \<and> (\<exists>op. view db h = Some op \<and> view ?db1 h = Some (applyUpdate (now (es k)) s x op))"
    by (rule update_cases [OF Cons.prems(1) hx, of "es k" s]; auto simp: Cons.prems(1))+
  let ?db2 = "snd (updateEach R es (Suc k) us ?db1)"
  have IH: "inv ?db2" "\<And>h'. view ?db2 h' = view ?db1 h' \<or>
      (\<exists>s x n op. (h', s, x) \<in> set us \<and> view ?db1 h' = Some op \<and> view ?db2 h' = Some (applyUpdate n s x op))"
    using Cons.IH [OF step(1) us, of "Suc k"] by blast+
  have "view ?db2 h' = view db h' \<or> (\<exists>s x n op. (h', s, x) \<in> set (u # us) \<and> view db h' = Some op \<and>
          view ?db2 h' = Some (applyUpdate n s x op))" for h'
  proof (cases "h' = h")
    case True
    have "view ?db2 h = view ?db1 h" using IH(2) [of h] h by blast
    with step(2) [of h] True show ?thesis by (metis list.set_intros(1) u)
  next
    case False
    then have "view ?db1 h' = view db h'" using step(2) [of h'] by blast
    with IH(2) [of h'] show ?thesis by (metis list.set_intros(2))
  qed
  with IH(1) show ?case by (simp only: u updateEach.simps) blast
qed simp

text \<open>When nothing fails and every update is allowed, every update takes effect.\<close>

lemma updateEach_all:
  "inv db \<Longrightarrow> validUpdates us \<Longrightarrow> distinct (map fst us) \<Longrightarrow> allowedUpdates (view db) us \<Longrightarrow> \<forall>i. quiet (es i) \<Longrightarrow>
    (h, s, x) \<in> set us \<Longrightarrow>
    \<exists>n op. view db h = Some op \<and> view (snd (updateEach R es k us db)) h = Some (applyUpdate n s x op)"
proof (induction us arbitrary: k db)
  case (Cons u us)
  obtain h0 s0 x0 where u: "u = (h0, s0, x0)" by (metis prod_cases3)
  let ?db1 = "snd (rUpdateStatus R (es k) h0 s0 x0 db)"
  from Cons.prems have hx: "length h0 = 32" "extra_ok x0" and us: "validUpdates us" "distinct (map fst us)"
    and h0: "h0 \<notin> fst ` set us" and ax: "argsOk x0"
    by (auto simp: u validUpdates_def allowedUpdates_def)
  from Cons.prems(4) obtain op0 where op0: "view db h0 = Some op0" "\<not> IsTerminal (OpStatus op0) \<or> IsTerminal s0"
    by (auto simp: u allowedUpdates_def)
  have ok: "fst (rUpdateStatus R (es k) h0 s0 x0 db) = Ok ()"
    by (rule update_progress [OF Cons.prems(1) _ op0 ax]) (use Cons.prems(5) in blast)
  have step: "inv ?db1" "view ?db1 = (view db)(h0 \<mapsto> applyUpdate (now (es k)) s0 x0 op0)"
    by (rule update_cases [OF Cons.prems(1) hx, of "es k" s0]; use op0 ok in auto)+
  show ?case
  proof (cases "h = h0")
    case True
    with Cons.prems(6) h0 have sx: "s = s0" "x = x0" by (auto simp: u image_iff)
    have "view (snd (updateEach R es (Suc k) us ?db1)) h0 = view ?db1 h0"
      using updateEach_cases [OF step(1) us, of es "Suc k"] h0 by (force simp: image_iff)
    then show ?thesis by (auto simp: u True sx op0 step(2))
  next
    case False
    have allow: "allowedUpdates (view ?db1) us"
      using Cons.prems(4) h0 by (force simp: u allowedUpdates_def step(2) image_iff)
    have "(h, s, x) \<in> set us" using Cons.prems(6) False by (simp add: u)
    from Cons.IH [OF step(1) us allow Cons.prems(5) this, of "Suc k"] False show ?thesis
      by (simp add: u step(2))
  qed
qed simp

end

section \<open>Properties\<close>

text \<open>
C30: from the logs of the entry point (in ABI form, among any other logs) the parser reads for an
operation the success flag and the gas cost of its last \<open>UserOperationEvent\<close>, and as the
reason that of the last \<open>UserOperationRevertReason\<close> log after that event; an operation without
logs has no outcome.
\<close>

theorem receipt_outcomes:
  assumes "userOperationEventTopic L \<noteq> userOperationRevertReasonTopic L"
    and "list_all (validEvent L ep) evs" and "rcLogs rc = map (eventLog L ep) evs"
  shows "\<exists>m. ParseHandleOpsReceipt L rc ep = Ok m \<and>
    (\<forall>h pre ts nonce ok cost used post.
       evs = pre @ UserOperationEvent h ts nonce ok cost used # post \<longrightarrow> (\<forall>e \<in> set post. \<not> isOpEvent h e) \<longrightarrow>
       m h = Some \<lparr>o_Success = ok, o_ActualGasCost = Some cost, o_RevertReason = lastReason h post\<rparr>) \<and>
    (\<forall>h. (\<forall>e \<in> set evs. \<not> isOpEvent h e \<and> reasonFor h e = None) \<longrightarrow> m h = None)"
proof -
  have "ParseHandleOpsReceipt L rc ep = Ok (fold applyEvent evs (\<lambda>_. None))"
    using assms parseLogs_events by (simp add: ParseHandleOpsReceipt_def)
  moreover have "fold applyEvent evs (\<lambda>_. None) h =
      Some \<lparr>o_Success = ok, o_ActualGasCost = Some cost, o_RevertReason = lastReason h post\<rparr>"
    if "evs = pre @ UserOperationEvent h ts nonce ok cost used # post" "\<forall>e \<in> set post. \<not> isOpEvent h e"
    for h pre ts nonce ok cost used post
    using that(1) fold_after_event [OF that(2), of "applyEvent (UserOperationEvent h ts nonce ok cost used) (fold applyEvent pre (\<lambda>_. None))"]
    by (simp add: lastReason_def)
  moreover have "fold applyEvent evs (\<lambda>_. None) h = None"
    if "\<forall>e \<in> set evs. \<not> isOpEvent h e \<and> reasonFor h e = None" for h
    using fold_no_event [OF that, of "\<lambda>_. None"] by simp
  ultimately show ?thesis by blast
qed

lemma hexLib_topics: "userOperationEventTopic hexLib \<noteq> userOperationRevertReasonTopic hexLib"
  by code_simp

definition sampleReceipt :: Receipt where
  "sampleReceipt = \<lparr>rcStatus = 1, rcLogs = map (eventLog hexLib (replicate 20 34))
     [UserOperationRevertReason (sampleHash 1) [] 3 ''out of gas'',
      UserOperationEvent (sampleHash 1) [] 3 False 5000 4000,
      UserOperationEvent (sampleHash 2) [] 4 True 6000 4500], rcBlockNumber = 77\<rparr>"

lemma sampleReceipt_parses:
  "\<exists>m. ParseHandleOpsReceipt hexLib sampleReceipt (replicate 20 34) = Ok m \<and>
     m (sampleHash 1) = Some \<lparr>o_Success = False, o_ActualGasCost = Some 5000, o_RevertReason = None\<rparr>"
proof -
  have "ParseHandleOpsReceipt hexLib sampleReceipt (replicate 20 34) =
      Ok (fold applyEvent [UserOperationRevertReason (sampleHash 1) [] 3 ''out of gas'',
        UserOperationEvent (sampleHash 1) [] 3 False 5000 4000,
        UserOperationEvent (sampleHash 2) [] 4 True 6000 4500] (\<lambda>_. None))"
    unfolding ParseHandleOpsReceipt_def sampleReceipt_def Receipt.select_convs
    by (rule parseLogs_events [OF hexLib_topics]) simp
  then show ?thesis by simp
qed

theorem receipt_outcomes_witness:
  "\<exists>m. ParseHandleOpsReceipt hexLib sampleReceipt (replicate 20 34) = Ok m \<and>
     m (sampleHash 1) = Some \<lparr>o_Success = False, o_ActualGasCost = Some 5000, o_RevertReason = None\<rparr> \<and>
     m (sampleHash 2) = Some \<lparr>o_Success = True, o_ActualGasCost = Some 6000, o_RevertReason = None\<rparr> \<and>
     m (sampleHash 3) = None"
proof -
  let ?e0 = "UserOperationRevertReason (sampleHash 1) [] 3 ''out of gas''"
  let ?e1 = "UserOperationEvent (sampleHash 1) [] 3 False 5000 4000"
  let ?e2 = "UserOperationEvent (sampleHash 2) [] 4 True 6000 4500"
  have "list_all (validEvent hexLib (replicate 20 34)) [?e0, ?e1, ?e2]" by simp
  then obtain m where m: "ParseHandleOpsReceipt hexLib sampleReceipt (replicate 20 34) = Ok m"
    and ev: "\<And>h pre ts nonce ok cost used post. [?e0, ?e1, ?e2] = pre @ UserOperationEvent h ts nonce ok cost used # post \<Longrightarrow>
       (\<forall>e \<in> set post. \<not> isOpEvent h e) \<Longrightarrow>
       m h = Some \<lparr>o_Success = ok, o_ActualGasCost = Some cost, o_RevertReason = lastReason h post\<rparr>"
    and none: "\<And>h. (\<forall>e \<in> set [?e0, ?e1, ?e2]. \<not> isOpEvent h e \<and> reasonFor h e = None) \<Longrightarrow> m h = None"
    using receipt_outcomes [OF hexLib_topics, of "replicate 20 34" "[?e0, ?e1, ?e2]" sampleReceipt]
    by (auto simp: sampleReceipt_def)
  from ev [of "[?e0]" "sampleHash 1" "[]" 3 False 5000 4000 "[?e2]"]
    ev [of "[?e0, ?e1]" "sampleHash 2" "[]" 4 True 6000 4500 "[]"] none [of "sampleHash 3"] m
  show ?thesis by (simp add: lastReason_def)
qed

text \<open>
The entry point emits the revert reason of an operation before its \<open>UserOperationEvent\<close>;
in that order the reason is lost, for any receipt that has no later reason log of the operation.
\<close>

theorem revert_reason_lost:
  assumes "userOperationEventTopic L \<noteq> userOperationRevertReasonTopic L"
    and "list_all (validEvent L ep) (pre @ [UserOperationRevertReason h ts nonce reason] @ mid @
           [UserOperationEvent h ts' nonce' ok cost used])"
  shows "map_res (\<lambda>m. m h) (ParseHandleOpsReceipt L \<lparr>rcStatus = 1,
      rcLogs = map (eventLog L ep) (pre @ [UserOperationRevertReason h ts nonce reason] @ mid @
         [UserOperationEvent h ts' nonce' ok cost used]), rcBlockNumber = n\<rparr> ep) =
    Ok (Some \<lparr>o_Success = ok, o_ActualGasCost = Some cost, o_RevertReason = None\<rparr>)"
proof -
  let ?evs = "pre @ [UserOperationRevertReason h ts nonce reason] @ mid @ [UserOperationEvent h ts' nonce' ok cost used]"
  have "fold applyEvent ?evs (\<lambda>_. None) h = Some \<lparr>o_Success = ok, o_ActualGasCost = Some cost, o_RevertReason = None\<rparr>"
    by simp
  then show ?thesis
    by (simp only: ParseHandleOpsReceipt_def Receipt.select_convs parseLogs_events [OF assms] res.map)
qed

theorem revert_reason_lost_witness:
  "map_res (\<lambda>m. m (sampleHash 1)) (ParseHandleOpsReceipt hexLib \<lparr>rcStatus = 1,
      rcLogs = map (eventLog hexLib (replicate 20 34)) ([] @ [UserOperationRevertReason (sampleHash 1) [] 3 ''out of gas''] @ [] @
         [UserOperationEvent (sampleHash 1) [] 3 False 5000 4000]), rcBlockNumber = 9\<rparr> (replicate 20 34)) =
    Ok (Some \<lparr>o_Success = False, o_ActualGasCost = Some 5000, o_RevertReason = None\<rparr>)"
  by (rule revert_reason_lost [OF hexLib_topics]) simp

text \<open>
The revert data of \<open>FailedOp(opIndex, reason)\<close>, in ABI form, is decoded to this index and
this reason.
\<close>

lemma DecodeFailedOp_roundtrip:
  assumes "length sel = 4" "0 \<le> i" "i < 2 ^ 63" "length reason < 2 ^ 60"
  shows "DecodeFailedOp (sel @ abiUint i @ abiUint 64 @ abiBytes (stringBytes reason)) = Ok (i, reason)"
proof -
  let ?r = "stringBytes reason"
  let ?pad = "replicate (paddedLen (length ?r) - length ?r) 0 :: bytes"
  let ?d = "sel @ abiUint i @ abiUint 64 @ abiUint (int (length ?r)) @ ?r @ ?pad"
  have len: "length (abiUint i) = 32" "length (abiUint 64) = 32" "length (abiUint (int (length reason))) = 32"
    using assms length_abiUint [OF uint256_of_nat, of "length reason"] by (simp_all add: uint256_def)
  have w: "slice 4 36 ?d = abiUint i" "slice 36 68 ?d = abiUint 64" "slice 68 100 ?d = abiUint (int (length ?r))"
    "slice 100 (100 + length ?r) ?d = ?r"
    using assms(1) len by (simp_all add: layout)
  have i64: "Int64 (SetBytes (abiUint i)) = i" "Int64 (SetBytes (abiUint 64)) = 64"
    "Int64 (SetBytes (abiUint (int (length ?r)))) = int (length ?r)"
    using assms by simp_all
  have dl: "100 + length ?r \<le> length ?d" using assms(1) len by simp
  define d where "d = ?d"
  have "goSlice (int 68) (int 100) d = Ok (slice 68 100 d)"
    using dl by (intro goSlice_nat) (simp_all add: d_def)
  then have g1: "goSlice 68 100 d = Ok (abiUint (int (length ?r)))" using w(3) by (simp add: d_def)
  have "goSlice (int 100) (int (100 + length ?r)) d = Ok (slice 100 (100 + length ?r) d)"
    using dl by (intro goSlice_nat) (simp_all add: d_def)
  then have g2: "goSlice 100 (100 + int (length ?r)) d = Ok ?r" using w(4) by (simp add: d_def)
  have big: "100 \<le> length d" "100 + int (length ?r) \<le> int (length d)" using dl by (simp_all add: d_def)
  have "DecodeFailedOp d = Ok (i, reason)"
    using assms(4) w(1,2) [folded d_def] i64 g1 g2 big by (simp add: DecodeFailedOp_def)
  moreover have "d = sel @ abiUint i @ abiUint 64 @ abiBytes ?r" by (simp add: d_def abiBytes_def)
  ultimately show ?thesis by simp
qed

end
