(* ===== verification/HandleOps.thy ===== *)
theory HandleOps
  imports OpHash Repository
begin

text \<open>
  The calldata builder of \<open>internal/bundler/loop.go\<close>: \<open>encodeBytes\<close>,
  \<open>encodePackedUserOp\<close> and \<open>BuildHandleOpsCalldata\<close>. The reference side is the ABI
  encoding of the tuple written as one concatenation, and a reader that follows the offsets of
  \<open>handleOps(PackedUserOperation[],address)\<close> the way a contract does.
\<close>

definition handleOpsSelector :: "ethlib \<Rightarrow> bytes" where
  "handleOpsSelector L = take 4 (Keccak256 L [stringBytes
     ''handleOps((address,uint256,bytes,bytes,bytes32,uint256,bytes32,bytes,bytes)[],address)''])"

definition encodeBytes :: "bytes \<Rightarrow> bytes" where
  "encodeBytes data =
     (let paddedLen = ((length data + 31) div 32) * 32;
          buf = replicate (32 + paddedLen) 0;
          buf = copy_into 0 32 (PadLeft32 (Bytes (int (length data)))) buf;
          buf = copy_at 32 data buf
      in buf)"

definition encodePackedUserOp :: "'a PackedUserOp_scheme \<Rightarrow> bytes" where
  "encodePackedUserOp op =
     (let headSize = 9 * 32;
          initCodeEnc = encodeBytes (InitCode op);
          callDataEnc = encodeBytes (CallData op);
          pmDataEnc = encodeBytes (PaymasterAndData op);
          sigEnc = encodeBytes (Signature op);
          totalSize = headSize + length initCodeEnc + length callDataEnc + length pmDataEnc + length sigEnc;
          buf = replicate totalSize 0;
          buf = copy_into 12 32 (Sender op) buf;
          buf = copy_into 32 64 (PadLeft32 (Bytes (Nonce op))) buf;
          buf = copy_into (4*32) (5*32) (AccountGasLimits op) buf;
          buf = copy_into (5*32) (6*32) (PadLeft32 (Bytes (PreVerificationGas op))) buf;
          buf = copy_into (6*32) (7*32) (GasFees op) buf;
          tailOffset = headSize;
          buf = copy_into (2*32) (3*32) (PadLeft32 (Bytes (int tailOffset))) buf;
          tailOffset = tailOffset + length initCodeEnc;
          buf = copy_into (3*32) (4*32) (PadLeft32 (Bytes (int tailOffset))) buf;
          tailOffset = tailOffset + length callDataEnc;
          buf = copy_into (7*32) (8*32) (PadLeft32 (Bytes (int tailOffset))) buf;
          tailOffset = tailOffset + length pmDataEnc;
          buf = copy_into (8*32) (9*32) (PadLeft32 (Bytes (int tailOffset))) buf;
          pos = headSize;
          buf = copy_at pos initCodeEnc buf;
          pos = pos + length initCodeEnc;
          buf = copy_at pos callDataEnc buf;
          pos = pos + length callDataEnc;
          buf = copy_at pos pmDataEnc buf;
          pos = pos + length pmDataEnc;
          buf = copy_at pos sigEnc buf
      in buf)"

text \<open>The offset words of the array: each is the running total of the lengths so far.\<close>

fun offsetWords :: "nat \<Rightarrow> bytes list \<Rightarrow> bytes" where
  "offsetWords currentOffset [] = []"
| "offsetWords currentOffset (enc # encs) =
     PadLeft32 (Bytes (int currentOffset)) @ offsetWords (currentOffset + length enc) encs"

definition BuildHandleOpsCalldata :: "ethlib \<Rightarrow> 'a PackedUserOp_scheme list \<Rightarrow> address \<Rightarrow> bytes" where
  "BuildHandleOpsCalldata L ops beneficiary =
     (let buf = handleOpsSelector L;
          buf = buf @ PadLeft32 (Bytes 64);
          buf = buf @ PadLeft32 beneficiary;
          arrayLen = length ops;
          buf = buf @ PadLeft32 (Bytes (int arrayLen));
          encodedOps = map encodePackedUserOp ops;
          offsetBase = arrayLen * 32;
          buf = buf @ offsetWords offsetBase encodedOps
      in buf @ concat encodedOps)"

section \<open>The tuple encoding\<close>

definition fits :: "'a PackedUserOp_scheme \<Rightarrow> bool" where
  "fits op \<longleftrightarrow> wf_op op \<and> uint256_op op \<and> length (InitCode op) < 2 ^ 60 \<and> length (CallData op) < 2 ^ 60 \<and>
     length (PaymasterAndData op) < 2 ^ 60 \<and> length (Signature op) < 2 ^ 60"

definition abiTuple :: "'a PackedUserOp_scheme \<Rightarrow> bytes" where
  "abiTuple op =
     (let ic = abiBytes (InitCode op); cd = abiBytes (CallData op);
          pm = abiBytes (PaymasterAndData op); sg = abiBytes (Signature op);
          tail1 = 288 + length ic; tail2 = tail1 + length cd; tail3 = tail2 + length pm
      in abiAddress (Sender op) @ abiUint (Nonce op) @ abiUint 288 @ abiUint (int tail1) @
         AccountGasLimits op @ abiUint (PreVerificationGas op) @ GasFees op @
         abiUint (int tail2) @ abiUint (int tail3) @ ic @ cd @ pm @ sg)"

lemma encodeBytes_abi: "int (length d) < 2 ^ 63 \<Longrightarrow> encodeBytes d = abiBytes d"
proof -
  assume "int (length d) < 2 ^ 63"
  then have "length (PadLeft32 (Bytes (int (length d)))) = 32"
    using length_abiUint [OF uint256_of_nat] by (simp add: abiUint_def)
  moreover have "replicate (32 + paddedLen (length d)) (0::byte) =
      replicate 32 0 @ replicate (length d) 0 @ replicate (paddedLen (length d) - length d) 0"
    using paddedLen_ge [of "length d"] by (simp add: replicate_add [symmetric])
  ultimately show ?thesis
    by (simp add: encodeBytes_def abiBytes_def abiUint_def paddedLen_def [symmetric] paddedLen_ge layout Let_def)
qed

lemma length_abiBytes_bound: "length d < 2 ^ 60 \<Longrightarrow> length (abiBytes d) < 2 ^ 60 + 64"
  using paddedLen_less [of "length d"] length_abiBytes [of d] uint256_of_nat [of "length d"]
  by (simp add: int_ops(7))

text \<open>The nine head words, whatever the order in which the code writes them.\<close>

lemma head_copies:
  assumes "length s = 20" "length n = 32" "length a = 32" "length v = 32" "length g = 32"
    "length o1 = 32" "length o2 = 32" "length o3 = 32" "length o4 = 32"
  shows "copy_into 256 288 o4 (copy_into 224 256 o3 (copy_into 96 128 o2 (copy_into 64 96 o1
     (copy_into 192 224 g (copy_into 160 192 v (copy_into 128 160 a (copy_into 32 64 n (copy_into 12 32 s
       (replicate (288 + k) (0::byte)))))))))) =
     replicate 12 0 @ s @ n @ o1 @ o2 @ a @ v @ g @ o3 @ o4 @ replicate k 0"
proof -
  have "replicate (288 + k) (0::byte) = replicate 12 0 @ replicate 20 0 @ replicate 32 0 @ replicate 32 0 @
     replicate 32 0 @ replicate 32 0 @ replicate 32 0 @ replicate 32 0 @ replicate 32 0 @ replicate 32 0 @ replicate k 0"
    by (simp add: replicate_add [symmetric])
  then show ?thesis using assms by (simp add: layout)
qed

lemma tail_copies:
  assumes "length h = 288"
  shows "copy_at (288 + length a + length b + length c) d (copy_at (288 + length a + length b) c
      (copy_at (288 + length a) b (copy_at 288 a
        (h @ replicate (length a + length b + length c + length d) (0::byte))))) = h @ a @ b @ c @ d"
  using assms by (simp add: replicate_add layout)

lemma encodePackedUserOp_abi:
  assumes "fits op" shows "encodePackedUserOp op = abiTuple op"
proof -
  let ?ic = "abiBytes (InitCode op)" and ?cd = "abiBytes (CallData op)"
  let ?pm = "abiBytes (PaymasterAndData op)" and ?sg = "abiBytes (Signature op)"
  let ?t1 = "288 + length ?ic" and ?t2 = "288 + length ?ic + length ?cd"
  let ?t3 = "288 + length ?ic + length ?cd + length ?pm"
  have lens: "length ?ic < 2 ^ 60 + 64" "length ?cd < 2 ^ 60 + 64" "length ?pm < 2 ^ 60 + 64"
    using assms length_abiBytes_bound by (simp_all add: fits_def)
  have enc: "encodeBytes (InitCode op) = ?ic" "encodeBytes (CallData op) = ?cd"
    "encodeBytes (PaymasterAndData op) = ?pm" "encodeBytes (Signature op) = ?sg"
    using assms by (simp_all add: fits_def encodeBytes_abi)
  have off: "length (abiUint (int n)) = 32" if "n < 2 ^ 63" for n
    using that by (intro length_abiUint uint256_of_nat) simp
  have words: "length (abiUint (Nonce op)) = 32" "length (abiUint (PreVerificationGas op)) = 32"
    "length (abiUint (int 288)) = 32" "length (abiUint (int ?t1)) = 32"
    "length (abiUint (int ?t2)) = 32" "length (abiUint (int ?t3)) = 32"
    using assms lens off by (simp_all add: fits_def uint256_op_def del: of_nat_add of_nat_numeral)
  have fixed: "length (Sender op) = 20" "length (AccountGasLimits op) = 32" "length (GasFees op) = 32"
    using assms by (simp_all add: fits_def wf_op_def)
  let ?head = "replicate 12 0 @ Sender op @ abiUint (Nonce op) @ abiUint (int 288) @ abiUint (int ?t1) @
      AccountGasLimits op @ abiUint (PreVerificationGas op) @ GasFees op @ abiUint (int ?t2) @ abiUint (int ?t3)"
  have "length ?head = 288" using words fixed by simp
  note tail = tail_copies [OF this, of ?ic ?cd ?pm ?sg]
  note head = head_copies [OF fixed(1) words(1) fixed(2) words(2) fixed(3) words(3-6),
      of "length ?ic + length ?cd + length ?pm + length ?sg"]
  have "encodePackedUserOp op = ?head @ ?ic @ ?cd @ ?pm @ ?sg"
    unfolding tail [symmetric] using head
    by (simp only: encodePackedUserOp_def enc Let_def abiUint_def [symmetric] append_assoc add.assoc
        mult_numeral_left_semiring_numeral num.simps mult_numeral_1 arith_simps)
  then show ?thesis by (simp add: abiTuple_def abiAddress_def Let_def)
qed

section \<open>Reading a call back\<close>

definition opAt :: "bytes \<Rightarrow> nat \<Rightarrow> PackedUserOp" where
  "opAt buf p =
     \<lparr>Sender = drop 12 (wordAt buf p), Nonce = uintAt buf (p + 32),
      InitCode = bytesAt buf (p + nat (uintAt buf (p + 64))),
      CallData = bytesAt buf (p + nat (uintAt buf (p + 96))),
      AccountGasLimits = wordAt buf (p + 128), PreVerificationGas = uintAt buf (p + 160),
      GasFees = wordAt buf (p + 192),
      PaymasterAndData = bytesAt buf (p + nat (uintAt buf (p + 224))),
      Signature = bytesAt buf (p + nat (uintAt buf (p + 256)))\<rparr>"

definition readHandleOps :: "bytes \<Rightarrow> PackedUserOp list \<times> address" where
  "readHandleOps calldata =
     (let args = drop 4 calldata;
          array = nat (uintAt args 0);
          n = nat (uintAt args array);
          elems = array + 32
      in (map (\<lambda>i. opAt args (elems + nat (uintAt args (elems + 32 * i)))) [0..<n], drop 12 (wordAt args 32)))"

lemma wordAt_shift: "wordAt (pre @ xs) (length pre + k) = wordAt xs k"
  using slice_shift [of pre k "k + 32" xs] by (simp add: wordAt_def add.assoc)

lemma bytesAt_shift: "bytesAt (pre @ xs) (length pre + k) = bytesAt xs k"
  using slice_shift [of pre "k + 32" "k + 32 + nat (uintAt xs k)" xs]
  by (simp add: bytesAt_def uintAt_def wordAt_shift add.assoc)

text \<open>A list of words: the k-th one stands at byte \<open>32 * k\<close>.\<close>

lemma length_words: "\<forall>w \<in> set ws. length w = 32 \<Longrightarrow> length (concat ws) = 32 * length ws"
  by (induction ws) simp_all

lemma wordAt_concat:
  assumes "\<forall>w \<in> set ws. length w = 32" and "k < length ws"
  shows "wordAt (concat ws @ rest) (32 * k) = ws ! k"
proof -
  have len: "length (concat (take k ws)) = 32 * k"
    using assms by (induction k) (auto simp: take_Suc_conv_app_nth)
  have "concat ws = concat (take k ws) @ ws ! k @ concat (drop (Suc k) ws)"
    using assms(2) by (metis append_take_drop_id concat.simps(2) concat_append id_take_nth_drop)
  with wordAt_append [OF len, of "ws ! k"] assms show ?thesis by simp
qed

lemma opAt_abiTuple:
  assumes "fits op"
  shows "opAt (pre @ abiTuple op @ post) (length pre) = PackedUserOp.truncate op"
proof -
  let ?ic = "abiBytes (InitCode op)" and ?cd = "abiBytes (CallData op)"
  let ?pm = "abiBytes (PaymasterAndData op)" and ?sg = "abiBytes (Signature op)"
  let ?t1 = "288 + length ?ic" and ?t2 = "288 + length ?ic + length ?cd"
  let ?t3 = "288 + length ?ic + length ?cd + length ?pm"
  let ?ws = "[abiAddress (Sender op), abiUint (Nonce op), abiUint 288, abiUint (int ?t1), AccountGasLimits op,
     abiUint (PreVerificationGas op), GasFees op, abiUint (int ?t2), abiUint (int ?t3)]"
  let ?tails = "?ic @ ?cd @ ?pm @ ?sg @ post"
  have lens: "length ?ic < 2 ^ 60 + 64" "length ?cd < 2 ^ 60 + 64" "length ?pm < 2 ^ 60 + 64"
    using assms length_abiBytes_bound by (simp_all add: fits_def)
  have off: "length (abiUint (int n)) = 32" if "n < 2 ^ 63" for n
    using that by (intro length_abiUint uint256_of_nat) simp
  have ws: "\<forall>w \<in> set ?ws. length w = 32"
    using assms lens off [of ?t1] off [of ?t2] off [of ?t3]
    by (simp add: fits_def wf_op_def uint256_op_def del: of_nat_add)
  have buf: "abiTuple op @ post = concat ?ws @ ?tails" by (simp add: abiTuple_def Let_def)
  have w: "wordAt (abiTuple op @ post) (32 * k) = ?ws ! k" if "k < 9" for k
    unfolding buf by (rule wordAt_concat [OF ws]) (use that in simp)
  have len: "length (concat ?ws) = 288" using ws by simp
  have tl: "bytesAt (abiTuple op @ post) 288 = InitCode op" "bytesAt (abiTuple op @ post) ?t1 = CallData op"
    "bytesAt (abiTuple op @ post) ?t2 = PaymasterAndData op" "bytesAt (abiTuple op @ post) ?t3 = Signature op"
    unfolding buf using assms
      bytesAt_append [OF len, of "InitCode op" "?cd @ ?pm @ ?sg @ post"]
      bytesAt_append [of "concat ?ws @ ?ic" ?t1 "CallData op" "?pm @ ?sg @ post"]
      bytesAt_append [of "concat ?ws @ ?ic @ ?cd" ?t2 "PaymasterAndData op" "?sg @ post"]
      bytesAt_append [of "concat ?ws @ ?ic @ ?cd @ ?pm" ?t3 "Signature op" post]
    by (simp_all only: fits_def uint256_of_nat append_assoc length_append len refl) (simp_all add: uint256_of_nat)
  have "opAt (pre @ abiTuple op @ post) (length pre) = opAt (abiTuple op @ post) 0"
    using wordAt_shift [of pre "abiTuple op @ post" 0]
    by (simp add: opAt_def uintAt_def wordAt_shift bytesAt_shift)
  also have "\<dots> = PackedUserOp.truncate op"
    using w [of 0] w [of 1] w [of 2] w [of 3] w [of 4] w [of 5] w [of 6] w [of 7] w [of 8] tl assms
    by (simp add: opAt_def uintAt_def PackedUserOp.truncate_def abiAddress_def fits_def uint256_op_def uint256_def
        nat_add_distrib del: of_nat_add)
  finally show ?thesis .
qed

text \<open>The offset words as a list: the i-th is the base plus the lengths of the first i tuples.\<close>

definition tupleOffset :: "nat \<Rightarrow> bytes list \<Rightarrow> nat \<Rightarrow> nat" where
  "tupleOffset base encs i = base + length (concat (take i encs))"

lemma offsetWords_concat:
  "offsetWords base encs = concat (map (\<lambda>i. abiUint (int (tupleOffset base encs i))) [0..<length encs])"
proof (induction encs arbitrary: base)
  case (Cons enc encs)
  have "map (\<lambda>i. abiUint (int (tupleOffset base (enc # encs) i))) [0..<length (enc # encs)] =
      abiUint (int base) # map (\<lambda>i. abiUint (int (tupleOffset (base + length enc) encs i))) [0..<length encs]"
    by (simp add: upt_conv_Cons map_Suc_upt [symmetric] tupleOffset_def add.assoc del: upt_Suc)
  with Cons show ?case by (simp add: abiUint_def del: upt_Suc)
qed simp

lemma PadLeft32_address: "length a = 20 \<Longrightarrow> PadLeft32 a = abiAddress a"
  by (simp add: PadLeft32_short abiAddress_def)

definition callFits :: "'a PackedUserOp_scheme list \<Rightarrow> bool" where
  "callFits ops \<longleftrightarrow> list_all fits ops \<and> 32 * length ops + length (concat (map abiTuple ops)) < 2 ^ 62"

lemma tupleOffset_bound:
  assumes "callFits ops"
  shows "tupleOffset (32 * length ops) (map abiTuple ops) i < 2 ^ 62"
proof -
  have "length (concat (take i encs)) \<le> length (concat encs)" for encs :: "bytes list"
    by (metis append_take_drop_id concat_append length_append le_add1)
  then have "length (concat (take i (map abiTuple ops))) \<le> length (concat (map abiTuple ops))" .
  with assms show ?thesis unfolding callFits_def tupleOffset_def by linarith
qed

lemma BuildHandleOpsCalldata_words:
  assumes "callFits ops" "length b = 20"
  shows "BuildHandleOpsCalldata L ops b = handleOpsSelector L @
    concat ([abiUint 64, abiAddress b, abiUint (int (length ops))] @
      map (\<lambda>i. abiUint (int (tupleOffset (32 * length ops) (map abiTuple ops) i))) [0..<length ops]) @
    concat (map abiTuple ops)"
proof -
  have enc: "map encodePackedUserOp ops = map abiTuple ops"
    using assms(1) by (auto simp: callFits_def list_all_iff encodePackedUserOp_abi)
  show ?thesis
    unfolding BuildHandleOpsCalldata_def enc Let_def using assms(2) offsetWords_concat [of "length ops * 32" "map abiTuple ops"]
    by (simp add: PadLeft32_address abiUint_def mult.commute)
qed

lemma readHandleOps_BuildHandleOpsCalldata:
  assumes "ethlib_ok L" and fit: "callFits ops" and b: "length b = 20"
  shows "readHandleOps (BuildHandleOpsCalldata L ops b) = (map PackedUserOp.truncate ops, b)"
proof -
  let ?encs = "map abiTuple ops" and ?n = "length ops"
  let ?off = "tupleOffset (32 * ?n) ?encs"
  let ?ws = "[abiUint 64, abiAddress b, abiUint (int ?n)] @ map (\<lambda>i. abiUint (int (?off i))) [0..<?n]"
  let ?args = "concat ?ws @ concat ?encs"
  have "uint256 (int (?off i))" for i
    by (rule uint256_of_nat) (use tupleOffset_bound [OF fit, of i] in simp)
  moreover have "uint256 (int ?n)"
    by (rule uint256_of_nat) (use fit in \<open>simp add: callFits_def\<close>)
  ultimately have ws: "\<forall>w \<in> set ?ws. length w = 32"
    using b by auto
  have w: "wordAt ?args (32 * k) = ?ws ! k" if "k < 3 + ?n" for k
    by (rule wordAt_concat [OF ws]) (use that in simp)
  have sel: "drop 4 (BuildHandleOpsCalldata L ops b) = ?args"
    using assms(1) by (simp only: BuildHandleOpsCalldata_words [OF fit b]) (simp add: handleOpsSelector_def length_keccak)
  have head: "uintAt ?args 0 = 64" "wordAt ?args 32 = abiAddress b" "uintAt ?args 64 = int ?n"
    using w [of 0] w [of 1] w [of 2] by (simp_all add: uintAt_def)
  have offs: "uintAt ?args (96 + 32 * i) = int (?off i)" if "i < ?n" for i
    using w [of "3 + i"] that by (simp add: uintAt_def)
  have elem: "opAt ?args (96 + ?off i) = PackedUserOp.truncate (ops ! i)" if i: "i < ?n" for i
  proof -
    let ?pre = "concat ?ws @ concat (take i ?encs)"
    have "concat ?encs = concat (take i ?encs) @ abiTuple (ops ! i) @ concat (drop (Suc i) ?encs)"
      using i id_take_nth_drop [of i ?encs] by (metis concat.simps(2) concat_append length_map nth_map)
    moreover note length_words [OF ws]
    then have "length ?pre = 96 + ?off i" by (simp add: tupleOffset_def)
    moreover have "fits (ops ! i)" using fit i by (simp add: callFits_def list_all_length)
    ultimately show ?thesis
      using opAt_abiTuple [of "ops ! i" ?pre "concat (drop (Suc i) ?encs)"] by (metis append.assoc)
  qed
  define args where "args = ?args"
  have "map (\<lambda>i. opAt args (96 + nat (uintAt args (96 + 32 * i)))) [0..<?n] = map PackedUserOp.truncate ops"
    by (rule nth_equalityI) (simp_all add: offs [folded args_def] elem [folded args_def])
  with head [folded args_def] show ?thesis
    by (simp add: readHandleOps_def sel [folded args_def] Let_def abiAddress_def)
qed

section \<open>Properties\<close>

text \<open>
C4: a contract that reads the calldata of a bundle by the ABI of \<open>handleOps\<close> gets exactly the
operations of the bundle, in the same order, and the beneficiary.
\<close>

theorem handleOps_roundtrip:
  assumes "ethlib_ok L" "callFits ops" "length beneficiary = 20"
  shows "readHandleOps (BuildHandleOpsCalldata L ops beneficiary) =
    (map PackedUserOp.truncate ops, beneficiary)"
  by (rule readHandleOps_BuildHandleOpsCalldata [OF assms])

lemma sampleOp_fits [simp]: "fits sampleOp"
  by (simp add: fits_def) (simp add: sampleOp_def)

theorem handleOps_roundtrip_witness:
  "readHandleOps (BuildHandleOpsCalldata hexLib [sampleOp, sampleOp] (replicate 20 9)) =
     ([sampleOp, sampleOp], replicate 20 9)"
proof -
  have "length (abiBytes d) = 32 + paddedLen (length d)" if "length d < 100" for d
    using that by (intro length_abiBytes uint256_of_nat) simp
  then have "length (abiTuple sampleOp) = 576"
    by (simp add: abiTuple_def Let_def) (simp add: sampleOp_def paddedLen_def)
  then have "callFits [sampleOp, sampleOp]" by (simp add: callFits_def)
  from handleOps_roundtrip [OF hexLib_ok this, of "replicate 20 9"] show ?thesis
    by (simp add: PackedUserOp.truncate_def sampleOp_def)
qed

end
