(* ===== verification/Bundling.thy ===== *)
theory Bundling
  imports Receipts HandleOps
begin

text \<open>
  \<open>internal/bundler/loop.go\<close>, \<open>watcher.go\<close>, \<open>reconcile.go\<close> and \<open>errors.go\<close>: one tick of
  the bundling loop, one poll of the receipt watcher, and the reconciliation at start-up. The node and the
  signer are records of the answers they give during the call; the error of a node has its text and
  whether it is \<open>ethereum.NotFound\<close>. The k-th repository call of a handler has the environment
  \<open>es k\<close>. Logging is left out.
\<close>

section \<open>The node and the signer\<close>

record nodeError =
  neText :: string
  neIsNotFound :: bool

record BundleClient =
  EstimateGas :: "address \<Rightarrow> address \<Rightarrow> bytes \<Rightarrow> nodeError + uint64"
  CallContract :: "address \<Rightarrow> address \<Rightarrow> bytes \<Rightarrow> nodeError + bytes"
  TransactionReceipt :: "hash \<Rightarrow> nodeError + Receipt"

record Signer =
  SignerAddress :: address
  CheckBalance :: "unit res"
  SignAndSubmit :: "address \<Rightarrow> bytes \<Rightarrow> uint64 \<Rightarrow> hash res"

text \<open>A duration is an \<open>int64\<close> number of nanoseconds.\<close>

record BundlingLoop =
  entryPoint :: address
  maxBundle :: int
  tick :: int

definition NewLoop :: "address \<Rightarrow> int \<Rightarrow> int \<Rightarrow> BundlingLoop" where
  "NewLoop ep maxBundleSize tickInterval = \<lparr>entryPoint = ep, maxBundle = maxBundleSize, tick = tickInterval\<rparr>"

record ReceiptWatcher =
  watchEntryPoint :: address
  interval :: int

definition NewWatcher :: "address \<Rightarrow> int \<Rightarrow> ReceiptWatcher" where
  "NewWatcher ep pollInterval = \<lparr>watchEntryPoint = ep, interval = pollInterval\<rparr>"

definition nodeErr :: "nodeError \<Rightarrow> error" where
  "nodeErr er = ErrExt (neText er)"

definition isNotFound :: "nodeError \<Rightarrow> bool" where
  "isNotFound er \<longleftrightarrow> neIsNotFound er \<or> contains (ToLower (neText er)) ''not found''"

section \<open>One tick of the bundling loop\<close>

definition extractRevertReason :: "BundleClient \<Rightarrow> address \<Rightarrow> address \<Rightarrow> bytes \<Rightarrow> string" where
  "extractRevertReason client from to data =
     (case CallContract client from to data of Inr _ \<Rightarrow> ''unknown'' | Inl er \<Rightarrow> neText er)"

definition isEntryPointRevert :: "nodeError \<Rightarrow> string \<Rightarrow> bool" where
  "isEntryPointRevert estimateErr revertReason =
     (if contains revertReason ''FailedOp'' \<or> contains revertReason ''FailedOpWithRevert'' then True
      else let msg = neText estimateErr in
      if contains msg ''0x220266b6'' \<or> contains msg ''0x6fde1f52'' then True
      else if contains revertReason '' AA'' then True
      else if contains msg ''execution reverted'' then True
      else False)"

definition resetToPending ::
    "('e, 'db) Repository \<Rightarrow> (nat \<Rightarrow> 'e) \<Rightarrow> nat \<Rightarrow> StoredOp list \<Rightarrow> 'db \<Rightarrow> 'db" where
  "resetToPending R es k ops db = snd (updateEach R es k (map (\<lambda>op. (Hash op, StatusPending, None)) ops) db)"

definition failOps ::
    "('e, 'db) Repository \<Rightarrow> (nat \<Rightarrow> 'e) \<Rightarrow> nat \<Rightarrow> StoredOp list \<Rightarrow> string \<Rightarrow> 'db \<Rightarrow> 'db" where
  "failOps R es k ops reason db =
     snd (updateEach R es k (map (\<lambda>op. (Hash op, StatusFailed, reasonExtra reason)) ops) db)"

definition submitExtra :: "hash \<Rightarrow> int \<Rightarrow> int \<Rightarrow> StatusExtra option" where
  "submitExtra txHash idx now =
     Some (noExtra\<lparr>x_BundleTxHash := Some txHash, x_BundleIndex := Some idx, x_SubmittedAt := Some now\<rparr>)"

definition submitUpdates :: "hash \<Rightarrow> int \<Rightarrow> StoredOp list \<Rightarrow> statusUpdate list" where
  "submitUpdates txHash now ops =
     map (\<lambda>(i, op). (Hash op, StatusSubmitted, submitExtra txHash (int i) now)) (enumerate 0 ops)"

definition Tick ::
    "ethlib \<Rightarrow> ('e, 'db) Repository \<Rightarrow> Signer \<Rightarrow> BundleClient \<Rightarrow> BundlingLoop \<Rightarrow> (nat \<Rightarrow> 'e) \<Rightarrow> int \<Rightarrow> 'db \<Rightarrow> unit res \<times> 'db" where
  "Tick L R signer client l es now db =
     (case CheckBalance signer of
        Err er \<Rightarrow> (Err er, db)
      | Panic m \<Rightarrow> (Panic m, db)
      | Ok _ \<Rightarrow>
     (case rGetPending R (es 0) (maxBundle l) db of
        Err er \<Rightarrow> (Err (ErrWrap ''get pending'' er), db)
      | Panic m \<Rightarrow> (Panic m, db)
      | Ok ops \<Rightarrow>
      if length ops = 0 then (Ok (), db)
      else
     (case rClaimForBundling R (es 1) (map Hash ops) db of
        (Err er, db) \<Rightarrow> (Err (ErrWrap ''claim for bundling'' er), db)
      | (Panic m, db) \<Rightarrow> (Panic m, db)
      | (Ok _, db) \<Rightarrow>
      let from = SignerAddress signer; to = entryPoint l;
          calldata = BuildHandleOpsCalldata L ops from
      in
     (case EstimateGas client from to calldata of
        Inl er \<Rightarrow>
          let revertReason = extractRevertReason client from to calldata;
              db = (if isEntryPointRevert er revertReason then failOps R es 2 ops revertReason db
                    else resetToPending R es 2 ops db)
          in (Err (ErrWrap ''estimate gas'' (nodeErr er)), db)
      | Inr gas \<Rightarrow>
      let gasLimit = gas * 12 div 10
      in
     (case SignAndSubmit signer to calldata gasLimit of
        Err er \<Rightarrow> (Err (ErrWrap ''submit bundle'' er), resetToPending R es 2 ops db)
      | Panic m \<Rightarrow> (Panic m, db)
      | Ok txHash \<Rightarrow> (Ok (), snd (updateEach R es 2 (submitUpdates txHash now ops) db)))))))"

section \<open>One poll of the receipt watcher\<close>

text \<open>
  The Go map from transaction to operations, built by appending in the order of the query, is an
  association list; the order in which a \<open>range\<close> loop visits it is the parameter \<open>order\<close>.
\<close>

fun appendTx :: "hash \<Rightarrow> StoredOp \<Rightarrow> (hash \<times> StoredOp list) list \<Rightarrow> (hash \<times> StoredOp list) list" where
  "appendTx tx op [] = [(tx, [op])]"
| "appendTx tx op ((t, ops) # m) = (if t = tx then (t, ops @ [op]) # m else (t, ops) # appendTx tx op m)"

fun groupByTx :: "StoredOp list \<Rightarrow> (hash \<times> StoredOp list) list \<Rightarrow> (hash \<times> StoredOp list) list" where
  "groupByTx [] m = m"
| "groupByTx (op # ops) m =
     groupByTx ops (case BundleTxHash op of None \<Rightarrow> m | Some tx \<Rightarrow> appendTx tx op m)"

definition outcomeExtra :: "Receipt \<Rightarrow> OpOutcome \<Rightarrow> StatusExtra option" where
  "outcomeExtra receipt outcome =
     Some (noExtra\<lparr>x_BlockNumber := Some (Uint64 (rcBlockNumber receipt)),
                   x_RevertReason := o_RevertReason outcome,
                   x_ActualGasCost := o_ActualGasCost outcome\<rparr>)"

definition outcomeStatus :: "OpOutcome \<Rightarrow> Status" where
  "outcomeStatus outcome = (if \<not> o_Success outcome then StatusFailed else StatusConfirmed)"

fun outcomeUpdates :: "Receipt \<Rightarrow> outcomes \<Rightarrow> StoredOp list \<Rightarrow> statusUpdate list" where
  "outcomeUpdates receipt outcomes [] = []"
| "outcomeUpdates receipt outcomes (op # ops) =
     (case outcomes (Hash op) of
        None \<Rightarrow> outcomeUpdates receipt outcomes ops
      | Some oc \<Rightarrow> (Hash op, outcomeStatus oc, outcomeExtra receipt oc) # outcomeUpdates receipt outcomes ops)"

text \<open>The body of the loop over the transactions; the watcher and the reconciliation share it.\<close>

fun settleEach ::
    "ethlib \<Rightarrow> ('e, 'db) Repository \<Rightarrow> BundleClient \<Rightarrow> address \<Rightarrow> (nat \<Rightarrow> 'e) \<Rightarrow> nat \<Rightarrow>
     (hash \<times> StoredOp list) list \<Rightarrow> 'db \<Rightarrow> unit res \<times> 'db" where
  "settleEach L R client ep es k [] db = (Ok (), db)"
| "settleEach L R client ep es k ((txHash, ops) # rest) db =
     (case TransactionReceipt client txHash of
        Inl er \<Rightarrow> settleEach L R client ep es k rest db
      | Inr receipt \<Rightarrow>
         if rcStatus receipt = 1 then
           (case ParseHandleOpsReceipt L receipt ep of
              Panic m \<Rightarrow> (Panic m, db)
            | Err er \<Rightarrow> (Err er, db)
            | Ok outcomes \<Rightarrow>
               let (k, db) = updateEach R es k (outcomeUpdates receipt outcomes ops) db
               in settleEach L R client ep es k rest db)
         else
           (case HandleBundleRevert L R es k [] ops db of
              Panic m \<Rightarrow> (Panic m, db)
            | Err er \<Rightarrow> (Err er, db)
            | Ok (k, db) \<Rightarrow> settleEach L R client ep es k rest db))"

definition Poll ::
    "ethlib \<Rightarrow> ('e, 'db) Repository \<Rightarrow> BundleClient \<Rightarrow> address \<Rightarrow>
     ((hash \<times> StoredOp list) list \<Rightarrow> (hash \<times> StoredOp list) list) \<Rightarrow> (nat \<Rightarrow> 'e) \<Rightarrow> 'db \<Rightarrow> unit res \<times> 'db" where
  "Poll L R client ep order es db =
     (case rGetByStatus R (es 0) StatusSubmitted db of
        Err er \<Rightarrow> (Err er, db)
      | Panic m \<Rightarrow> (Panic m, db)
      | Ok submitted \<Rightarrow>
         if length submitted = 0 then (Ok (), db)
         else settleEach L R client ep es 1 (order (groupByTx submitted [])) db)"

definition Reconcile ::
    "ethlib \<Rightarrow> ('e, 'db) Repository \<Rightarrow> BundleClient \<Rightarrow> address \<Rightarrow>
     ((hash \<times> StoredOp list) list \<Rightarrow> (hash \<times> StoredOp list) list) \<Rightarrow> (nat \<Rightarrow> 'e) \<Rightarrow> 'db \<Rightarrow> unit res \<times> 'db" where
  "Reconcile L R client ep order es db =
     (case rResetBundlingToPending R (es 0) db of
        (Err er, db) \<Rightarrow> (Err er, db)
      | (Panic m, db) \<Rightarrow> (Panic m, db)
      | (Ok n, db) \<Rightarrow>
         (case rGetByStatus R (es 1) StatusSubmitted db of
            Err er \<Rightarrow> (Err er, db)
          | Panic m \<Rightarrow> (Panic m, db)
          | Ok submitted \<Rightarrow>
             if length submitted = 0 then (Ok (), db)
             else settleEach L R client ep es 2 (order (groupByTx submitted [])) db))"

end
