(* ===== verification/BundlingSpec.thy ===== *)
theory BundlingSpec
  imports Bundling "HOL-Library.Multiset"
begin

text \<open>
  The bundling loop and the watcher against the contract of the repository. What a tick does after it
  has claimed its operations, and what the watcher does for one transaction, is a list of status
  updates that depends only on the answers of the node and the signer (\<open>bundlePlan\<close>,
  \<open>settleUpdates\<close>); the lemmas on \<open>updateEach\<close> do the rest. The lemmas are proved in
  the locale \<open>repository\<close> and used through the SQLite repository.
\<close>

section \<open>The plan of a tick\<close>

definition bundlePlan ::
    "ethlib \<Rightarrow> Signer \<Rightarrow> BundleClient \<Rightarrow> BundlingLoop \<Rightarrow> int \<Rightarrow> StoredOp list \<Rightarrow> unit res \<times> statusUpdate list" where
  "bundlePlan L signer client l now ops =
     (let from = SignerAddress signer; to = entryPoint l; calldata = BuildHandleOpsCalldata L ops from in
      case EstimateGas client from to calldata of
        Inl er \<Rightarrow>
          let reason = extractRevertReason client from to calldata in
          (Err (ErrWrap ''estimate gas'' (nodeErr er)),
           if isEntryPointRevert er reason then map (\<lambda>op. (Hash op, StatusFailed, reasonExtra reason)) ops
           else resetUpdates ops)
      | Inr gas \<Rightarrow>
         (case SignAndSubmit signer to calldata (gas * 12 div 10) of
            Err er \<Rightarrow> (Err (ErrWrap ''submit bundle'' er), resetUpdates ops)
          | Panic m \<Rightarrow> (Panic m, [])
          | Ok txHash \<Rightarrow> (Ok (), submitUpdates txHash now ops)))"

lemma Tick_plan:
  "Tick L R signer client l es now db =
     (case CheckBalance signer of
        Err er \<Rightarrow> (Err er, db) | Panic m \<Rightarrow> (Panic m, db)
      | Ok _ \<Rightarrow>
     (case rGetPending R (es 0) (maxBundle l) db of
        Err er \<Rightarrow> (Err (ErrWrap ''get pending'' er), db) | Panic m \<Rightarrow> (Panic m, db)
      | Ok ops \<Rightarrow>
      if ops = [] then (Ok (), db)
      else
     (case rClaimForBundling R (es 1) (map Hash ops) db of
        (Err er, db) \<Rightarrow> (Err (ErrWrap ''claim for bundling'' er), db) | (Panic m, db) \<Rightarrow> (Panic m, db)
      | (Ok _, db) \<Rightarrow>
         (fst (bundlePlan L signer client l now ops),
          snd (updateEach R es 2 (snd (bundlePlan L signer client l now ops)) db)))))"
  by (simp add: Tick_def bundlePlan_def failOps_def resetToPending_def resetUpdates_def Let_def
      split: res.split sum.split prod.split)

text \<open>The signer's hashes have 32 bytes.\<close>

definition wf_signer :: "Signer \<Rightarrow> bool" where
  "wf_signer signer \<longleftrightarrow> (\<forall>to d g tx. SignAndSubmit signer to d g = Ok tx \<longrightarrow> length tx = 32)"

lemma fst_submitUpdates [simp]: "map fst (submitUpdates tx now ops) = map Hash ops"
  by (simp add: submitUpdates_def comp_def case_prod_beta map_snd_enumerate flip: map_map [of Hash snd, unfolded comp_def])

lemma submitUpdates_iff:
  "(h, s, x) \<in> set (submitUpdates tx now ops) \<longleftrightarrow>
     s = StatusSubmitted \<and> (\<exists>i < length ops. h = Hash (ops ! i) \<and> x = submitExtra tx (int i) now)"
proof -
  have "enumerate 0 ops = map (\<lambda>i. (i, ops ! i)) [0..<length ops]"
    by (auto intro: nth_equalityI simp: nth_enumerate_eq)
  then show ?thesis by (auto simp: submitUpdates_def)
qed

lemma extras_ok [simp]:
  "extra_ok (reasonExtra r)" "argsOk (reasonExtra r)" "argsOk (submitExtra tx i now)"
  "length tx = 32 \<Longrightarrow> extra_ok (submitExtra tx i now)" "extra_ok (outcomeExtra rc oc)"
  by (simp_all add: extra_ok_def argsOk_def reasonExtra_def submitExtra_def outcomeExtra_def noExtra_def)

text \<open>The updates of a plan: at most one per operation, each to submitted, pending or failed.\<close>

lemma bundlePlan_updates:
  assumes "wf_signer signer" "\<forall>op \<in> set ops. length (Hash op) = 32" "distinct (map Hash ops)"
    and us_def: "us = snd (bundlePlan L signer client l now ops)"
  shows "validUpdates us" "distinct (map fst us)" "set (map fst us) \<subseteq> Hash ` set ops"
    "\<forall>(h, s, x) \<in> set us. extra_ok x \<and> argsOk x \<and> s \<in> {StatusSubmitted, StatusPending, StatusFailed} \<and>
       (s = StatusSubmitted \<longrightarrow> (\<exists>e tx. x = Some e \<and> x_BundleTxHash e = Some tx \<and> length tx = 32))"
proof -
  have cases: "us = [] \<or> us = resetUpdates ops \<or> (\<exists>r. us = map (\<lambda>op. (Hash op, StatusFailed, reasonExtra r)) ops) \<or>
      (\<exists>tx. length tx = 32 \<and> us = submitUpdates tx now ops)"
    using assms(1) unfolding us_def bundlePlan_def wf_signer_def Let_def
    by (simp split: sum.split res.split) blast
  have fst: "map fst us = [] \<or> map fst us = map Hash ops"
    using cases by (auto simp: resetUpdates_def comp_def)
  then show "distinct (map fst us)" "set (map fst us) \<subseteq> Hash ` set ops"
    using assms(3) by (metis distinct.simps(1), metis empty_subsetI list.set(1) order_refl set_map)
  show sub: "\<forall>(h, s, x) \<in> set us. extra_ok x \<and> argsOk x \<and> s \<in> {StatusSubmitted, StatusPending, StatusFailed} \<and>
       (s = StatusSubmitted \<longrightarrow> (\<exists>e tx. x = Some e \<and> x_BundleTxHash e = Some tx \<and> length tx = 32))"
    using cases by (auto simp: resetUpdates_def submitUpdates_iff) (simp add: submitExtra_def)
  have "length h = 32" if "(h, s, x) \<in> set us" for h s x
  proof -
    from that have "h \<in> set (map fst us)" by force
    with fst have "h \<in> Hash ` set ops" by (metis empty_iff list.set(1) set_map)
    with assms(2) show ?thesis by auto
  qed
  with sub show "validUpdates us" by (auto simp: validUpdates_def)
qed

section \<open>The updates for one transaction\<close>

definition settleUpdates ::
    "ethlib \<Rightarrow> BundleClient \<Rightarrow> address \<Rightarrow> hash \<times> StoredOp list \<Rightarrow> statusUpdate list res" where
  "settleUpdates L client ep g =
     (case TransactionReceipt client (fst g) of
        Inl er \<Rightarrow> Ok []
      | Inr receipt \<Rightarrow>
         if rcStatus receipt = 1
         then bind_res (ParseHandleOpsReceipt L receipt ep) (\<lambda>outcomes. Ok (outcomeUpdates receipt outcomes (snd g)))
         else Ok (resetUpdates (snd g)))"

lemma settleEach_Cons:
  "settleEach L R client ep es k (g # gs) db =
     (case settleUpdates L client ep g of
        Panic m \<Rightarrow> (Panic m, db) | Err er \<Rightarrow> (Err er, db)
      | Ok us \<Rightarrow> settleEach L R client ep es (fst (updateEach R es k us db)) gs (snd (updateEach R es k us db)))"
  by (cases g) (simp add: settleUpdates_def HandleBundleRevert_def case_prod_beta Let_def
      split: sum.split res.split)

lemma outcomeUpdates_iff:
  "(h, s, x) \<in> set (outcomeUpdates rc m ops) \<longleftrightarrow>
     (\<exists>op \<in> set ops. h = Hash op \<and> (\<exists>oc. m h = Some oc \<and> s = outcomeStatus oc \<and> x = outcomeExtra rc oc))"
  by (induction ops) (auto split: option.splits)

lemma fst_outcomeUpdates:
  "map fst (outcomeUpdates rc m ops) = filter (\<lambda>h. m h \<noteq> None) (map Hash ops)"
  by (induction ops) (auto split: option.splits)

lemma settleUpdates_updates:
  assumes "settleUpdates L client ep g = Ok us"
    and "\<forall>op \<in> set (snd g). length (Hash op) = 32" "distinct (map Hash (snd g))"
  shows "validUpdates us" "distinct (map fst us)" "set (map fst us) \<subseteq> Hash ` set (snd g)"
    "\<forall>(h, s, x) \<in> set us. s \<in> {StatusConfirmed, StatusPending, StatusFailed}"
proof -
  have cases: "us = [] \<or> us = resetUpdates (snd g) \<or> (\<exists>rc m. us = outcomeUpdates rc m (snd g))"
    using assms(1) by (auto simp: settleUpdates_def split: sum.splits if_splits)
  show "\<forall>(h, s, x) \<in> set us. s \<in> {StatusConfirmed, StatusPending, StatusFailed}"
    using cases by (auto simp: resetUpdates_def outcomeUpdates_iff outcomeStatus_def split: if_splits)
  show "distinct (map fst us)" "set (map fst us) \<subseteq> Hash ` set (snd g)"
    using cases assms(3) by (auto simp: resetUpdates_def fst_outcomeUpdates outcomeUpdates_iff comp_def)
  show "validUpdates us"
    using cases assms(2) by (auto simp: validUpdates_def resetUpdates_def outcomeUpdates_iff)
qed

text \<open>Grouping keeps every operation that has a transaction, once, in the group of its transaction.\<close>

lemma appendTx_mem:
  "(\<exists>ops. (t, ops) \<in> set (appendTx tx op m) \<and> q \<in> set ops) \<longleftrightarrow>
     (\<exists>ops. (t, ops) \<in> set m \<and> q \<in> set ops) \<or> (t = tx \<and> q = op)"
  by (induction tx op m rule: appendTx.induct) auto

lemma appendTx_hashes: "mset (concat (map snd (appendTx tx op m))) = add_mset op (mset (concat (map snd m)))"
  by (induction tx op m rule: appendTx.induct) auto

lemma groupByTx_mem:
  "(\<exists>ops. (t, ops) \<in> set (groupByTx qs m) \<and> q \<in> set ops) \<longleftrightarrow>
     (\<exists>ops. (t, ops) \<in> set m \<and> q \<in> set ops) \<or> (q \<in> set qs \<and> BundleTxHash q = Some t)"
proof (induction qs arbitrary: m)
  case (Cons a qs)
  then show ?case by (cases "BundleTxHash a") (auto simp: appendTx_mem)
qed simp

lemma groupByTx_ops:
  "mset (concat (map snd (groupByTx qs m))) = mset (filter (\<lambda>q. BundleTxHash q \<noteq> None) qs) + mset (concat (map snd m))"
  by (induction qs m rule: groupByTx.induct) (auto simp: appendTx_hashes split: option.split)

section \<open>Over any repository\<close>

context repository
begin

text \<open>
  The operations a tick works on: after a successful claim they are distinct, were pending, and are
  bundling; everything else is as before.
\<close>

lemma claimed:
  assumes "inv db" "rGetPending R e limit db = Ok ops" "rClaimForBundling R e' (map Hash ops) db = (Ok (), db1)"
  shows "inv db1" "distinct (map Hash ops)" "\<forall>op \<in> set ops. length (Hash op) = 32"
    "\<forall>op \<in> set ops. view db (Hash op) = Some op \<and> OpStatus op = StatusPending"
    "view db1 = (\<lambda>h. if h \<in> Hash ` set ops then map_option (applyUpdate (now e') StatusBundling None) (view db h) else view db h)"
proof -
  note got = pending_ok [OF assms(1,2)]
  show len: "\<forall>op \<in> set ops. length (Hash op) = 32" using got view_Hash [OF assms(1)] by blast
  then have "\<forall>h \<in> set (map Hash ops). length h = 32" by auto
  from claim_ok [OF assms(1) this assms(3)] got
  show "inv db1" "distinct (map Hash ops)" "\<forall>op \<in> set ops. view db (Hash op) = Some op \<and> OpStatus op = StatusPending"
    "view db1 = (\<lambda>h. if h \<in> Hash ` set ops then map_option (applyUpdate (now e') StatusBundling None) (view db h) else view db h)"
    by simp_all
qed

text \<open>The database after a tick: unchanged, or the updates of the plan on the claimed operations.\<close>

lemma Tick_cases:
  assumes "inv db"
  obtains (none) "snd (Tick L R signer client l es t db) = db"
  | (bundled) ops db1 where "rGetPending R (es 0) (maxBundle l) db = Ok ops" "ops \<noteq> []"
      "rClaimForBundling R (es 1) (map Hash ops) db = (Ok (), db1)"
      "snd (Tick L R signer client l es t db) = snd (updateEach R es 2 (snd (bundlePlan L signer client l t ops)) db1)"
      "fst (Tick L R signer client l es t db) = fst (bundlePlan L signer client l t ops)"
proof (cases "CheckBalance signer")
  case (Ok u)
  show ?thesis
  proof (cases "rGetPending R (es 0) (maxBundle l) db")
    case (Ok ops)
    show ?thesis
    proof (cases "rClaimForBundling R (es 1) (map Hash ops) db")
      case (Pair r db1)
      show ?thesis
      proof (cases r)
        case r: (Ok u')
        show ?thesis
          by (cases "ops = []")
             (use none bundled Ok Pair r \<open>CheckBalance signer = Ok u\<close> in \<open>auto simp: Tick_plan\<close>)
      next
        case r: (Err er)
        have "db1 = db" using claim_err Pair r by blast
        with Ok Pair r none \<open>CheckBalance signer = Ok u\<close> show ?thesis by (simp add: Tick_plan)
      next
        case r: (Panic m)
        then show ?thesis using claim_no_panic [of "es 1" "map Hash ops" db m] Pair by simp
      qed
    qed
  qed (use none Ok in \<open>auto simp: Tick_plan\<close>)
qed (use none in \<open>auto simp: Tick_plan\<close>)

lemma Tick_safe:
  assumes db: "inv db" and s: "wf_signer signer"
  shows "inv (snd (Tick L R signer client l es t db)) \<and>
    (\<forall>h. view (snd (Tick L R signer client l es t db)) h = view db h \<or>
       (\<exists>op op'. view db h = Some op \<and> OpStatus op = StatusPending \<and>
          view (snd (Tick L R signer client l es t db)) h = Some op' \<and>
          PackedUserOp.truncate op' = PackedUserOp.truncate op \<and>
          OpStatus op' \<in> {StatusBundling, StatusPending, StatusSubmitted, StatusFailed}))"
proof (rule Tick_cases [OF db, of L signer client l es t], goal_cases none bundled)
  case none
  with db show ?thesis by simp
next
  case (bundled ops db1)
  note c = claimed [OF db bundled(1,3)]
  note u = bundlePlan_updates [OF s c(3,2) refl, of L client l t]
  note e = updateEach_cases [OF c(1) u(1,2), of es 2, folded bundled(4)]
  have "view (snd (Tick L R signer client l es t db)) h = view db h \<or>
       (\<exists>op op'. view db h = Some op \<and> OpStatus op = StatusPending \<and>
          view (snd (Tick L R signer client l es t db)) h = Some op' \<and>
          PackedUserOp.truncate op' = PackedUserOp.truncate op \<and>
          OpStatus op' \<in> {StatusBundling, StatusPending, StatusSubmitted, StatusFailed})" for h
  proof (cases "h \<in> Hash ` set ops")
    case True
    then obtain op where op: "view db h = Some op" "OpStatus op = StatusPending" using c(4) by auto
    with True have v1: "view db1 h = Some (applyUpdate (now (es 1)) StatusBundling None op)" by (simp add: c(5))
    with e consider "view (snd (Tick L R signer client l es t db)) h = Some (applyUpdate (now (es 1)) StatusBundling None op)"
      | s' x n where "(h, s', x) \<in> set (snd (bundlePlan L signer client l t ops))"
        "view (snd (Tick L R signer client l es t db)) h = Some (applyUpdate n s' x (applyUpdate (now (es 1)) StatusBundling None op))"
      by (metis option.inject)
    then show ?thesis using u(4) op by cases auto
  next
    case False
    then have "view db1 h = view db h" by (simp add: c(5))
    moreover have "(h, s', x) \<notin> set (snd (bundlePlan L signer client l t ops))" for s' x
      using False u(3) by force
    ultimately show ?thesis using e by metis
  qed
  with e show ?thesis by blast
qed

lemma Tick_result:
  assumes db: "inv db" and q: "\<forall>i. quiet (es i)"
    and got: "rGetPending R (es 0) (maxBundle l) db = Ok ops" "ops \<noteq> []" "CheckBalance signer = Ok ()"
  shows "fst (Tick L R signer client l es t db) = fst (bundlePlan L signer client l t ops)"
proof -
  have "fst (rClaimForBundling R (es 1) (map Hash ops) db) = Ok ()"
    by (rule claim_progress [OF db]) (use pending_ok [OF db got(1)] q in auto)
  then obtain db1 where "rClaimForBundling R (es 1) (map Hash ops) db = (Ok (), db1)" by (metis prod.collapse)
  then show ?thesis by (simp add: Tick_plan got)
qed

text \<open>Every operation of the plan is updated when no call fails.\<close>

lemma Tick_bundle:
  assumes db: "inv db" and s: "wf_signer signer" and q: "\<forall>i. quiet (es i)"
    and got: "rGetPending R (es 0) (maxBundle l) db = Ok ops" "ops \<noteq> []" "CheckBalance signer = Ok ()"
    and u: "(h, s', x) \<in> set (snd (bundlePlan L signer client l t ops))"
  shows "\<exists>n m op. op \<in> set ops \<and> h = Hash op \<and> view (snd (Tick L R signer client l es t db)) h =
      Some (applyUpdate n s' x (applyUpdate m StatusBundling None op))"
proof -
  note p = pending_ok [OF db got(1)]
  have len: "\<forall>op \<in> set ops. length (Hash op) = 32" using p view_Hash [OF db] by blast
  have "fst (rClaimForBundling R (es 1) (map Hash ops) db) = Ok ()"
    by (rule claim_progress [OF db]) (use p q in auto)
  then obtain db1 where cl: "rClaimForBundling R (es 1) (map Hash ops) db = (Ok (), db1)"
    by (metis prod.collapse)
  note c = claimed [OF db got(1) cl]
  note v = bundlePlan_updates [OF s c(3,2) refl, of L client l t]
  have tick: "snd (Tick L R signer client l es t db) = snd (updateEach R es 2 (snd (bundlePlan L signer client l t ops)) db1)"
    using cl by (simp add: Tick_plan got)
  have "allowedUpdates (view db1) (snd (bundlePlan L signer client l t ops))"
  proof -
    have "\<exists>op. view db1 h = Some op \<and> OpStatus op = StatusBundling"
      if "h \<in> set (map fst (snd (bundlePlan L signer client l t ops)))" for h
    proof -
      from that v(3) obtain op where "op \<in> set ops" "h = Hash op" by blast
      with c(4) show ?thesis by (simp add: c(5))
    qed
    with v(4) show ?thesis by (force simp: allowedUpdates_def)
  qed
  from updateEach_all [where k = 2, OF c(1) v(1,2) this q u]
  obtain n op1 where v1: "view db1 h = Some op1"
    and tv: "view (snd (Tick L R signer client l es t db)) h = Some (applyUpdate n s' x op1)"
    unfolding tick by blast
  have "h \<in> set (map fst (snd (bundlePlan L signer client l t ops)))" using u by force
  with v(3) obtain op where op: "op \<in> set ops" "h = Hash op" by blast
  with c(4) v1 have "op1 = applyUpdate (now (es 1)) StatusBundling None op" by (simp add: c(5))
  with tv op show ?thesis by blast
qed

end

section \<open>Settling transactions\<close>

text \<open>Settling a list of transactions is one loop over the updates of all of them, until one panics.\<close>

definition okUpdates :: "ethlib \<Rightarrow> BundleClient \<Rightarrow> address \<Rightarrow> hash \<times> StoredOp list \<Rightarrow> statusUpdate list" where
  "okUpdates L client ep g = (case settleUpdates L client ep g of Ok us \<Rightarrow> us | _ \<Rightarrow> [])"

definition settled :: "ethlib \<Rightarrow> BundleClient \<Rightarrow> address \<Rightarrow> (hash \<times> StoredOp list) list \<Rightarrow> statusUpdate list" where
  "settled L client ep gs = concat (map (okUpdates L client ep) gs)"

lemma settled_simps [simp]:
  "settled L client ep [] = []" "settled L client ep (g # gs) = okUpdates L client ep g @ settled L client ep gs"
  by (simp_all add: settled_def)

definition groupsOk :: "(hash \<times> StoredOp list) list \<Rightarrow> bool" where
  "groupsOk gs \<longleftrightarrow> distinct (map Hash (concat (map snd gs))) \<and> (\<forall>op \<in> set (concat (map snd gs)). length (Hash op) = 32)"

lemma okUpdates_updates:
  assumes "\<forall>op \<in> set (snd g). length (Hash op) = 32" "distinct (map Hash (snd g))"
  shows "validUpdates (okUpdates L client ep g)" "distinct (map fst (okUpdates L client ep g))"
    "fst ` set (okUpdates L client ep g) \<subseteq> Hash ` set (snd g)"
    "\<forall>(h, s, x) \<in> set (okUpdates L client ep g). s \<in> {StatusConfirmed, StatusPending, StatusFailed}"
proof -
  show "validUpdates (okUpdates L client ep g)" "distinct (map fst (okUpdates L client ep g))"
    "fst ` set (okUpdates L client ep g) \<subseteq> Hash ` set (snd g)"
    "\<forall>(h, s, x) \<in> set (okUpdates L client ep g). s \<in> {StatusConfirmed, StatusPending, StatusFailed}"
    using settleUpdates_updates [OF _ assms, of L client ep]
    by (cases "settleUpdates L client ep g"; auto simp: okUpdates_def validUpdates_def)+
qed

lemma settled_updates:
  "groupsOk gs \<Longrightarrow> validUpdates (settled L client ep gs) \<and> distinct (map fst (settled L client ep gs)) \<and>
    fst ` set (settled L client ep gs) \<subseteq> Hash ` set (concat (map snd gs)) \<and>
    (\<forall>(h, s, x) \<in> set (settled L client ep gs). s \<in> {StatusConfirmed, StatusPending, StatusFailed})"
proof (induction gs)
  case (Cons g gs)
  have gs: "groupsOk gs" and g: "\<forall>op \<in> set (snd g). length (Hash op) = 32" "distinct (map Hash (snd g))"
    and disj: "Hash ` set (snd g) \<inter> Hash ` set (concat (map snd gs)) = {}"
    using Cons.prems by (auto simp: groupsOk_def)
  note IH = Cons.IH [OF gs] and ok = okUpdates_updates [OF g, of L client ep]
  have "fst ` set (okUpdates L client ep g) \<inter> fst ` set (settled L client ep gs) = {}"
    using IH ok(3) disj by blast
  moreover have "validUpdates (us @ vs) \<longleftrightarrow> validUpdates us \<and> validUpdates vs" for us vs
    by (simp add: validUpdates_def ball_Un)
  moreover have "fst ` set (settled L client ep (g # gs)) \<subseteq> Hash ` set (concat (map snd (g # gs)))"
    unfolding settled_simps set_append image_Un map_append concat_append list.map concat.simps
    using IH ok(3) by (meson Un_mono)
  ultimately show ?case using IH ok(1,2,4) by (simp add: ball_Un)
qed (simp add: validUpdates_def)

lemma settleEach_prefix:
  "\<exists>gs1 gs2. gs = gs1 @ gs2 \<and> snd (settleEach L R client ep es k gs db) = snd (updateEach R es k (settled L client ep gs1) db) \<and>
     (fst (settleEach L R client ep es k gs db) = Ok () \<longrightarrow> gs2 = [])"
proof (induction gs arbitrary: k db)
  case (Cons g gs)
  show ?case
  proof (cases "settleUpdates L client ep g")
    case (Ok us)
    obtain k' db' where u: "updateEach R es k us db = (k', db')" by (metis surj_pair)
    from Cons.IH [of k' db'] obtain gs1 gs2 where "gs = gs1 @ gs2"
      "snd (settleEach L R client ep es k' gs db') = snd (updateEach R es k' (settled L client ep gs1) db')"
      "fst (settleEach L R client ep es k' gs db') = Ok () \<longrightarrow> gs2 = []" by blast
    then show ?thesis
      by (intro exI [of _ "g # gs1"] exI [of _ gs2])
         (simp add: settleEach_Cons Ok u okUpdates_def updateEach_append)
  next
    case (Err er)
    then show ?thesis by (intro exI [of _ "[]"] exI [of _ "g # gs"]) (simp add: settleEach_Cons)
  next
    case (Panic m)
    then show ?thesis by (intro exI [of _ "[]"] exI [of _ "g # gs"]) (simp add: settleEach_Cons)
  qed
qed simp

lemma settleEach_Ok:
  "\<forall>g \<in> set gs. is_ok (settleUpdates L client ep g) \<Longrightarrow> fst (settleEach L R client ep es k gs db) = Ok ()"
  by (induction gs arbitrary: k db) (auto simp: settleEach_Cons is_ok_iff)

lemma groupsOk_append: "groupsOk (gs1 @ gs2) \<Longrightarrow> groupsOk gs1"
  by (auto simp: groupsOk_def)

lemma groupsOk_perm: "mset gs' = mset gs \<Longrightarrow> groupsOk gs \<Longrightarrow> groupsOk gs'"
proof -
  assume m: "mset gs' = mset gs" and g: "groupsOk gs"
  have "mset (concat (map snd xs)) = \<Sum>\<^sub># (image_mset (mset \<circ> snd) (mset xs))" for xs :: "(hash \<times> StoredOp list) list"
    by (induction xs) auto
  then have "mset (concat (map snd gs')) = mset (concat (map snd gs))" by (simp only: m)
  then have "mset (map Hash (concat (map snd gs'))) = mset (map Hash (concat (map snd gs)))"
    "set (concat (map snd gs')) = set (concat (map snd gs))"
    by (metis mset_map, metis set_mset_mset)
  with g show ?thesis unfolding groupsOk_def by (metis mset_eq_imp_distinct_iff)
qed

lemma groupsOk_groupByTx:
  assumes "distinct (map Hash qs)" "\<forall>op \<in> set qs. length (Hash op) = 32"
  shows "groupsOk (groupByTx qs [])"
proof -
  have m: "mset (concat (map snd (groupByTx qs []))) = mset (filter (\<lambda>q. BundleTxHash q \<noteq> None) qs)"
    by (simp add: groupByTx_ops)
  then have "mset (map Hash (concat (map snd (groupByTx qs [])))) = mset (map Hash (filter (\<lambda>q. BundleTxHash q \<noteq> None) qs))"
    by (simp only: mset_map)
  then have "distinct (map Hash (concat (map snd (groupByTx qs []))))"
    using distinct_map_filterI [OF assms(1)] mset_eq_imp_distinct_iff by blast
  moreover have "set (concat (map snd (groupByTx qs []))) \<subseteq> set qs"
    using m by (metis filter_is_subset set_mset_mset)
  ultimately show ?thesis using assms(2) unfolding groupsOk_def by blast
qed

end
