(* ===== verification/BundlingProps.thy ===== *)
theory BundlingProps
  imports BundlingSpec
begin

text \<open>
  The receipt watcher and the reconciliation over any repository, and the properties of the bundler:
  what a tick, a poll and a start-up do to the operations of the SQLite mempool.
\<close>

definition isOrder :: "('a list \<Rightarrow> 'a list) \<Rightarrow> bool" where
  "isOrder order \<longleftrightarrow> (\<forall>xs. mset (order xs) = mset xs)"

lemma settleUpdates_args:
  assumes "settleUpdates L client ep g = Ok us" "(h, s, x) \<in> set us"
    and "\<forall>rc. TransactionReceipt client (fst g) = Inr rc \<longrightarrow> rcStatus rc = 1 \<longrightarrow> uint (Uint64 (rcBlockNumber rc)) < 2 ^ 63"
  shows "argsOk x"
proof (cases "TransactionReceipt client (fst g)")
  case (Inl er)
  with assms(1,2) show ?thesis by (simp add: settleUpdates_def)
next
  case (Inr rc)
  have "argsOk (outcomeExtra rc oc)" if "rcStatus rc = 1" for oc
    using assms(3) Inr that by (simp add: argsOk_def outcomeExtra_def noExtra_def)
  with assms(1,2) Inr show ?thesis
    by (auto simp: settleUpdates_def resetUpdates_def outcomeUpdates_iff split: if_splits)
qed

lemma isOrder_set [simp]: "isOrder order \<Longrightarrow> set (order xs) = set xs"
  unfolding isOrder_def by (metis set_mset_mset)

text \<open>
  What the receipt of its transaction makes of a submitted operation: no receipt leaves it, a reverted
  bundle returns it to pending, a mined one gives the outcome of the logs.
\<close>

definition settlesTo :: "ethlib \<Rightarrow> BundleClient \<Rightarrow> address \<Rightarrow> hash \<Rightarrow> hash \<Rightarrow> StoredOp \<Rightarrow> StoredOp option \<Rightarrow> bool" where
  "settlesTo L client ep tx h op v =
     (case TransactionReceipt client tx of
        Inl _ \<Rightarrow> v = Some op
      | Inr rc \<Rightarrow>
         if rcStatus rc = 1
         then (case ParseHandleOpsReceipt L rc ep of
                 Ok m \<Rightarrow> (case m h of
                            None \<Rightarrow> v = Some op
                          | Some oc \<Rightarrow> \<exists>n. v = Some (applyUpdate n (outcomeStatus oc) (outcomeExtra rc oc) op))
               | _ \<Rightarrow> False)
         else \<exists>n. v = Some (applyUpdate n StatusPending None op))"

text \<open>
  The receipts the node has for the transactions of submitted operations can be read: the parser does not
  panic on a mined one, and its block number fits the signed column of the table.
\<close>

definition receiptsReadable :: "ethlib \<Rightarrow> BundleClient \<Rightarrow> address \<Rightarrow> view \<Rightarrow> bool" where
  "receiptsReadable L client ep v \<longleftrightarrow> (\<forall>h op tx rc. v h = Some op \<longrightarrow> OpStatus op = StatusSubmitted \<longrightarrow>
     BundleTxHash op = Some tx \<longrightarrow> TransactionReceipt client tx = Inr rc \<longrightarrow> rcStatus rc = 1 \<longrightarrow>
     is_ok (ParseHandleOpsReceipt L rc ep) \<and> uint (Uint64 (rcBlockNumber rc)) < 2 ^ 63)"

lemma appendTx_nonempty: "\<forall>g \<in> set m. snd g \<noteq> [] \<Longrightarrow> \<forall>g \<in> set (appendTx tx op m). snd g \<noteq> []"
  by (induction tx op m rule: appendTx.induct) auto

lemma groupByTx_nonempty: "\<forall>g \<in> set m. snd g \<noteq> [] \<Longrightarrow> \<forall>g \<in> set (groupByTx qs m). snd g \<noteq> []"
proof (induction qs arbitrary: m)
  case (Cons q qs)
  then show ?case using Cons.IH [OF appendTx_nonempty [OF Cons.prems]] by (cases "BundleTxHash q") simp_all
qed simp

section \<open>Over any repository\<close>

context repository
begin

text \<open>Settling the groups of the submitted operations.\<close>

lemma submitted_groups:
  assumes db: "inv db" and got: "rGetByStatus R e StatusSubmitted db = Ok qs" and o: "isOrder order"
  shows "groupsOk (order (groupByTx qs []))"
    "op \<in> set (concat (map snd (order (groupByTx qs [])))) \<Longrightarrow> view db (Hash op) = Some op \<and> OpStatus op = StatusSubmitted"
    "view db h = Some op \<Longrightarrow> OpStatus op = StatusSubmitted \<Longrightarrow> BundleTxHash op = Some tx \<Longrightarrow>
       \<exists>ops. (tx, ops) \<in> set (order (groupByTx qs [])) \<and> op \<in> set ops"
    "(tx, ops) \<in> set (order (groupByTx qs [])) \<Longrightarrow> op \<in> set ops \<Longrightarrow> BundleTxHash op = Some tx"
proof -
  note st = status_ok [OF db got]
  have len: "\<forall>op \<in> set qs. length (Hash op) = 32" using st view_Hash [OF db] by blast
  show "groupsOk (order (groupByTx qs []))"
    by (rule groupsOk_perm [OF _ groupsOk_groupByTx]) (use o st len in \<open>auto simp: isOrder_def\<close>)
  have mem: "(\<exists>ops. (t, ops) \<in> set (order (groupByTx qs [])) \<and> q \<in> set ops) \<longleftrightarrow> q \<in> set qs \<and> BundleTxHash q = Some t" for t q
    using groupByTx_mem [of t qs "[]" q] o by simp
  show "view db (Hash op) = Some op \<and> OpStatus op = StatusSubmitted"
    if "op \<in> set (concat (map snd (order (groupByTx qs []))))"
    using that mem st by fastforce
  show "\<exists>ops. (tx, ops) \<in> set (order (groupByTx qs [])) \<and> op \<in> set ops"
    if "view db h = Some op" "OpStatus op = StatusSubmitted" "BundleTxHash op = Some tx"
    using that mem [of tx op] st view_Hash [OF db that(1)] by blast
  show "BundleTxHash op = Some tx" if "(tx, ops) \<in> set (order (groupByTx qs []))" "op \<in> set ops"
    using that mem [of tx op] by blast
qed

lemma settle_safe:
  assumes db: "inv db" and got: "rGetByStatus R e StatusSubmitted db = Ok qs" and o: "isOrder order"
  shows "inv (snd (settleEach L R client ep es k (order (groupByTx qs [])) db)) \<and>
    (\<forall>h. view (snd (settleEach L R client ep es k (order (groupByTx qs [])) db)) h = view db h \<or>
       (\<exists>op op'. view db h = Some op \<and> OpStatus op = StatusSubmitted \<and>
          view (snd (settleEach L R client ep es k (order (groupByTx qs [])) db)) h = Some op' \<and>
          PackedUserOp.truncate op' = PackedUserOp.truncate op \<and>
          OpStatus op' \<in> {StatusConfirmed, StatusPending, StatusFailed}))"
proof -
  let ?gs = "order (groupByTx qs [])"
  note g = submitted_groups [OF db got o]
  obtain gs1 gs2 where gs: "?gs = gs1 @ gs2"
    and r: "snd (settleEach L R client ep es k ?gs db) = snd (updateEach R es k (settled L client ep gs1) db)"
    using settleEach_prefix [of ?gs L R client ep es k db] by blast
  have "groupsOk gs1" using g(1) unfolding gs by (rule groupsOk_append)
  note u = settled_updates [OF this, of L client ep]
  have e: "inv (snd (settleEach L R client ep es k ?gs db))"
    "\<And>h. view (snd (settleEach L R client ep es k ?gs db)) h = view db h \<or>
       (\<exists>s x n op. (h, s, x) \<in> set (settled L client ep gs1) \<and> view db h = Some op \<and>
          view (snd (settleEach L R client ep es k ?gs db)) h = Some (applyUpdate n s x op))"
    using updateEach_cases [OF db, of "settled L client ep gs1" es k, folded r] u by simp_all
  have "OpStatus op = StatusSubmitted" if us: "(h, s, x) \<in> set (settled L client ep gs1)" and v: "view db h = Some op" for h s x op
  proof -
    have "h \<in> fst ` set (settled L client ep gs1)" using us by force
    then have "h \<in> Hash ` set (concat (map snd gs1))" using u by blast
    then obtain q where q: "h = Hash q" "q \<in> set (concat (map snd ?gs))" by (auto simp: gs)
    from g(2) [OF q(2)] v q(1) show ?thesis by simp
  qed
  note subm = this
  have stat: "s \<in> {StatusConfirmed, StatusPending, StatusFailed}" if "(h, s, x) \<in> set (settled L client ep gs1)" for h s x
    using u that by auto
  show ?thesis
  proof (intro conjI allI)
    show "inv (snd (settleEach L R client ep es k ?gs db))" by (fact e(1))
    fix h
    from e(2) [of h] consider "view (snd (settleEach L R client ep es k ?gs db)) h = view db h"
      | s x n op where "(h, s, x) \<in> set (settled L client ep gs1)" "view db h = Some op"
        "view (snd (settleEach L R client ep es k ?gs db)) h = Some (applyUpdate n s x op)" by blast
    then show "view (snd (settleEach L R client ep es k ?gs db)) h = view db h \<or>
       (\<exists>op op'. view db h = Some op \<and> OpStatus op = StatusSubmitted \<and>
          view (snd (settleEach L R client ep es k ?gs db)) h = Some op' \<and>
          PackedUserOp.truncate op' = PackedUserOp.truncate op \<and>
          OpStatus op' \<in> {StatusConfirmed, StatusPending, StatusFailed})"
    proof cases
      case 2
      with subm [OF 2(1,2)] stat [OF 2(1)] show ?thesis by simp
    qed simp
  qed
qed

lemma settle_all:
  assumes db: "inv db" and got: "rGetByStatus R e StatusSubmitted db = Ok qs" and o: "isOrder order"
    and q: "\<forall>i. quiet (es i)"
    and ok: "\<forall>g \<in> set (order (groupByTx qs [])). is_ok (settleUpdates L client ep g)"
    and small: "\<forall>g \<in> set (order (groupByTx qs [])). \<forall>rc. TransactionReceipt client (fst g) = Inr rc \<longrightarrow> rcStatus rc = 1 \<longrightarrow>
      uint (Uint64 (rcBlockNumber rc)) < 2 ^ 63"
  shows "fst (settleEach L R client ep es k (order (groupByTx qs [])) db) = Ok ()"
    and "g \<in> set (order (groupByTx qs [])) \<Longrightarrow> settleUpdates L client ep g = Ok us \<Longrightarrow> (h, s, x) \<in> set us \<Longrightarrow>
      \<exists>n op. view db h = Some op \<and>
        view (snd (settleEach L R client ep es k (order (groupByTx qs [])) db)) h = Some (applyUpdate n s x op)"
    and "(\<And>g us. g \<in> set (order (groupByTx qs [])) \<Longrightarrow> settleUpdates L client ep g = Ok us \<Longrightarrow> h \<notin> fst ` set us) \<Longrightarrow>
      view (snd (settleEach L R client ep es k (order (groupByTx qs [])) db)) h = view db h"
proof -
  let ?gs = "order (groupByTx qs [])"
  note g = submitted_groups [OF db got o]
  show fst: "fst (settleEach L R client ep es k ?gs db) = Ok ()" by (rule settleEach_Ok [OF ok])
  with settleEach_prefix [of ?gs L R client ep es k db]
  have r: "snd (settleEach L R client ep es k ?gs db) = snd (updateEach R es k (settled L client ep ?gs) db)"
    by (metis append_Nil2)
  note u = settled_updates [OF g(1), of L client ep]
  have args: "argsOk x" if "(h, s, x) \<in> set (settled L client ep ?gs)" for h s x
  proof -
    from that obtain g where "g \<in> set ?gs" "(h, s, x) \<in> set (okUpdates L client ep g)" by (auto simp: settled_def)
    then obtain us where g: "g \<in> set ?gs" "settleUpdates L client ep g = Ok us" "(h, s, x) \<in> set us"
      by (cases "settleUpdates L client ep g") (auto simp: okUpdates_def)
    from settleUpdates_args [OF g(2,3)] small g(1) show ?thesis by blast
  qed
  have subm: "\<exists>op. view db h = Some op \<and> OpStatus op = StatusSubmitted" if "(h, s, x) \<in> set (settled L client ep ?gs)" for h s x
  proof -
    have "h \<in> fst ` set (settled L client ep ?gs)" using that by force
    then have "h \<in> Hash ` set (concat (map snd ?gs))" using u by blast
    then obtain q where "h = Hash q" "q \<in> set (concat (map snd ?gs))" by blast
    with g(2) show ?thesis by blast
  qed
  have allow: "allowedUpdates (view db) (settled L client ep ?gs)"
    unfolding allowedUpdates_def using args subm by fastforce
  show "\<exists>n op. view db h = Some op \<and> view (snd (settleEach L R client ep es k ?gs db)) h = Some (applyUpdate n s x op)"
    if "g \<in> set ?gs" "settleUpdates L client ep g = Ok us" "(h, s, x) \<in> set us"
  proof -
    have "(h, s, x) \<in> set (settled L client ep ?gs)"
      using that by (force simp: settled_def okUpdates_def)
    from updateEach_all [OF db _ _ allow q this, of k] u show ?thesis unfolding r by blast
  qed
  show "view (snd (settleEach L R client ep es k ?gs db)) h = view db h"
    if none: "\<And>g us. g \<in> set ?gs \<Longrightarrow> settleUpdates L client ep g = Ok us \<Longrightarrow> h \<notin> fst ` set us"
  proof -
    have "(h, s, x) \<notin> set (settled L client ep ?gs)" for s x
      using none by (force simp: settled_def okUpdates_def split: res.splits)
    with updateEach_cases [OF db, of "settled L client ep ?gs" es k, folded r] u show ?thesis by metis
  qed
qed

text \<open>An update of a submitted operation comes from the group of its own transaction.\<close>

lemma settle_own_group:
  assumes db: "inv db" and got: "rGetByStatus R e StatusSubmitted db = Ok qs" and o: "isOrder order"
    and g': "g' \<in> set (order (groupByTx qs []))" "settleUpdates L client ep g' = Ok us" "h \<in> fst ` set us"
    and op: "view db h = Some op" "BundleTxHash op = Some tx"
  shows "fst g' = tx"
proof -
  let ?gs = "order (groupByTx qs [])"
  note g = submitted_groups [OF db got o]
  obtain tx' ops' where g'_eq: "g' = (tx', ops')" by (cases g')
  from g(1) g'(1) have gok: "\<forall>op \<in> set (snd g'). length (Hash op) = 32" "distinct (map Hash (snd g'))"
    by (auto simp: groupsOk_def dest!: split_list)
  from g'(3) settleUpdates_updates(3) [OF g'(2) gok] obtain q where q: "q \<in> set ops'" "h = Hash q"
    by (auto simp: g'_eq)
  then have "q \<in> set (concat (map snd ?gs))" using g'(1) g'_eq by force
  with g(2) q(2) op(1) have "q = op" by fastforce
  with g(4) g'(1) q(1) op(2) show ?thesis by (auto simp: g'_eq)
qed

lemma readable_groups:
  assumes db: "inv db" and got: "rGetByStatus R e StatusSubmitted db = Ok qs" and o: "isOrder order"
    and ok: "receiptsReadable L client ep (view db)"
    and g: "g \<in> set (order (groupByTx qs []))" "TransactionReceipt client (fst g) = Inr rc" "rcStatus rc = 1"
  shows "is_ok (ParseHandleOpsReceipt L rc ep) \<and> uint (Uint64 (rcBlockNumber rc)) < 2 ^ 63"
proof -
  obtain tx ops where eq: "g = (tx, ops)" by (cases g)
  have "ops \<noteq> []" using groupByTx_nonempty [of "[]" qs] g(1) o by (auto simp: eq)
  then obtain op where op: "op \<in> set ops" by (meson last_in_set)
  note gs = submitted_groups [OF db got o]
  have "op \<in> set (concat (map snd (order (groupByTx qs []))))" using op g(1) by (force simp: eq)
  from gs(2) [OF this] gs(4) [OF g(1) [unfolded eq] op] ok g(2,3) show ?thesis
    unfolding receiptsReadable_def eq fst_conv by blast
qed

lemma settle_reads:
  assumes db: "inv db" and got: "rGetByStatus R e StatusSubmitted db = Ok qs" and o: "isOrder order"
    and q: "\<forall>i. quiet (es i)" and ok: "receiptsReadable L client ep (view db)"
  shows "fst (settleEach L R client ep es k (order (groupByTx qs [])) db) = Ok ()"
    "\<forall>g \<in> set (order (groupByTx qs [])). is_ok (settleUpdates L client ep g)"
proof -
  show oks: "\<forall>g \<in> set (order (groupByTx qs [])). is_ok (settleUpdates L client ep g)"
    using readable_groups [OF db got o ok] by (fastforce simp: settleUpdates_def is_ok_iff split: sum.split)
  show "fst (settleEach L R client ep es k (order (groupByTx qs [])) db) = Ok ()" by (rule settleEach_Ok [OF oks])
qed

text \<open>What happens to one submitted operation, by the receipt of its transaction.\<close>

lemma settle_one:
  assumes db: "inv db" and got: "rGetByStatus R e StatusSubmitted db = Ok qs" and o: "isOrder order"
    and q: "\<forall>i. quiet (es i)"
    and ok: "receiptsReadable L client ep (view db)"
    and op: "view db h = Some op" "OpStatus op = StatusSubmitted" "BundleTxHash op = Some tx"
  shows "settlesTo L client ep tx h op (view (snd (settleEach L R client ep es k (order (groupByTx qs [])) db)) h)"
proof -
  let ?gs = "order (groupByTx qs [])"
  let ?db' = "snd (settleEach L R client ep es k ?gs db)"
  note g = submitted_groups [OF db got o]
  note oks = settle_reads(2) [OF db got o q ok]
  have "\<forall>g \<in> set ?gs. \<forall>rc. TransactionReceipt client (fst g) = Inr rc \<longrightarrow> rcStatus rc = 1 \<longrightarrow> uint (Uint64 (rcBlockNumber rc)) < 2 ^ 63"
    using readable_groups [OF db got o ok] by blast
  note all = settle_all [OF db got o q oks this]
  obtain ops where ops: "(tx, ops) \<in> set ?gs" "op \<in> set ops" using g(3) [OF op] by blast
  have h: "h = Hash op" using view_Hash [OF db op(1)] by simp
  have upd: "\<exists>n. view ?db' h = Some (applyUpdate n s x op)"
    if "settleUpdates L client ep (tx, ops) = Ok us" "(h, s, x) \<in> set us" for us s x
    using all(2) [OF ops(1) that, of k] op(1) by auto
  have same: "view ?db' h = Some op"
    if none: "\<And>ops us. settleUpdates L client ep (tx, ops) = Ok us \<Longrightarrow> h \<notin> fst ` set us"
  proof -
    have notin: "h \<notin> fst ` set us" if g': "g' \<in> set ?gs" "settleUpdates L client ep g' = Ok us" for g' us
    proof
      assume hu: "h \<in> fst ` set us"
      have "fst g' = tx" by (rule settle_own_group [OF db got o g' hu op(1,3)])
      with none [of "snd g'" us] g'(2) hu show False by (cases g') auto
    qed
    have "view ?db' h = view db h" by (rule all(3)) (rule notin)
    with op(1) show ?thesis by simp
  qed
  show "settlesTo L client ep tx h op (view ?db' h)"
  proof (cases "TransactionReceipt client tx")
    case (Inl er)
    then show ?thesis using same by (simp add: settlesTo_def settleUpdates_def)
  next
    case (Inr rc)
    show ?thesis
    proof (cases "rcStatus rc = 1")
      case True
      then obtain m where m: "ParseHandleOpsReceipt L rc ep = Ok m"
        using readable_groups [OF db got o ok ops(1), of rc] Inr by (auto simp: is_ok_iff)
      show ?thesis
      proof (cases "m h")
        case None
        then have "view ?db' h = Some op"
          by (intro same) (auto simp: settleUpdates_def Inr True m outcomeUpdates_iff)
        with Inr True m None show ?thesis by (simp add: settlesTo_def)
      next
        case (Some oc)
        have "(h, outcomeStatus oc, outcomeExtra rc oc) \<in> set (outcomeUpdates rc m ops)"
          using ops(2) h Some by (auto simp: outcomeUpdates_iff)
        with upd [of "outcomeUpdates rc m ops"] Inr True m Some show ?thesis
          by (simp add: settlesTo_def settleUpdates_def)
      qed
    next
      case False
      have "(h, StatusPending, None) \<in> set (resetUpdates ops)" using ops(2) h by (auto simp: resetUpdates_def)
      with upd [of "resetUpdates ops"] Inr False show ?thesis by (simp add: settlesTo_def settleUpdates_def)
    qed
  qed
qed

text \<open>A receipt that makes the parser panic stops the settling, and leaves its operations submitted.\<close>

lemma settleEach_Ok_all:
  "fst (settleEach L R client ep es k gs db) = Ok () \<Longrightarrow> \<forall>g \<in> set gs. is_ok (settleUpdates L client ep g)"
  by (induction gs arbitrary: k db) (auto simp: settleEach_Cons split: res.splits)

lemma settle_poisoned:
  assumes db: "inv db" and got: "rGetByStatus R e StatusSubmitted db = Ok qs" and o: "isOrder order"
    and op: "view db h = Some op" "OpStatus op = StatusSubmitted" "BundleTxHash op = Some tx"
    and bad: "\<And>ops. \<not> is_ok (settleUpdates L client ep (tx, ops))"
  shows "fst (settleEach L R client ep es k (order (groupByTx qs [])) db) \<noteq> Ok ()"
    and "view (snd (settleEach L R client ep es k (order (groupByTx qs [])) db)) h = Some op"
proof -
  let ?gs = "order (groupByTx qs [])"
  note g = submitted_groups [OF db got o]
  obtain ops where "(tx, ops) \<in> set ?gs" using g(3) [OF op] by blast
  then show "fst (settleEach L R client ep es k ?gs db) \<noteq> Ok ()" using settleEach_Ok_all bad by blast
  obtain gs1 gs2 where gs: "?gs = gs1 @ gs2"
    and r: "snd (settleEach L R client ep es k ?gs db) = snd (updateEach R es k (settled L client ep gs1) db)"
    using settleEach_prefix [of ?gs L R client ep es k db] by blast
  have "groupsOk gs1" using g(1) unfolding gs by (rule groupsOk_append)
  note u = settled_updates [OF this, of L client ep]
  have "(h, s, x) \<notin> set (settled L client ep gs1)" for s x
  proof
    assume "(h, s, x) \<in> set (settled L client ep gs1)"
    then obtain g' us where g': "g' \<in> set ?gs" "settleUpdates L client ep g' = Ok us" "h \<in> fst ` set us"
      by (force simp: settled_def okUpdates_def gs split: res.splits)
    from settle_own_group [OF db got o g' op(1,3)] bad [of "snd g'"] g'(2) show False by (cases g') simp
  qed
  then show "view (snd (settleEach L R client ep es k ?gs db)) h = Some op"
    using updateEach_cases [OF db, of "settled L client ep gs1" es k, folded r] u op(1) by metis
qed

end

section \<open>A sample node and signer\<close>

definition sampleClient :: BundleClient where
  "sampleClient = \<lparr>EstimateGas = (\<lambda>_ _ _. Inr 100000), CallContract = (\<lambda>_ _ _. Inr []),
     TransactionReceipt = (\<lambda>_. Inl \<lparr>neText = ''not found'', neIsNotFound = True\<rparr>)\<rparr>"

definition sampleSigner :: Signer where
  "sampleSigner = \<lparr>SignerAddress = replicate 20 5, CheckBalance = Ok (),
     SignAndSubmit = (\<lambda>_ _ _. Ok (sampleHash 200))\<rparr>"

definition sampleLoop :: BundlingLoop where
  "sampleLoop = \<lparr>entryPoint = replicate 20 34, maxBundle = 10, tick = 5000000000\<rparr>"

lemma sampleSigner_wf [simp]: "wf_signer sampleSigner"
  by (simp add: wf_signer_def sampleSigner_def)

section \<open>Properties of the bundling loop\<close>

text \<open>
Whatever the node, the signer and the database do, a tick changes only operations that were
pending; their packed content stays, and afterwards they are bundling, submitted, failed or pending.
\<close>

theorem tick_touches_only_pending:
  assumes "ethlib_ok L" "table_inv L t" "wf_signer signer"
  shows "table_inv L (snd (Tick L (sqliteRepo L) signer client l es now t)) \<and>
    (\<forall>h. tableView L (snd (Tick L (sqliteRepo L) signer client l es now t)) h = tableView L t h \<or>
       (\<exists>op op'. tableView L t h = Some op \<and> OpStatus op = StatusPending \<and>
          tableView L (snd (Tick L (sqliteRepo L) signer client l es now t)) h = Some op' \<and>
          PackedUserOp.truncate op' = PackedUserOp.truncate op \<and>
          OpStatus op' \<in> {StatusBundling, StatusPending, StatusSubmitted, StatusFailed}))"
  by (rule repository.Tick_safe [OF sqlite_repository [OF assms(1)] assms(2,3)])

theorem tick_touches_only_pending_witness:
  "table_inv hexLib (snd (Tick hexLib (sqliteRepo hexLib) sampleSigner sampleClient sampleLoop (\<lambda>_. sampleEnv) 1500 table1))"
  using tick_touches_only_pending [OF hexLib_ok table1_view(1) sampleSigner_wf] by blast

lemma tick_submitted:
  assumes L: "ethlib_ok L" and t: "table_inv L t" and s: "wf_signer signer"
    and q: "\<forall>i. quiet (es i)" and b: "CheckBalance signer = Ok ()"
    and got: "GetPending L (es 0) (maxBundle l) t = Ok ops" "ops \<noteq> []"
    and cd: "calldata = BuildHandleOpsCalldata L ops (SignerAddress signer)"
    and est: "EstimateGas client (SignerAddress signer) (entryPoint l) calldata = Inr gas"
    and sub: "SignAndSubmit signer (entryPoint l) calldata (gas * 12 div 10) = Ok tx"
  shows "fst (Tick L (sqliteRepo L) signer client l es now t) = Ok ()"
    and "i < length ops \<Longrightarrow> \<exists>op'. tableView L (snd (Tick L (sqliteRepo L) signer client l es now t)) (Hash (ops ! i)) = Some op' \<and>
       OpStatus op' = StatusSubmitted \<and> BundleTxHash op' = Some tx \<and> BundleIndex op' = Some (int i) \<and>
       SubmittedAt op' = Some now \<and> PackedUserOp.truncate op' = PackedUserOp.truncate (ops ! i) \<and> Hash op' = Hash (ops ! i)"
proof -
  have plan: "bundlePlan L signer client l now ops = (Ok (), submitUpdates tx now ops)"
    using cd est sub by (simp add: bundlePlan_def)
  have g: "rGetPending (sqliteRepo L) (es 0) (maxBundle l) t = Ok ops" by (simp add: sqliteRepo_def got)
  note p = GetPending_ok [OF L t got(1)]
  show "fst (Tick L (sqliteRepo L) signer client l es now t) = Ok ()"
    using repository.Tick_result [OF sqlite_repository [OF L] t q g got(2) b] plan by simp
  show "\<exists>op'. tableView L (snd (Tick L (sqliteRepo L) signer client l es now t)) (Hash (ops ! i)) = Some op' \<and>
       OpStatus op' = StatusSubmitted \<and> BundleTxHash op' = Some tx \<and> BundleIndex op' = Some (int i) \<and>
       SubmittedAt op' = Some now \<and> PackedUserOp.truncate op' = PackedUserOp.truncate (ops ! i) \<and> Hash op' = Hash (ops ! i)"
    if i: "i < length ops"
  proof -
    have u: "(Hash (ops ! i), StatusSubmitted, submitExtra tx (int i) now) \<in> set (snd (bundlePlan L signer client l now ops))"
      using i by (auto simp: plan submitUpdates_iff)
    from repository.Tick_bundle [OF sqlite_repository [OF L] t s q g got(2) b u]
    obtain n m op where op: "op \<in> set ops" "Hash (ops ! i) = Hash op"
      and v: "tableView L (snd (Tick L (sqliteRepo L) signer client l es now t)) (Hash (ops ! i)) =
        Some (applyUpdate n StatusSubmitted (submitExtra tx (int i) now) (applyUpdate m StatusBundling None op))" by blast
    have "op = ops ! i" using p op i distinct_map_eqD [of Hash ops op "ops ! i"] by simp
    then show ?thesis unfolding v by (simp add: applyUpdate_def submitExtra_def noExtra_def PackedUserOp.truncate_def)
  qed
qed

text \<open>
C19: when the estimate and the submission succeed and the database works, the tick takes the oldest pending
operations, in the order of their arrival: an operation it leaves out arrived no earlier than any it takes,
and only a full bundle leaves one out. It sends them in one transaction, whose calldata, when the
operations have the widths of the ABI (\<open>callFits\<close>), decodes to exactly these operations, and each
becomes submitted with the hash of the transaction and its position in the bundle.
\<close>

theorem tick_submits_bundle:
  assumes L: "ethlib_ok L" and t: "table_inv L t" and s: "wf_signer signer" "length (SignerAddress signer) = 20"
    and q: "\<forall>i. quiet (es i)" and b: "CheckBalance signer = Ok ()"
    and got: "GetPending L (es 0) (maxBundle l) t = Ok ops" "ops \<noteq> []" "callFits ops"
    and cd: "calldata = BuildHandleOpsCalldata L ops (SignerAddress signer)"
    and est: "EstimateGas client (SignerAddress signer) (entryPoint l) calldata = Inr gas"
    and sub: "SignAndSubmit signer (entryPoint l) calldata (gas * 12 div 10) = Ok tx"
  shows "fst (Tick L (sqliteRepo L) signer client l es now t) = Ok () \<and>
    (\<forall>op \<in> set ops. tableView L t (Hash op) = Some op \<and> OpStatus op = StatusPending) \<and> sorted (map ReceivedAt ops) \<and>
    (\<forall>h op. tableView L t h = Some op \<longrightarrow> OpStatus op = StatusPending \<longrightarrow> op \<notin> set ops \<longrightarrow>
       int (length ops) = maxBundle l \<and> (\<forall>q \<in> set ops. ReceivedAt q \<le> ReceivedAt op)) \<and>
    readHandleOps calldata = (map PackedUserOp.truncate ops, SignerAddress signer) \<and>
    (\<forall>i < length ops. \<exists>op'. tableView L (snd (Tick L (sqliteRepo L) signer client l es now t)) (Hash (ops ! i)) = Some op' \<and>
       OpStatus op' = StatusSubmitted \<and> BundleTxHash op' = Some tx \<and> BundleIndex op' = Some (int i) \<and>
       SubmittedAt op' = Some now \<and> PackedUserOp.truncate op' = PackedUserOp.truncate (ops ! i))"
proof -
  have "readHandleOps calldata = (map PackedUserOp.truncate ops, SignerAddress signer)"
    unfolding cd by (rule readHandleOps_BuildHandleOpsCalldata [OF L got(3) s(2)])
  with tick_submitted [OF L t s(1) q b got(1,2) cd est sub] GetPending_ok [OF L t got(1)] show ?thesis by blast
qed

lemma sample_tick:
  "GetPending hexLib ((\<lambda>_. sampleEnv) 0) (maxBundle sampleLoop) table1 = Ok [freshOp 1000 (plainOp 7 3) (sampleHash 1)]"
  by (simp add: sampleLoop_def table1_pending)

lemma callFits_sample: "callFits [freshOp 1000 (plainOp 7 3) (sampleHash 1)]"
proof -
  have "length (abiBytes d) = 32 + paddedLen (length d)" if "length d < 100" for d
    using that by (intro length_abiBytes uint256_of_nat) simp
  then show ?thesis
    by (simp add: callFits_def fits_def wf_op_def uint256_op_def uint256_def abiTuple_def Let_def plainOp_def freshOp_def
        PackedUserOp.defs paddedLen_def)
qed

theorem tick_submits_bundle_witness:
  "\<exists>op'. tableView hexLib (snd (Tick hexLib (sqliteRepo hexLib) sampleSigner sampleClient sampleLoop
       (\<lambda>_. sampleEnv) 1500 table1)) (sampleHash 1) = Some op' \<and>
     OpStatus op' = StatusSubmitted \<and> BundleTxHash op' = Some (sampleHash 200)"
proof -
  have "EstimateGas sampleClient a b c = Inr 100000" "SignAndSubmit sampleSigner a c g = Ok (sampleHash 200)"
    "length (SignerAddress sampleSigner) = 20" "CheckBalance sampleSigner = Ok ()" for a b c g
    by (simp_all add: sampleClient_def sampleSigner_def)
  note this [simp]
  have "\<forall>i < length [freshOp 1000 (plainOp 7 3) (sampleHash 1)]. \<exists>op'.
      tableView hexLib (snd (Tick hexLib (sqliteRepo hexLib) sampleSigner sampleClient sampleLoop
        (\<lambda>_. sampleEnv) 1500 table1)) (Hash ([freshOp 1000 (plainOp 7 3) (sampleHash 1)] ! i)) = Some op' \<and>
      OpStatus op' = StatusSubmitted \<and> BundleTxHash op' = Some (sampleHash 200)"
    using tick_submits_bundle [OF hexLib_ok table1_view(1) sampleSigner_wf _ _ _ sample_tick _ callFits_sample refl,
        of sampleClient 100000 "sampleHash 200" 1500] by simp blast
  from this [rule_format, of 0] show ?thesis by simp
qed

text \<open>
C31: on a working database, when the gas estimate fails for a reason other than an execution revert, or the
submission fails, the tick reports the error and every operation it had claimed is
pending again, with the same content and the same place in the queue.
\<close>

theorem tick_failure_releases:
  assumes L: "ethlib_ok L" and t: "table_inv L t" and s: "wf_signer signer"
    and q: "\<forall>i. quiet (es i)" and b: "CheckBalance signer = Ok ()"
    and got: "GetPending L (es 0) (maxBundle l) t = Ok ops" "ops \<noteq> []"
    and cd: "calldata = BuildHandleOpsCalldata L ops (SignerAddress signer)"
    and fails: "(\<exists>er. EstimateGas client (SignerAddress signer) (entryPoint l) calldata = Inl er \<and>
          \<not> isEntryPointRevert er (extractRevertReason client (SignerAddress signer) (entryPoint l) calldata)) \<or>
        (\<exists>gas er. EstimateGas client (SignerAddress signer) (entryPoint l) calldata = Inr gas \<and>
          SignAndSubmit signer (entryPoint l) calldata (gas * 12 div 10) = Err er)"
  shows "(\<exists>er. fst (Tick L (sqliteRepo L) signer client l es now t) = Err er) \<and>
    (\<forall>op \<in> set ops. \<exists>op'. tableView L (snd (Tick L (sqliteRepo L) signer client l es now t)) (Hash op) = Some op' \<and>
       OpStatus op' = StatusPending \<and> ReceivedAt op' = ReceivedAt op \<and>
       PackedUserOp.truncate op' = PackedUserOp.truncate op)"
proof -
  have plan: "\<exists>er. bundlePlan L signer client l now ops = (Err er, resetUpdates ops)"
    using cd fails by (auto simp: bundlePlan_def)
  have g: "rGetPending (sqliteRepo L) (es 0) (maxBundle l) t = Ok ops" by (simp add: sqliteRepo_def got)
  have "\<exists>op'. tableView L (snd (Tick L (sqliteRepo L) signer client l es now t)) (Hash op) = Some op' \<and>
       OpStatus op' = StatusPending \<and> ReceivedAt op' = ReceivedAt op \<and>
       PackedUserOp.truncate op' = PackedUserOp.truncate op" if op: "op \<in> set ops" for op
  proof -
    have u: "(Hash op, StatusPending, None) \<in> set (snd (bundlePlan L signer client l now ops))"
      using op plan by (auto simp: resetUpdates_def)
    from repository.Tick_bundle [OF sqlite_repository [OF L] t s q g got(2) b u]
    obtain n m q where q: "q \<in> set ops" "Hash op = Hash q"
      and v: "tableView L (snd (Tick L (sqliteRepo L) signer client l es now t)) (Hash op) =
        Some (applyUpdate n StatusPending None (applyUpdate m StatusBundling None q))" by blast
    have "q = op" using q op GetPending_ok [OF L t got(1)] distinct_map_eqD [of Hash ops q op] by simp
    with v show ?thesis by simp
  qed
  moreover have "\<exists>er. fst (Tick L (sqliteRepo L) signer client l es now t) = Err er"
    using repository.Tick_result [OF sqlite_repository [OF L] t q g got(2) b] plan by auto
  ultimately show ?thesis by blast
qed

definition downClient :: BundleClient where
  "downClient = sampleClient\<lparr>EstimateGas := (\<lambda>_ _ _. Inl \<lparr>neText = ''connection refused'', neIsNotFound = False\<rparr>)\<rparr>"

theorem tick_failure_releases_witness:
  "\<exists>op'. tableView hexLib (snd (Tick hexLib (sqliteRepo hexLib) sampleSigner downClient sampleLoop
       (\<lambda>_. sampleEnv) 1500 table1)) (sampleHash 1) = Some op' \<and> OpStatus op' = StatusPending"
proof -
  have est: "EstimateGas downClient a b c = Inl \<lparr>neText = ''connection refused'', neIsNotFound = False\<rparr>"
    and reas: "extractRevertReason downClient a b c = ''unknown''" for a b c
    by (simp_all add: downClient_def sampleClient_def extractRevertReason_def)
  have "\<not> isEntryPointRevert \<lparr>neText = ''connection refused'', neIsNotFound = False\<rparr> ''unknown''"
    by code_simp
  then show ?thesis
    using tick_failure_releases [OF hexLib_ok table1_view(1) sampleSigner_wf _ _ sample_tick _ refl, of downClient 1500]
    by (simp add: est reas) (auto simp: sampleSigner_def)
qed

text \<open>
C37: on a working database, when the estimate of a bundle fails with an error that counts as a revert of the
entry point, the tick reports it and every operation of the bundle is failed for good with the
same reason, also the operations of other senders that the revert does not concern.
\<close>

theorem tick_revert_fails_whole_bundle:
  assumes L: "ethlib_ok L" and t: "table_inv L t" and s: "wf_signer signer"
    and q: "\<forall>i. quiet (es i)" and b: "CheckBalance signer = Ok ()"
    and got: "GetPending L (es 0) (maxBundle l) t = Ok ops" "ops \<noteq> []"
    and cd: "calldata = BuildHandleOpsCalldata L ops (SignerAddress signer)"
    and est: "EstimateGas client (SignerAddress signer) (entryPoint l) calldata = Inl er"
    and rev: "isEntryPointRevert er (extractRevertReason client (SignerAddress signer) (entryPoint l) calldata)"
  shows "fst (Tick L (sqliteRepo L) signer client l es now t) = Err (ErrWrap ''estimate gas'' (nodeErr er)) \<and>
    (\<forall>op \<in> set ops. \<exists>op'. tableView L (snd (Tick L (sqliteRepo L) signer client l es now t)) (Hash op) = Some op' \<and>
       OpStatus op' = StatusFailed \<and> PackedUserOp.truncate op' = PackedUserOp.truncate op \<and>
       RevertReason op' = Some (extractRevertReason client (SignerAddress signer) (entryPoint l) calldata))"
proof (intro conjI ballI)
  let ?r = "extractRevertReason client (SignerAddress signer) (entryPoint l) calldata"
  have g: "rGetPending (sqliteRepo L) (es 0) (maxBundle l) t = Ok ops" by (simp add: sqliteRepo_def got)
  have plan: "fst (bundlePlan L signer client l now ops) = Err (ErrWrap ''estimate gas'' (nodeErr er))"
    "op \<in> set ops \<Longrightarrow> (Hash op, StatusFailed, reasonExtra ?r) \<in> set (snd (bundlePlan L signer client l now ops))" for op
    using cd est rev by (auto simp: bundlePlan_def Let_def)
  show "fst (Tick L (sqliteRepo L) signer client l es now t) = Err (ErrWrap ''estimate gas'' (nodeErr er))"
    using repository.Tick_result [OF sqlite_repository [OF L] t q g got(2) b] plan(1) by simp
  show "\<exists>op'. tableView L (snd (Tick L (sqliteRepo L) signer client l es now t)) (Hash op) = Some op' \<and>
       OpStatus op' = StatusFailed \<and> PackedUserOp.truncate op' = PackedUserOp.truncate op \<and> RevertReason op' = Some ?r"
    if op: "op \<in> set ops" for op
  proof -
    from repository.Tick_bundle [OF sqlite_repository [OF L] t s q g got(2) b plan(2) [OF op]]
    obtain n m q where q: "q \<in> set ops" "Hash op = Hash q"
      and v: "tableView L (snd (Tick L (sqliteRepo L) signer client l es now t)) (Hash op) =
        Some (applyUpdate n StatusFailed (reasonExtra ?r) (applyUpdate m StatusBundling None q))" by blast
    have "q = op" using q op GetPending_ok [OF L t got(1)] distinct_map_eqD [of Hash ops q op] by simp
    then show ?thesis unfolding v by (simp add: applyUpdate_def reasonExtra_def noExtra_def PackedUserOp.truncate_def)
  qed
qed

definition revertClient :: BundleClient where
  "revertClient = sampleClient\<lparr>
     EstimateGas := (\<lambda>_ _ _. Inl \<lparr>neText = ''execution reverted'', neIsNotFound = False\<rparr>),
     CallContract := (\<lambda>_ _ _. Inl \<lparr>neText = ''execution reverted'', neIsNotFound = False\<rparr>)\<rparr>"

theorem tick_revert_fails_whole_bundle_witness:
  "\<exists>op'. tableView hexLib (snd (Tick hexLib (sqliteRepo hexLib) sampleSigner revertClient sampleLoop
       (\<lambda>_. sampleEnv) 1500 table1)) (sampleHash 1) = Some op' \<and> OpStatus op' = StatusFailed \<and>
       RevertReason op' = Some ''execution reverted''"
proof -
  have "EstimateGas revertClient a b c = Inl \<lparr>neText = ''execution reverted'', neIsNotFound = False\<rparr>"
    "extractRevertReason revertClient a b c = ''execution reverted''" for a b c
    by (simp_all add: revertClient_def extractRevertReason_def)
  moreover have "isEntryPointRevert \<lparr>neText = ''execution reverted'', neIsNotFound = False\<rparr> ''execution reverted''"
    by code_simp
  ultimately show ?thesis
    using tick_revert_fails_whole_bundle [OF hexLib_ok table1_view(1) sampleSigner_wf _ _ sample_tick _ refl,
        of revertClient "\<lparr>neText = ''execution reverted'', neIsNotFound = False\<rparr>" 1500]
    by simp (auto simp: sampleSigner_def)
qed

section \<open>Properties of the watcher and of the reconciliation\<close>

lemma poll_settles:
  assumes L: "ethlib_ok L" and t: "table_inv L t" and q: "\<forall>i. quiet (es i)" and o: "isOrder order"
    and ok: "receiptsReadable L client ep (tableView L t)"
    and op: "tableView L t h = Some op" "OpStatus op = StatusSubmitted" "BundleTxHash op = Some tx"
  shows "settlesTo L client ep tx h op (tableView L (snd (Poll L (sqliteRepo L) client ep order es t)) h)"
    "fst (Poll L (sqliteRepo L) client ep order es t) = Ok ()"
proof -
  obtain qs where got: "rGetByStatus (sqliteRepo L) (es 0) StatusSubmitted t = Ok qs"
    using queries_progress(2) [OF t, of "es 0"] q by (auto simp: is_ok_iff sqliteRepo_def)
  have "op \<in> set qs"
    using GetByStatus_ok [OF L t] got op tableView_Hash [OF L t op(1)] by (fastforce simp: sqliteRepo_def)
  then have "Poll L (sqliteRepo L) client ep order es t =
      settleEach L (sqliteRepo L) client ep es 1 (order (groupByTx qs [])) t"
    by (auto simp: Poll_def got)
  then show "settlesTo L client ep tx h op (tableView L (snd (Poll L (sqliteRepo L) client ep order es t)) h)"
    "fst (Poll L (sqliteRepo L) client ep order es t) = Ok ()"
    using repository.settle_one [OF sqlite_repository [OF L] t got o q ok op, of 1]
      repository.settle_reads(1) [OF sqlite_repository [OF L] t got o q ok, of 1] by simp_all
qed

text \<open>
C20: a poll on a working database, when the receipts of the submitted operations' transactions can be read,
ends without an error and settles every submitted operation by the receipt of its transaction: without a receipt it
stays submitted, when the bundle reverted it is pending again, otherwise it becomes confirmed or
failed with the block, the gas cost and the reason of its logs, and without logs it stays. The order
in which the transactions are visited does not matter.
\<close>

theorem poll_settles_submitted:
  assumes L: "ethlib_ok L" and t: "table_inv L t" and q: "\<forall>i. quiet (es i)" and o: "isOrder order"
    and ok: "receiptsReadable L client ep (tableView L t)"
    and op: "tableView L t h = Some op" "OpStatus op = StatusSubmitted" "BundleTxHash op = Some tx"
  shows "fst (Poll L (sqliteRepo L) client ep order es t) = Ok () \<and>
    settlesTo L client ep tx h op (tableView L (snd (Poll L (sqliteRepo L) client ep order es t)) h)"
  using poll_settles [OF L t q o ok op] by blast

text \<open>
Whatever happens during a poll, also a panic on a malformed log or failing statements, it changes
only submitted operations, keeps their packed content, and leaves them confirmed, failed or pending.
\<close>

theorem poll_touches_only_submitted:
  assumes L: "ethlib_ok L" and t: "table_inv L t" and o: "isOrder order"
  shows "table_inv L (snd (Poll L (sqliteRepo L) client ep order es t)) \<and>
    (\<forall>h. tableView L (snd (Poll L (sqliteRepo L) client ep order es t)) h = tableView L t h \<or>
       (\<exists>op op'. tableView L t h = Some op \<and> OpStatus op = StatusSubmitted \<and>
          tableView L (snd (Poll L (sqliteRepo L) client ep order es t)) h = Some op' \<and>
          PackedUserOp.truncate op' = PackedUserOp.truncate op \<and>
          OpStatus op' \<in> {StatusConfirmed, StatusPending, StatusFailed}))"
proof (cases "rGetByStatus (sqliteRepo L) (es 0) StatusSubmitted t")
  case (Ok qs)
  then show ?thesis
    using repository.settle_safe [OF sqlite_repository [OF L] t Ok o, of L client ep es 1] t
    by (cases "qs = []") (simp_all add: Poll_def)
qed (use t in \<open>simp_all add: Poll_def\<close>)

lemma reconcile_settles:
  assumes L: "ethlib_ok L" and t1: "table_inv L t1" and r: "ResetBundlingToPending (es 0) t = (Ok n, t1)"
    and same: "\<forall>h op. tableView L t h = Some op \<longrightarrow> OpStatus op = StatusSubmitted \<longrightarrow> tableView L t1 h = Some op"
    and got: "rGetByStatus (sqliteRepo L) (es 1) StatusSubmitted t1 = Ok qs" and o: "isOrder order" and q: "\<forall>i. quiet (es i)"
    and ok: "receiptsReadable L client ep (tableView L t1)"
  shows "fst (Reconcile L (sqliteRepo L) client ep order es t) = Ok () \<and>
      (\<forall>h op tx. tableView L t h = Some op \<longrightarrow> OpStatus op = StatusSubmitted \<longrightarrow> BundleTxHash op = Some tx \<longrightarrow>
         settlesTo L client ep tx h op (tableView L (snd (Reconcile L (sqliteRepo L) client ep order es t)) h))"
proof (cases "qs = []")
  case True
  have none: "OpStatus op \<noteq> StatusSubmitted" if op: "tableView L t h = Some op" for h op
  proof
    assume "OpStatus op = StatusSubmitted"
    moreover from this have v: "tableView L t1 h = Some op" using same op by blast
    then have "tableView L t1 (Hash op) = Some op" using tableView_Hash [OF L t1 v] by simp
    ultimately show False using repository.status_ok [OF sqlite_repository [OF L] t1 got] True by auto
  qed
  then show ?thesis using True got by (simp add: Reconcile_def sqliteRepo_def r)
next
  case False
  then have rec: "Reconcile L (sqliteRepo L) client ep order es t =
      settleEach L (sqliteRepo L) client ep es 2 (order (groupByTx qs [])) t1"
    using got by (simp add: Reconcile_def sqliteRepo_def [THEN arg_cong, of rResetBundlingToPending] r)
  show ?thesis
    unfolding rec using repository.settle_one [OF sqlite_repository [OF L] t1 got o q ok] same
      repository.settle_reads [OF sqlite_repository [OF L] t1 got o q ok] by blast
qed

text \<open>
C21: reconciliation on a working database ends with no operation in status bundling: those that were are
pending, and pending and terminal operations are untouched. When the receipts of the submitted operations'
transactions can be read, it succeeds and settles every submitted operation by its receipt, exactly as a poll
does; when one cannot, a submitted operation is still left as it was, or settled with its content.
\<close>

theorem reconcile_clears_bundling:
  assumes L: "ethlib_ok L" and t: "table_inv L t" and q: "\<forall>i. quiet (es i)" and o: "isOrder order"
  shows "table_inv L (snd (Reconcile L (sqliteRepo L) client ep order es t)) \<and>
    (\<forall>h op'. tableView L (snd (Reconcile L (sqliteRepo L) client ep order es t)) h = Some op' \<longrightarrow>
       OpStatus op' \<noteq> StatusBundling) \<and>
    (\<forall>h. tableView L (snd (Reconcile L (sqliteRepo L) client ep order es t)) h =
           map_option (\<lambda>op. if OpStatus op = StatusBundling then applyUpdate (clock (es 0)) StatusPending None op else op)
             (tableView L t h) \<or>
       (\<exists>op op'. tableView L t h = Some op \<and> OpStatus op = StatusSubmitted \<and>
          tableView L (snd (Reconcile L (sqliteRepo L) client ep order es t)) h = Some op' \<and>
          PackedUserOp.truncate op' = PackedUserOp.truncate op \<and>
          OpStatus op' \<in> {StatusConfirmed, StatusPending, StatusFailed})) \<and>
    (receiptsReadable L client ep (tableView L t) \<longrightarrow>
       fst (Reconcile L (sqliteRepo L) client ep order es t) = Ok () \<and>
       (\<forall>h op tx. tableView L t h = Some op \<longrightarrow> OpStatus op = StatusSubmitted \<longrightarrow> BundleTxHash op = Some tx \<longrightarrow>
          settlesTo L client ep tx h op (tableView L (snd (Reconcile L (sqliteRepo L) client ep order es t)) h)))"
proof -
  obtain n t1 where r: "ResetBundlingToPending (es 0) t = (Ok n, t1)"
    using ResetBundlingToPending_progress [OF t, of "es 0"] q by (auto simp: is_ok_iff prod_eq_iff)
  note v = ResetBundlingToPending_ok [OF L t r]
  have t1: "table_inv L t1" using v by simp
  obtain qs where got: "rGetByStatus (sqliteRepo L) (es 1) StatusSubmitted t1 = Ok qs"
    using queries_progress(2) [OF t1, of "es 1"] q by (auto simp: is_ok_iff sqliteRepo_def)
  let ?t' = "snd (Reconcile L (sqliteRepo L) client ep order es t)"
  let ?reset = "\<lambda>op. if OpStatus op = StatusBundling then applyUpdate (clock (es 0)) StatusPending None op else op"
  have rec: "?t' = (if qs = [] then t1 else snd (settleEach L (sqliteRepo L) client ep es 2 (order (groupByTx qs [])) t1))"
    using got by (simp add: Reconcile_def sqliteRepo_def r)
  have v1: "tableView L t1 h = map_option ?reset (tableView L t h)" for h using v by simp
  have s: "table_inv L ?t'" "tableView L ?t' h = tableView L t1 h \<or> (\<exists>op op'. tableView L t1 h = Some op \<and>
      OpStatus op = StatusSubmitted \<and> tableView L ?t' h = Some op' \<and>
      PackedUserOp.truncate op' = PackedUserOp.truncate op \<and> OpStatus op' \<in> {StatusConfirmed, StatusPending, StatusFailed})" for h
    using rec t1 repository.settle_safe [OF sqlite_repository [OF L] t1 got o, of L client ep es 2]
    by (cases "qs = []"; simp)+
  have step: "tableView L t h = Some op" if "tableView L t1 h = Some op" "OpStatus op = StatusSubmitted" for h op
    using that by (auto simp: v1 split: if_splits)
  have main: "tableView L ?t' h = map_option ?reset (tableView L t h) \<or>
      (\<exists>op op'. tableView L t h = Some op \<and> OpStatus op = StatusSubmitted \<and> tableView L ?t' h = Some op' \<and>
        PackedUserOp.truncate op' = PackedUserOp.truncate op \<and> OpStatus op' \<in> {StatusConfirmed, StatusPending, StatusFailed})" for h
    using s(2) [of h] step [of h] v1 [of h] by metis
  have "OpStatus op' \<noteq> StatusBundling" if "tableView L ?t' h = Some op'" for h op'
    using main [of h] that by (cases "tableView L t h") (auto split: if_splits)
  moreover have "fst (Reconcile L (sqliteRepo L) client ep order es t) = Ok () \<and>
      (\<forall>h op tx. tableView L t h = Some op \<longrightarrow> OpStatus op = StatusSubmitted \<longrightarrow> BundleTxHash op = Some tx \<longrightarrow>
         settlesTo L client ep tx h op (tableView L ?t' h))" if ok: "receiptsReadable L client ep (tableView L t)"
  proof (rule reconcile_settles [OF L t1 r _ got o q])
    show "\<forall>h op. tableView L t h = Some op \<longrightarrow> OpStatus op = StatusSubmitted \<longrightarrow> tableView L t1 h = Some op"
      by (simp add: v1)
    show "receiptsReadable L client ep (tableView L t1)" using ok step unfolding receiptsReadable_def by blast
  qed
  ultimately show ?thesis using main s(1) by blast
qed

definition table2 :: table where
  "table2 = snd (UpdateStatus hexLib sampleEnv (sampleHash 1) StatusSubmitted (submitExtra (sampleHash 200) 0 1500) table1)"

definition submittedOp :: StoredOp where
  "submittedOp = applyUpdate 1000 StatusSubmitted (submitExtra (sampleHash 200) 0 1500) (freshOp 1000 (plainOp 7 3) (sampleHash 1))"

lemma table2_view: "table_inv hexLib table2" "tableView hexLib table2 (sampleHash 1) = Some submittedOp"
proof -
  have "UpdateStatus hexLib sampleEnv (sampleHash 1) StatusSubmitted (submitExtra (sampleHash 200) 0 1500) table1 = (Ok (), table2)"
    using UpdateStatus_progress [OF hexLib_ok table1_view(1) sampleEnv_quiet(1), of "sampleHash 1"]
    by (simp add: table1_view table2_def prod_eq_iff)
  from UpdateStatus_ok [OF hexLib_ok table1_view(1) _ _ this]
  show "table_inv hexLib table2" "tableView hexLib table2 (sampleHash 1) = Some submittedOp"
    by (auto simp: table1_view submittedOp_def)
qed

lemma submittedOp_simps [simp]: "OpStatus submittedOp = StatusSubmitted" "BundleTxHash submittedOp = Some (sampleHash 200)"
  by (simp add: submittedOp_def) (simp add: submittedOp_def applyUpdate_def submitExtra_def)

definition minedClient :: BundleClient where
  "minedClient = sampleClient\<lparr>TransactionReceipt := (\<lambda>_. Inr sampleReceipt)\<rparr>"

lemma minedClient_receipt: "TransactionReceipt minedClient tx = Inr rc \<longleftrightarrow> rc = sampleReceipt"
  by (auto simp: minedClient_def)

lemma minedClient_readable: "receiptsReadable hexLib minedClient (replicate 20 34) v"
proof -
  obtain m where "ParseHandleOpsReceipt hexLib sampleReceipt (replicate 20 34) = Ok m"
    using sampleReceipt_parses by blast
  then show ?thesis
    by (simp add: receiptsReadable_def minedClient_receipt is_ok_iff sampleReceipt_def [THEN arg_cong, of rcBlockNumber] Uint64_def)
qed

lemma isOrder_rev: "isOrder rev" by (simp add: isOrder_def)

lemma sample_settles:
  assumes "settlesTo hexLib minedClient (replicate 20 34) (sampleHash 200) (sampleHash 1) submittedOp v"
  shows "\<exists>op'. v = Some op' \<and> OpStatus op' = StatusFailed \<and> ActualGasCost op' = Some 5000 \<and> BlockNumber op' = Some 77"
proof -
  obtain m where m: "ParseHandleOpsReceipt hexLib sampleReceipt (replicate 20 34) = Ok m"
    "m (sampleHash 1) = Some \<lparr>o_Success = False, o_ActualGasCost = Some 5000, o_RevertReason = None\<rparr>"
    using sampleReceipt_parses by blast
  then show ?thesis
    using assms by (simp add: settlesTo_def minedClient_def sampleReceipt_def [THEN arg_cong, of rcStatus])
      (auto simp: applyUpdate_def outcomeExtra_def outcomeStatus_def noExtra_def Uint64_def
        sampleReceipt_def [THEN arg_cong, of rcBlockNumber])
qed

theorem poll_settles_submitted_witness:
  "\<exists>op'. tableView hexLib (snd (Poll hexLib (sqliteRepo hexLib) minedClient (replicate 20 34) rev (\<lambda>_. sampleEnv) table2)) (sampleHash 1) = Some op' \<and>
     OpStatus op' = StatusFailed \<and> ActualGasCost op' = Some 5000 \<and> BlockNumber op' = Some 77"
  by (rule sample_settles)
    (use poll_settles_submitted [OF hexLib_ok table2_view(1) _ isOrder_rev minedClient_readable table2_view(2)] in simp)

theorem poll_touches_only_submitted_witness:
  "table_inv hexLib (snd (Poll hexLib (sqliteRepo hexLib) minedClient (replicate 20 34) rev (\<lambda>_. sampleEnv) table2))"
  using poll_touches_only_submitted [OF hexLib_ok table2_view(1) isOrder_rev] by blast

theorem reconcile_clears_bundling_witness:
  "(\<exists>op'. tableView hexLib (snd (Reconcile hexLib (sqliteRepo hexLib) minedClient (replicate 20 34) rev (\<lambda>_. sampleEnv)
       (snd (ClaimForBundling hexLib sampleEnv [sampleHash 1] table1)))) (sampleHash 1) = Some op' \<and>
     OpStatus op' = StatusPending) \<and>
   (\<exists>op'. tableView hexLib (snd (Reconcile hexLib (sqliteRepo hexLib) minedClient (replicate 20 34) rev (\<lambda>_. sampleEnv) table2))
       (sampleHash 1) = Some op' \<and> OpStatus op' = StatusFailed \<and> BlockNumber op' = Some 77)"
proof -
  have "fst (ClaimForBundling hexLib sampleEnv [sampleHash 1] table1) = Ok ()"
    by (rule ClaimForBundling_progress [OF hexLib_ok _ table1_view(1)]) (simp_all add: table1_view)
  then have c: "ClaimForBundling hexLib sampleEnv [sampleHash 1] table1 =
      (Ok (), snd (ClaimForBundling hexLib sampleEnv [sampleHash 1] table1))" by (simp add: prod_eq_iff)
  have t: "table_inv hexLib (snd (ClaimForBundling hexLib sampleEnv [sampleHash 1] table1))"
    and v: "tableView hexLib (snd (ClaimForBundling hexLib sampleEnv [sampleHash 1] table1)) =
      claimView (clock sampleEnv) {sampleHash 1} (tableView hexLib table1)"
    using ClaimForBundling_ok [OF hexLib_ok table1_view(1) _ c] by simp_all
  have settled: "settlesTo hexLib minedClient (replicate 20 34) (sampleHash 200) (sampleHash 1) submittedOp
      (tableView hexLib (snd (Reconcile hexLib (sqliteRepo hexLib) minedClient (replicate 20 34) rev (\<lambda>_. sampleEnv) table2)) (sampleHash 1))"
    using reconcile_clears_bundling [OF hexLib_ok table2_view(1) _ isOrder_rev, of "\<lambda>_. sampleEnv" minedClient "replicate 20 34"]
      minedClient_readable table2_view(2) by simp
  show ?thesis
    using reconcile_clears_bundling [OF hexLib_ok t, of "\<lambda>_. sampleEnv" rev minedClient "replicate 20 34",
        THEN conjunct2, THEN conjunct2, THEN conjunct1, rule_format, of "sampleHash 1"] sample_settles [OF settled]
    by (simp add: isOrder_rev v claimView_def table1_view) blast
qed

end
