(* ===== verification/Lifecycle.thy ===== *)
theory Lifecycle
  imports BundlingProps
begin

text \<open>
  The running bundler as a state machine (\<open>cmd/bundler/main.go\<close> starts the parts): the RPC
  server inserts operations, the bundling loop, the receipt watcher and the pruner run as goroutines over
  one database, and the process may die at any moment and start again. Every repository call is
  atomic; between the calls of one handler those of the others may happen. The loop and the watcher
  keep what they have read in their phase. What the node and the signer answer is arbitrary, and so are
  the failures of the database.
\<close>

section \<open>States and steps\<close>

datatype LoopPhase =
    LIdle
  | LFetched "StoredOp list"
  | LClaimed "StoredOp list"
  | LUpdating "statusUpdate list"

datatype WatchPhase =
    WIdle
  | WGroups "(hash \<times> StoredOp list) list"
  | WUpdating "statusUpdate list" "(hash \<times> StoredOp list) list"

record 'db sys =
  sdb :: 'db
  loopAt :: LoopPhase
  watchAt :: WatchPhase

datatype action =
    Send | Fetch | Claim | Plan | LoopUpdate | TickDone
  | PollFetch | ReadReceipt | Settle | NextTx | PollDone | Expire | Prune | Restart

inductive step ::
    "ethlib \<Rightarrow> ('e, 'db) Repository \<Rightarrow> BundlingLoop \<Rightarrow> action \<Rightarrow> 'db sys \<Rightarrow> 'db sys \<Rightarrow> bool"
  for L R l where
  Send: "wf_op p \<Longrightarrow> length h = 32 \<Longrightarrow>
    step L R l Send s (s\<lparr>sdb := snd (rInsert R e p h (sdb s))\<rparr>)"
| Fetch: "loopAt s = LIdle \<Longrightarrow> rGetPending R e (maxBundle l) (sdb s) = Ok ops \<Longrightarrow> ops \<noteq> [] \<Longrightarrow>
    step L R l Fetch s (s\<lparr>loopAt := LFetched ops\<rparr>)"
| Claim: "loopAt s = LFetched ops \<Longrightarrow> rClaimForBundling R e (map Hash ops) (sdb s) = (r, db') \<Longrightarrow>
    step L R l Claim s (s\<lparr>sdb := db', loopAt := (if is_ok r then LClaimed ops else LIdle)\<rparr>)"
| Plan: "loopAt s = LClaimed ops \<Longrightarrow> wf_signer signer \<Longrightarrow>
    step L R l Plan s (s\<lparr>loopAt := LUpdating (snd (bundlePlan L signer client l t ops))\<rparr>)"
| LoopUpdate: "loopAt s = LUpdating ((h, st, x) # us) \<Longrightarrow>
    step L R l LoopUpdate s (s\<lparr>sdb := snd (rUpdateStatus R e h st x (sdb s)), loopAt := LUpdating us\<rparr>)"
| TickDone: "loopAt s = LUpdating [] \<Longrightarrow> step L R l TickDone s (s\<lparr>loopAt := LIdle\<rparr>)"
| PollFetch: "watchAt s = WIdle \<Longrightarrow> rGetByStatus R e StatusSubmitted (sdb s) = Ok qs \<Longrightarrow> isOrder order \<Longrightarrow>
    step L R l PollFetch s (s\<lparr>watchAt := WGroups (order (groupByTx qs []))\<rparr>)"
| ReadReceipt: "watchAt s = WGroups (g # gs) \<Longrightarrow> settleUpdates L client (entryPoint l) g = Ok us \<Longrightarrow>
    step L R l ReadReceipt s (s\<lparr>watchAt := WUpdating us gs\<rparr>)"
| Settle: "watchAt s = WUpdating ((h, st, x) # us) gs \<Longrightarrow>
    step L R l Settle s (s\<lparr>sdb := snd (rUpdateStatus R e h st x (sdb s)), watchAt := WUpdating us gs\<rparr>)"
| NextTx: "watchAt s = WUpdating [] gs \<Longrightarrow> step L R l NextTx s (s\<lparr>watchAt := WGroups gs\<rparr>)"
| PollDone: "watchAt s = WGroups [] \<Longrightarrow> step L R l PollDone s (s\<lparr>watchAt := WIdle\<rparr>)"
| Expire: "step L R l Expire s (s\<lparr>sdb := snd (rMarkTtlExpired R e cutoff (sdb s))\<rparr>)"
| Prune: "step L R l Prune s (s\<lparr>sdb := snd (rPruneHistory R e cutoff (sdb s))\<rparr>)"
| Restart: "rResetBundlingToPending R e (sdb s) = (Ok n, db') \<Longrightarrow>
    step L R l Restart s \<lparr>sdb = db', loopAt = LIdle, watchAt = WIdle\<rparr>"

inductive reachable :: "ethlib \<Rightarrow> ('e, 'db) Repository \<Rightarrow> BundlingLoop \<Rightarrow> 'db \<Rightarrow> 'db sys \<Rightarrow> bool"
  for L R l db0 where
  start: "reachable L R l db0 \<lparr>sdb = db0, loopAt = LIdle, watchAt = WIdle\<rparr>"
| step: "reachable L R l db0 s \<Longrightarrow> step L R l a s s' \<Longrightarrow> reachable L R l db0 s'"

definition anyStep :: "ethlib \<Rightarrow> ('e, 'db) Repository \<Rightarrow> BundlingLoop \<Rightarrow> 'db sys \<Rightarrow> 'db sys \<Rightarrow> bool" where
  "anyStep L R l s s' \<longleftrightarrow> (\<exists>a. step L R l a s s')"

lemma anyStepI: "step L R l a s s' \<Longrightarrow> anyStep L R l s s'"
  by (auto simp: anyStep_def)

inductive_cases stepE: "step L R l a s s'"

text \<open>The hashes a phase still works on.\<close>

fun loopHeld :: "LoopPhase \<Rightarrow> hash set" where
  "loopHeld (LClaimed ops) = Hash ` set ops"
| "loopHeld (LUpdating us) = fst ` set us"
| "loopHeld _ = {}"

fun watchHeld :: "WatchPhase \<Rightarrow> hash set" where
  "watchHeld WIdle = {}"
| "watchHeld (WGroups gs) = Hash ` set (concat (map snd gs))"
| "watchHeld (WUpdating us gs) = fst ` set us \<union> Hash ` set (concat (map snd gs))"

text \<open>The arrows of the life cycle of an operation.\<close>

fun lifecycleEdge :: "Status \<Rightarrow> Status \<Rightarrow> bool" where
  "lifecycleEdge StatusPending s = (s = StatusBundling \<or> s = StatusFailed)"
| "lifecycleEdge StatusBundling s = (s = StatusSubmitted \<or> s = StatusPending \<or> s = StatusFailed)"
| "lifecycleEdge StatusSubmitted s = (s = StatusConfirmed \<or> s = StatusFailed \<or> s = StatusPending)"
| "lifecycleEdge _ s = False"

lemma lifecycleEdge_terminal: "IsTerminal s \<Longrightarrow> \<not> lifecycleEdge s s'"
  by (cases s) simp_all

section \<open>Well-formed phases\<close>

fun loopOk :: "LoopPhase \<Rightarrow> bool" where
  "loopOk LIdle = True"
| "loopOk (LFetched ops) = (distinct (map Hash ops) \<and> (\<forall>op \<in> set ops. length (Hash op) = 32))"
| "loopOk (LClaimed ops) = (distinct (map Hash ops) \<and> (\<forall>op \<in> set ops. length (Hash op) = 32))"
| "loopOk (LUpdating us) = (validUpdates us \<and> distinct (map fst us) \<and>
     (\<forall>(h, s, x) \<in> set us. s \<in> {StatusSubmitted, StatusPending, StatusFailed} \<and>
        (s = StatusSubmitted \<longrightarrow> (\<exists>e tx. x = Some e \<and> x_BundleTxHash e = Some tx))))"

fun watchOk :: "WatchPhase \<Rightarrow> bool" where
  "watchOk WIdle = True"
| "watchOk (WGroups gs) = groupsOk gs"
| "watchOk (WUpdating us gs) = (validUpdates us \<and> distinct (map fst us) \<and> groupsOk gs \<and>
     fst ` set us \<inter> Hash ` set (concat (map snd gs)) = {} \<and>
     (\<forall>(h, s, x) \<in> set us. s \<in> {StatusConfirmed, StatusPending, StatusFailed}))"

definition held :: "view \<Rightarrow> Status \<Rightarrow> hash set \<Rightarrow> bool" where
  "held v st H \<longleftrightarrow> (\<forall>h \<in> H. \<exists>op. v h = Some op \<and> OpStatus op = st)"

definition submittedHaveTx :: "view \<Rightarrow> bool" where
  "submittedHaveTx v \<longleftrightarrow> (\<forall>h op. v h = Some op \<longrightarrow> OpStatus op = StatusSubmitted \<longrightarrow> BundleTxHash op \<noteq> None)"

definition viewInv :: "view \<Rightarrow> LoopPhase \<Rightarrow> WatchPhase \<Rightarrow> bool" where
  "viewInv v lp wp \<longleftrightarrow> loopOk lp \<and> watchOk wp \<and> held v StatusBundling (loopHeld lp) \<and>
     held v StatusSubmitted (watchHeld wp) \<and> submittedHaveTx v"

text \<open>One change of the database: what it may do to every single operation.\<close>

definition opChange :: "StoredOp option \<Rightarrow> StoredOp option \<Rightarrow> bool" where
  "opChange o1 o2 =
     (case o1 of
        None \<Rightarrow> (case o2 of None \<Rightarrow> True | Some op' \<Rightarrow> OpStatus op' = StatusPending)
      | Some op \<Rightarrow>
         (case o2 of
            None \<Rightarrow> IsTerminal (OpStatus op)
          | Some op' \<Rightarrow> op' = op \<or>
              (lifecycleEdge (OpStatus op) (OpStatus op') \<and>
               PackedUserOp.truncate op' = PackedUserOp.truncate op \<and> Hash op' = Hash op \<and>
               ReceivedAt op' = ReceivedAt op)))"

lemma opChange_refl [simp]: "opChange o1 o1"
  by (simp add: opChange_def split: option.split)

lemma opChange_new: "OpStatus op = StatusPending \<Longrightarrow> opChange None (Some op)"
  by (simp add: opChange_def)

lemma opChange_apply:
  "lifecycleEdge (OpStatus op) st \<Longrightarrow> opChange (Some op) (Some (applyUpdate n st x op))"
  by (simp add: opChange_def)

section \<open>Changes that leave claimed and submitted operations alone\<close>

definition calm :: "view \<Rightarrow> view \<Rightarrow> bool" where
  "calm v v' \<longleftrightarrow> (\<forall>h. opChange (v h) (v' h)) \<and>
     (\<forall>h op. v h = Some op \<longrightarrow> OpStatus op \<in> {StatusBundling, StatusSubmitted} \<longrightarrow> v' h = Some op) \<and>
     (\<forall>h op. v' h = Some op \<longrightarrow> OpStatus op = StatusSubmitted \<longrightarrow> v h = Some op)"

lemma calm_refl [simp]: "calm v v"
  by (simp add: calm_def)

lemma calm_viewInv: "calm v v' \<Longrightarrow> viewInv v lp wp \<Longrightarrow> viewInv v' lp wp"
  unfolding viewInv_def held_def submittedHaveTx_def calm_def by blast

lemma calm_bundling: "calm v v' \<Longrightarrow> v h = Some op \<Longrightarrow> OpStatus op = StatusBundling \<Longrightarrow> v' h = Some op"
  unfolding calm_def by blast

text \<open>Changes that act on every operation by itself.\<close>

lemma calm_pointwise:
  assumes "\<And>h. v' h = (case v h of None \<Rightarrow> None | Some op \<Rightarrow> f op)"
    and "\<And>op. opChange (Some op) (f op)"
    and "\<And>op. OpStatus op \<in> {StatusBundling, StatusSubmitted} \<Longrightarrow> f op = Some op"
    and "\<And>op op'. f op = Some op' \<Longrightarrow> OpStatus op' = StatusSubmitted \<Longrightarrow> op' = op"
  shows "calm v v'"
proof -
  have "opChange (v h) (v' h)" for h
    using assms(1) [of h] assms(2) by (cases "v h") (simp_all add: opChange_def)
  moreover have "v h = Some op" if "v' h = Some op" "OpStatus op = StatusSubmitted" for h op
  proof (cases "v h")
    case None
    with assms(1) [of h] that(1) show ?thesis by simp
  next
    case (Some op1)
    with assms(1) [of h] that(1) have "f op1 = Some op" by simp
    from assms(4) [OF this that(2)] Some show ?thesis by simp
  qed
  ultimately show ?thesis using assms(1,3) by (auto simp: calm_def)
qed

lemma viewInv_update:
  assumes v: "viewInv v lp wp" and h: "v h = Some op" and st: "lifecycleEdge (OpStatus op) st"
    and tx: "st = StatusSubmitted \<longrightarrow> BundleTxHash (applyUpdate n st x op) \<noteq> None"
    and lp: "loopOk lp'" "loopHeld lp' \<subseteq> loopHeld lp - {h}"
    and wp: "watchOk wp'" "watchHeld wp' \<subseteq> watchHeld wp - {h}"
  shows "viewInv (v(h \<mapsto> applyUpdate n st x op)) lp' wp'"
  using assms unfolding viewInv_def held_def submittedHaveTx_def by (auto simp: subset_iff)

lemma viewInv_shrink:
  assumes "viewInv v lp wp" "loopOk lp'" "loopHeld lp' \<subseteq> loopHeld lp" "watchOk wp'" "watchHeld wp' \<subseteq> watchHeld wp"
  shows "viewInv v lp' wp'"
  using assms unfolding viewInv_def held_def by blast

lemma held_disjoint:
  "viewInv v lp wp \<Longrightarrow> h \<in> loopHeld lp \<Longrightarrow> h \<notin> watchHeld wp"
  "viewInv v lp wp \<Longrightarrow> h \<in> watchHeld wp \<Longrightarrow> h \<notin> loopHeld lp"
  unfolding viewInv_def held_def by fastforce+

section \<open>The invariant, over any repository\<close>

context repository
begin

definition sysInv :: "'db sys \<Rightarrow> bool" where
  "sysInv s \<longleftrightarrow> inv (sdb s) \<and> viewInv (view (sdb s)) (loopAt s) (watchAt s)"

lemma insert_calm:
  assumes "inv db" "wf_op p" "length h = 32"
  shows "inv (snd (rInsert R e p h db)) \<and> calm (view db) (view (snd (rInsert R e p h db)))"
proof (cases "fst (rInsert R e p h db)")
  case (Ok u)
  then have i: "rInsert R e p h db = (Ok (), snd (rInsert R e p h db))" by (simp add: prod_eq_iff)
  from insert_ok [OF assms i] show ?thesis by (auto simp: calm_def opChange_new)
next
  case (Err er)
  then have "snd (rInsert R e p h db) = db" using insert_err [of e p h db er] by (simp add: prod_eq_iff)
  with assms show ?thesis by simp
next
  case (Panic m)
  then show ?thesis using insert_no_panic [of e p h db m] by simp
qed

lemma claim_calm:
  assumes "inv db" "\<forall>h \<in> set hs. length h = 32" "rClaimForBundling R e hs db = (Ok (), db')"
  shows "inv db' \<and> calm (view db) (view db') \<and> held (view db') StatusBundling (set hs)"
proof -
  note c = claim_ok [OF assms]
  have "calm (view db) (view db')"
    unfolding calm_def using c by (auto simp: opChange_apply opChange_refl)
  moreover have "held (view db') StatusBundling (set hs)" using c by (auto simp: held_def)
  ultimately show ?thesis using c by blast
qed

lemma expire_calm:
  assumes "inv db"
  shows "inv (snd (rMarkTtlExpired R e k db)) \<and> calm (view db) (view (snd (rMarkTtlExpired R e k db)))"
proof (cases "fst (rMarkTtlExpired R e k db)")
  case (Ok n)
  then have i: "rMarkTtlExpired R e k db = (Ok n, snd (rMarkTtlExpired R e k db))" by (simp add: prod_eq_iff)
  from expire_ok [OF assms i] show ?thesis
    by (auto intro!: calm_pointwise simp: map_option_case opChange_apply split: if_splits)
next
  case (Err er)
  then have "snd (rMarkTtlExpired R e k db) = db" using expire_err [of e k db er] by (simp add: prod_eq_iff)
  with assms show ?thesis by simp
qed (use expire_no_panic in auto)

lemma prune_calm:
  assumes "inv db"
  shows "inv (snd (rPruneHistory R e k db)) \<and> calm (view db) (view (snd (rPruneHistory R e k db)))"
proof (cases "fst (rPruneHistory R e k db)")
  case (Ok n)
  then have i: "rPruneHistory R e k db = (Ok n, snd (rPruneHistory R e k db))" by (simp add: prod_eq_iff)
  from prune_ok [OF assms i] show ?thesis
    by (auto intro!: calm_pointwise simp: opChange_def IsTerminal_def split: if_splits)
next
  case (Err er)
  then have "snd (rPruneHistory R e k db) = db" using prune_err [of e k db er] by (simp add: prod_eq_iff)
  with assms show ?thesis by simp
qed (use prune_no_panic in auto)

lemma reset_phase:
  assumes "inv db" "viewInv (view db) lp wp" "rResetBundlingToPending R e db = (Ok n, db')"
  shows "inv db' \<and> viewInv (view db') LIdle WIdle \<and> (\<forall>h. opChange (view db h) (view db' h))"
proof -
  note r = reset_ok [OF assms(1,3)]
  have v: "view db' h = map_option (\<lambda>op. if OpStatus op = StatusBundling
      then applyUpdate (now e) StatusPending None op else op) (view db h)" for h using r by simp
  have "submittedHaveTx (view db')"
    using assms(2) by (auto simp: viewInv_def submittedHaveTx_def v)
  moreover have "opChange (view db h) (view db' h)" for h
    by (cases "view db h") (simp_all add: v opChange_apply)
  ultimately show ?thesis using r by (simp add: viewInv_def held_def)
qed

text \<open>A status update of an operation that its handler holds in the status \<open>st0\<close>.\<close>

lemma update_phase:
  assumes db: "inv db" and v: "viewInv (view db) lp wp" and hx: "length h = 32" "extra_ok x"
    and h: "view db h = Some op" and st: "lifecycleEdge (OpStatus op) st"
    and tx: "st = StatusSubmitted \<longrightarrow> (\<exists>e tx. x = Some e \<and> x_BundleTxHash e = Some tx)"
    and lp: "loopOk lp'" "loopHeld lp' \<subseteq> loopHeld lp - {h}"
    and wp: "watchOk wp'" "watchHeld wp' \<subseteq> watchHeld wp - {h}"
  shows "inv (snd (rUpdateStatus R e h st x db)) \<and> viewInv (view (snd (rUpdateStatus R e h st x db))) lp' wp' \<and>
    (\<forall>k. opChange (view db k) (view (snd (rUpdateStatus R e h st x db)) k))"
proof (rule update_cases [OF db hx, of e st], goal_cases ok err)
  case (ok op1)
  then have op1: "op1 = op" using h by simp
  have "BundleTxHash (applyUpdate (now e) st x op) \<noteq> None" if "st = StatusSubmitted"
    using tx that by (auto simp: applyUpdate_def)
  then have "viewInv ((view db)(h \<mapsto> applyUpdate (now e) st x op)) lp' wp'"
    using viewInv_update [OF v h st _ lp wp] by blast
  moreover have "opChange (view db k) (((view db)(h \<mapsto> applyUpdate (now e) st x op)) k)" for k
    using h st by (simp add: opChange_apply)
  ultimately show ?case using ok op1 by simp
next
  case (err er)
  have "viewInv (view db) lp' wp'" by (rule viewInv_shrink [OF v lp(1) _ wp(1)]) (use lp wp in auto)
  with err db show ?case by simp
qed

lemma loop_update_phase:
  assumes db: "inv db" and v: "viewInv (view db) (LUpdating ((h, st, x) # us)) wp"
  shows "inv (snd (rUpdateStatus R e h st x db)) \<and> viewInv (view (snd (rUpdateStatus R e h st x db))) (LUpdating us) wp \<and>
    (\<forall>k. opChange (view db k) (view (snd (rUpdateStatus R e h st x db)) k))"
proof -
  from v obtain op where op: "view db h = Some op" "OpStatus op = StatusBundling"
    by (auto simp: viewInv_def held_def)
  have ok: "length h = 32" "extra_ok x" "st \<in> {StatusSubmitted, StatusPending, StatusFailed}"
    "st = StatusSubmitted \<longrightarrow> (\<exists>e tx. x = Some e \<and> x_BundleTxHash e = Some tx)"
    "loopOk (LUpdating us)" "loopHeld (LUpdating us) \<subseteq> loopHeld (LUpdating ((h, st, x) # us)) - {h}" "watchOk wp"
    using v by (auto simp: viewInv_def validUpdates_def)
  have "watchHeld wp \<subseteq> watchHeld wp - {h}"
    using held_disjoint(1) [OF v, of h] by auto
  then show ?thesis
    using update_phase [OF db v ok(1,2) op(1) _ ok(4) ok(5,6,7)] op(2) ok(3) by auto
qed

lemma watch_update_phase:
  assumes db: "inv db" and v: "viewInv (view db) lp (WUpdating ((h, st, x) # us) gs)"
  shows "inv (snd (rUpdateStatus R e h st x db)) \<and> viewInv (view (snd (rUpdateStatus R e h st x db))) lp (WUpdating us gs) \<and>
    (\<forall>k. opChange (view db k) (view (snd (rUpdateStatus R e h st x db)) k))"
proof -
  from v obtain op where op: "view db h = Some op" "OpStatus op = StatusSubmitted"
    by (auto simp: viewInv_def held_def)
  have ok: "length h = 32" "extra_ok x" "st \<in> {StatusConfirmed, StatusPending, StatusFailed}" "loopOk lp"
    "watchOk (WUpdating us gs)" "watchHeld (WUpdating us gs) \<subseteq> watchHeld (WUpdating ((h, st, x) # us) gs) - {h}"
    using v by (auto simp: viewInv_def validUpdates_def)
  have lp: "loopHeld lp \<subseteq> loopHeld lp - {h}"
    using held_disjoint(2) [OF v, of h] by auto
  then show ?thesis
    using update_phase [OF db v ok(1,2) op(1) _ _ ok(4) lp ok(5,6)] op(2) ok(3) by auto
qed

lemma calm_step:
  assumes "inv db'" "calm (view (sdb s)) (view db')" "sysInv s"
  shows "sysInv (s\<lparr>sdb := db'\<rparr>) \<and> (\<forall>h. opChange (view (sdb s) h) (view db' h))"
proof -
  have "viewInv (view db') (loopAt s) (watchAt s)"
    using calm_viewInv [OF assms(2)] assms(3) unfolding sysInv_def by blast
  moreover have "\<forall>h. opChange (view (sdb s) h) (view db' h)" using assms(2) unfolding calm_def by blast
  ultimately show ?thesis using assms(1) by (simp add: sysInv_def)
qed

text \<open>Every step keeps the invariant and moves every operation along the life cycle.\<close>

lemma step_inv:
  assumes "step L R l a s s'" "sysInv s"
  shows "sysInv s' \<and> (\<forall>h. opChange (view (sdb s) h) (view (sdb s') h))"
  using assms
proof (induction rule: step.induct)
  case (Send p h s e)
  then show ?case using insert_calm [of "sdb s" p h e] calm_step [of "snd (rInsert R e p h (sdb s))" s] by (simp add: sysInv_def)
next
  case (Fetch s e ops)
  then have inv: "inv (sdb s)" by (simp add: sysInv_def)
  have "loopOk (LFetched ops)" using pending_ok [OF inv Fetch(2)] view_Hash [OF inv] by auto
  with Fetch(1,4) show ?case by (simp add: sysInv_def viewInv_def held_def)
next
  case (Claim s ops e r db')
  then have inv: "inv (sdb s)" and v: "viewInv (view (sdb s)) (LFetched ops) (watchAt s)" by (auto simp: sysInv_def)
  show ?case
  proof (cases r)
    case (Ok u)
    have len: "\<forall>h \<in> set (map Hash ops). length h = 32" using v by (auto simp: viewInv_def)
    have cl: "rClaimForBundling R e (map Hash ops) (sdb s) = (Ok (), db')" using Claim(2) Ok by simp
    have c: "inv db'" "calm (view (sdb s)) (view db')" "held (view db') StatusBundling (Hash ` set ops)"
      using claim_calm [OF inv len cl] unfolding set_map by blast+
    then have "viewInv (view db') (LClaimed ops) (watchAt s)"
      using calm_viewInv [OF c(2) v] by (simp add: viewInv_def)
    moreover have "\<forall>h. opChange (view (sdb s) h) (view db' h)" using c(2) unfolding calm_def by blast
    ultimately show ?thesis using c(1) Ok by (simp add: sysInv_def)
  next
    case (Err er)
    then have "db' = sdb s" using claim_err Claim(2) by blast
    moreover have "viewInv (view (sdb s)) LIdle (watchAt s)" using v by (simp add: viewInv_def held_def)
    ultimately show ?thesis using inv Err by (simp add: sysInv_def)
  next
    case (Panic m)
    then show ?thesis using claim_no_panic [of e "map Hash ops" "sdb s" m] Claim(2) by simp
  qed
next
  case (Plan s ops signer client t)
  then have v: "viewInv (view (sdb s)) (LClaimed ops) (watchAt s)" by (simp add: sysInv_def)
  have ops: "\<forall>op \<in> set ops. length (Hash op) = 32" "distinct (map Hash ops)" using v by (auto simp: viewInv_def)
  note u = bundlePlan_updates [OF Plan(2) ops refl, of L client l t]
  let ?us = "snd (bundlePlan L signer client l t ops)"
  have "loopOk (LUpdating ?us)" using u(1,2,4) by fastforce
  moreover have "loopHeld (LUpdating ?us) \<subseteq> loopHeld (LClaimed ops)" using u(3) by simp
  moreover have "watchOk (watchAt s)" using v by (simp add: viewInv_def)
  ultimately have "viewInv (view (sdb s)) (LUpdating ?us) (watchAt s)"
    by (rule viewInv_shrink [OF v _ _ _ order_refl])
  with Plan(3) show ?case by (simp add: sysInv_def)
next
  case (LoopUpdate s h st x us e)
  then show ?case using loop_update_phase [of "sdb s" h st x us "watchAt s" e] by (simp add: sysInv_def)
next
  case (TickDone s)
  then show ?case by (simp add: sysInv_def viewInv_def held_def)
next
  case (PollFetch s e qs order)
  then have inv: "inv (sdb s)" by (simp add: sysInv_def)
  note g = submitted_groups [OF inv PollFetch(2,3)]
  have "held (view (sdb s)) StatusSubmitted (watchHeld (WGroups (order (groupByTx qs []))))"
    using g(2) by (fastforce simp: held_def)
  with PollFetch(4) g(1) show ?case by (simp add: sysInv_def viewInv_def)
next
  case (ReadReceipt s g gs client us)
  then have v: "viewInv (view (sdb s)) (loopAt s) (WGroups (g # gs))" by (simp add: sysInv_def)
  then have gs: "groupsOk (g # gs)" by (simp add: viewInv_def)
  then have g: "\<forall>op \<in> set (snd g). length (Hash op) = 32" "distinct (map Hash (snd g))"
    and disj: "Hash ` set (snd g) \<inter> Hash ` set (concat (map snd gs)) = {}" and gs': "groupsOk gs"
    by (auto simp: groupsOk_def)
  note u = settleUpdates_updates [OF ReadReceipt(2) g]
  have sub: "fst ` set us \<subseteq> Hash ` set (snd g)" using u(3) by simp
  then have "fst ` set us \<inter> Hash ` set (concat (map snd gs)) = {}" using disj by blast
  with u(1,2,4) gs' have "watchOk (WUpdating us gs)" by simp
  moreover have "watchHeld (WUpdating us gs) \<subseteq> watchHeld (WGroups (g # gs))"
    using sub by auto
  moreover have "loopOk (loopAt s)" using v by (simp add: viewInv_def)
  ultimately have "viewInv (view (sdb s)) (loopAt s) (WUpdating us gs)"
    by (intro viewInv_shrink [OF v _ order_refl])
  with ReadReceipt(3) show ?case by (simp add: sysInv_def)
next
  case (Settle s h st x us gs e)
  then show ?case using watch_update_phase [of "sdb s" "loopAt s" h st x us gs e] by (simp add: sysInv_def)
next
  case (NextTx s gs)
  then show ?case by (simp add: sysInv_def viewInv_def)
next
  case (PollDone s)
  then show ?case by (simp add: sysInv_def viewInv_def held_def)
next
  case (Expire s e k)
  then show ?case using expire_calm [of "sdb s" e k] calm_step [of "snd (rMarkTtlExpired R e k (sdb s))" s] by (simp add: sysInv_def)
next
  case (Prune s e k)
  then show ?case using prune_calm [of "sdb s" e k] calm_step [of "snd (rPruneHistory R e k (sdb s))" s] by (simp add: sysInv_def)
next
  case (Restart e s n db')
  then show ?case using reset_phase [of "sdb s" "loopAt s" "watchAt s" e n db'] by (simp add: sysInv_def)
qed

lemma reachable_inv:
  "reachable L R l db0 s \<Longrightarrow> inv db0 \<Longrightarrow> submittedHaveTx (view db0) \<Longrightarrow> sysInv s"
proof (induction rule: reachable.induct)
  case start
  then show ?case by (simp add: sysInv_def viewInv_def held_def)
next
  case (step s a s')
  then show ?case using step_inv by blast
qed

text \<open>
  An operation left in status bundling that the loop no longer holds (its status update failed)
  is touched by no step but a restart.
\<close>

lemma update_other:
  assumes "inv db" "length k = 32" "extra_ok x" "k \<noteq> h"
  shows "view (snd (rUpdateStatus R e k st x db)) h = view db h"
  by (rule update_cases [OF assms(1-3), of e st]) (use assms(4) in auto)

lemma orphan_step:
  assumes "step L R l a s s'" "sysInv s" "a \<noteq> Restart"
    and "view (sdb s) h = Some op" "OpStatus op = StatusBundling" "h \<notin> loopHeld (loopAt s)"
  shows "view (sdb s') h = Some op \<and> h \<notin> loopHeld (loopAt s')"
  using assms
proof (induction rule: step.induct)
  case (Send p k s e)
  then have "calm (view (sdb s)) (view (snd (rInsert R e p k (sdb s))))"
    using insert_calm [of "sdb s" p k e] by (simp add: sysInv_def)
  from calm_bundling [OF this] Send show ?case by simp
next
  case (Claim s ops e r db')
  then have inv: "inv (sdb s)" and len: "\<forall>h \<in> set (map Hash ops). length h = 32"
    by (auto simp: sysInv_def viewInv_def)
  show ?case
  proof (cases r)
    case (Ok u)
    then have cl: "rClaimForBundling R e (map Hash ops) (sdb s) = (Ok (), db')" using Claim(2) by simp
    note c = claim_ok [OF inv len cl]
    have "h \<notin> Hash ` set ops" using c Claim(5,6) by fastforce
    with c Claim(5) Ok show ?thesis by simp
  next
    case (Err er)
    then have "db' = sdb s" using claim_err Claim(2) by blast
    with Claim(5) Err show ?thesis by simp
  next
    case (Panic m)
    then show ?thesis using claim_no_panic [of e "map Hash ops" "sdb s" m] Claim(2) by simp
  qed
next
  case (Plan s ops signer client t)
  then have "\<forall>op \<in> set ops. length (Hash op) = 32" "distinct (map Hash ops)" by (auto simp: sysInv_def viewInv_def)
  from bundlePlan_updates(3) [OF Plan(2) this refl, of L client l t] Plan(1,5,7) show ?case by auto
next
  case (LoopUpdate s k st x us e)
  then have "inv (sdb s)" "length k = 32" "extra_ok x" "k \<noteq> h"
    by (auto simp: sysInv_def viewInv_def validUpdates_def)
  from update_other [OF this, of e st] LoopUpdate show ?case by simp
next
  case (Settle s k st x us gs e)
  then have "k \<noteq> h" by (auto simp: sysInv_def viewInv_def held_def)
  moreover have "inv (sdb s)" "length k = 32" "extra_ok x"
    using Settle by (auto simp: sysInv_def viewInv_def validUpdates_def)
  ultimately show ?case using update_other [of "sdb s" k x h e st] Settle by simp
next
  case (Expire s e k)
  then have "calm (view (sdb s)) (view (snd (rMarkTtlExpired R e k (sdb s))))"
    using expire_calm [of "sdb s" e k] by (simp add: sysInv_def)
  from calm_bundling [OF this] Expire show ?case by simp
next
  case (Prune s e k)
  then have "calm (view (sdb s)) (view (snd (rPruneHistory R e k (sdb s))))"
    using prune_calm [of "sdb s" e k] by (simp add: sysInv_def)
  from calm_bundling [OF this] Prune show ?case by simp
qed simp_all

text \<open>
  A whole tick that no other part interrupts is a sequence of steps: the interleaved machine
  has every run the handlers have.
\<close>

lemma steps_updates:
  "loopAt s = LUpdating us \<Longrightarrow>
    (anyStep L R l)\<^sup>*\<^sup>* s (s\<lparr>sdb := snd (updateEach R es k us (sdb s)), loopAt := LUpdating []\<rparr>)"
proof (induction us arbitrary: s k)
  case (Cons u us)
  obtain h st x where u: "u = (h, st, x)" by (metis prod_cases3)
  let ?s1 = "s\<lparr>sdb := snd (rUpdateStatus R (es k) h st x (sdb s)), loopAt := LUpdating us\<rparr>"
  have "step L R l LoopUpdate s ?s1" using Cons.prems by (auto simp: u intro: step.LoopUpdate)
  then have "(anyStep L R l)\<^sup>*\<^sup>* s ?s1" by (intro r_into_rtranclp anyStepI)
  also have "(anyStep L R l)\<^sup>*\<^sup>* ?s1
      (?s1\<lparr>sdb := snd (updateEach R es (Suc k) us (sdb ?s1)), loopAt := LUpdating []\<rparr>)"
    by (rule Cons.IH) simp
  finally show ?case by (simp add: u)
next
  case Nil
  then show ?case by (cases s) simp
qed

lemma Tick_is_steps:
  assumes inv: "inv (sdb s)" and s: "loopAt s = LIdle" "wf_signer signer"
  shows "(anyStep L R l)\<^sup>*\<^sup>* s (s\<lparr>sdb := snd (Tick L R signer client l es t (sdb s))\<rparr>)"
proof (rule Tick_cases [OF inv, of L signer client l es t], goal_cases none bundled)
  case none
  then show ?case by simp
next
  case (bundled ops db1)
    let ?plan = "snd (bundlePlan L signer client l t ops)"
    let ?s1 = "s\<lparr>loopAt := LFetched ops\<rparr>" and ?s2 = "s\<lparr>sdb := db1, loopAt := LClaimed ops\<rparr>"
    let ?s3 = "s\<lparr>sdb := db1, loopAt := LUpdating ?plan\<rparr>"
    have "step L R l Fetch s ?s1" using s(1) bundled(1,2) by (rule step.Fetch)
    moreover have "step L R l Claim ?s1 ?s2"
      using step.Claim [of ?s1 ops R "es 1" "Ok ()" db1 L l] bundled(3) by simp
    moreover have "step L R l Plan ?s2 ?s3"
      using step.Plan [of ?s2 ops signer L R l client t] s by simp
    ultimately have "(anyStep L R l)\<^sup>*\<^sup>* s ?s3"
      by (meson anyStepI converse_rtranclp_into_rtranclp r_into_rtranclp)
    also have "(anyStep L R l)\<^sup>*\<^sup>* ?s3 (?s3\<lparr>sdb := snd (updateEach R es 2 ?plan (sdb ?s3)), loopAt := LUpdating []\<rparr>)"
      by (rule steps_updates) simp
    also have "(anyStep L R l)\<^sup>*\<^sup>* \<dots> (s\<lparr>sdb := snd (updateEach R es 2 ?plan db1)\<rparr>)"
      using step.TickDone [of "?s3\<lparr>sdb := snd (updateEach R es 2 ?plan db1), loopAt := LUpdating []\<rparr>" L R l] s
      by (cases s) (auto intro!: r_into_rtranclp dest: anyStepI)
    finally show ?case using bundled(4) by simp
qed

end

section \<open>Properties of the running bundler\<close>

text \<open>
C2: in every state the running bundler reaches from an empty database, with any interleaving of its
parts, any answers of the node and the signer, any failing statements and any restarts, the table
satisfies its invariant, the operations in the hands of the loop are bundling and those in the hands of
the watcher submitted, and every submitted operation has the hash of its transaction.
\<close>

theorem running_invariant:
  assumes "ethlib_ok L" "reachable L (sqliteRepo L) l [] s"
  shows "table_inv L (sdb s) \<and> held (tableView L (sdb s)) StatusBundling (loopHeld (loopAt s)) \<and>
    held (tableView L (sdb s)) StatusSubmitted (watchHeld (watchAt s)) \<and> submittedHaveTx (tableView L (sdb s))"
  using repository.reachable_inv [OF sqlite_repository [OF assms(1)] assms(2)]
  unfolding repository.sysInv_def [OF sqlite_repository [OF assms(1)]] viewInv_def
  by (simp add: submittedHaveTx_def)

text \<open>
C1: every step of the running bundler moves every operation along the arrows of its life cycle or leaves
it alone: its content, its hash and its time of arrival never change, a terminal operation never
changes again, only a terminal operation is ever deleted, and a new one starts pending.
\<close>

theorem running_lifecycle:
  assumes "ethlib_ok L" "reachable L (sqliteRepo L) l [] s" "step L (sqliteRepo L) l a s s'"
  shows "\<forall>h. opChange (tableView L (sdb s) h) (tableView L (sdb s') h)"
  using repository.step_inv [OF sqlite_repository [OF assms(1)] assms(3)]
    repository.reachable_inv [OF sqlite_repository [OF assms(1)] assms(2)]
  by (simp add: submittedHaveTx_def)

lemma reachable_steps: "(anyStep L R l)\<^sup>*\<^sup>* s s' \<Longrightarrow> reachable L R l db s \<Longrightarrow> reachable L R l db s'"
  by (induction rule: rtranclp_induct) (auto simp: anyStep_def intro: reachable.step)

lemma running_sysInv:
  "ethlib_ok L \<Longrightarrow> reachable L (sqliteRepo L) l [] s \<Longrightarrow> repository.sysInv (tableView L) (table_inv L) s"
  using repository.reachable_inv [OF sqlite_repository] by (simp add: submittedHaveTx_def)

text \<open>A terminal operation stays as it is until it is deleted.\<close>

lemma terminal_stays:
  assumes L: "ethlib_ok L" and s: "reachable L (sqliteRepo L) l [] s"
    and op: "tableView L (sdb s) h = Some op" "IsTerminal (OpStatus op)"
    and steps: "(anyStep L (sqliteRepo L) l)\<^sup>*\<^sup>* s s'"
  shows "tableView L (sdb s') h = Some op \<or>
    (\<exists>s1. (anyStep L (sqliteRepo L) l)\<^sup>*\<^sup>* s s1 \<and> (anyStep L (sqliteRepo L) l)\<^sup>*\<^sup>* s1 s' \<and> tableView L (sdb s1) h = None)"
  using steps
proof (induction rule: rtranclp_induct)
  case base
  with op show ?case by simp
next
  case (step s1 s2)
  from step.IH show ?case
  proof
    assume v: "tableView L (sdb s1) h = Some op"
    have "repository.sysInv (tableView L) (table_inv L) s1" by (rule running_sysInv [OF L reachable_steps [OF step.hyps(1) s]])
    then have "opChange (tableView L (sdb s1) h) (tableView L (sdb s2) h)"
      using step.hyps(2) repository.step_inv [OF sqlite_repository [OF L]] by (auto simp: anyStep_def)
    then have "tableView L (sdb s2) h = Some op \<or> tableView L (sdb s2) h = None"
      using v lifecycleEdge_terminal [OF op(2)] by (auto simp: opChange_def split: option.splits)
    moreover have "(anyStep L (sqliteRepo L) l)\<^sup>*\<^sup>* s s2" using step.hyps by (rule rtranclp.rtrancl_into_rtrancl)
    ultimately show ?thesis by blast
  next
    assume "\<exists>s0. (anyStep L (sqliteRepo L) l)\<^sup>*\<^sup>* s s0 \<and> (anyStep L (sqliteRepo L) l)\<^sup>*\<^sup>* s0 s1 \<and> tableView L (sdb s0) h = None"
    with step.hyps(2) show ?thesis by (meson rtranclp.rtrancl_into_rtrancl)
  qed
qed

text \<open>
C35: an operation in status bundling that the loop has let go of (a status update failed) stays exactly
as it is under every step but a restart: no tick, poll or pruning returns it to the queue.
\<close>

theorem orphaned_bundling_stays:
  assumes "ethlib_ok L" "reachable L (sqliteRepo L) l [] s" "step L (sqliteRepo L) l a s s'" "a \<noteq> Restart"
    and "tableView L (sdb s) h = Some op" "OpStatus op = StatusBundling" "h \<notin> loopHeld (loopAt s)"
  shows "tableView L (sdb s') h = Some op \<and> h \<notin> loopHeld (loopAt s')"
  by (rule repository.orphan_step [OF sqlite_repository [OF assms(1)] assms(3)
        running_sysInv [OF assms(1,2)] assms(4-7)])

text \<open>
A tick that runs without interruption is one of the interleavings of the running bundler.
\<close>

theorem tick_is_interleaving:
  assumes "ethlib_ok L" "reachable L (sqliteRepo L) l [] s" "loopAt s = LIdle" "wf_signer signer"
  shows "(anyStep L (sqliteRepo L) l)\<^sup>*\<^sup>* s
    (s\<lparr>sdb := snd (Tick L (sqliteRepo L) signer client l es now (sdb s))\<rparr>)"
proof -
  have "table_inv L (sdb s)"
    using running_sysInv [OF assms(1,2)] by (simp add: repository.sysInv_def [OF sqlite_repository [OF assms(1)]])
  from repository.Tick_is_steps [OF sqlite_repository [OF assms(1)] this assms(3,4)] show ?thesis .
qed

section \<open>A sample run\<close>

lemma sample_reachable_any:
  "reachable hexLib (sqliteRepo hexLib) l [] \<lparr>sdb = table1, loopAt = LIdle, watchAt = WIdle\<rparr>"
proof -
  have "step hexLib (sqliteRepo hexLib) l Send \<lparr>sdb = [], loopAt = LIdle, watchAt = WIdle\<rparr>
      \<lparr>sdb = table1, loopAt = LIdle, watchAt = WIdle\<rparr>"
    using step.Send [of "plainOp 7 3" "sampleHash 1" hexLib "sqliteRepo hexLib" l
        "\<lparr>sdb = [], loopAt = LIdle, watchAt = WIdle\<rparr>" sampleEnv]
    by (simp add: sqliteRepo_def table1_def)
  with reachable.start show ?thesis by (rule reachable.step)
qed

lemmas sample_reachable = sample_reachable_any [of sampleLoop]

theorem running_invariant_witness: "table_inv hexLib table1"
  using running_invariant [OF hexLib_ok sample_reachable] by simp

theorem running_lifecycle_witness:
  "opChange (tableView hexLib table1 (sampleHash 1))
     (tableView hexLib (snd (MarkTtlExpired sampleEnv 2000 table1)) (sampleHash 1))"
  using running_lifecycle [OF hexLib_ok sample_reachable step.Expire [of hexLib "sqliteRepo hexLib" sampleLoop _ sampleEnv 2000]]
  by (simp add: sqliteRepo_def)

theorem tick_is_interleaving_witness:
  "(anyStep hexLib (sqliteRepo hexLib) sampleLoop)\<^sup>*\<^sup>* \<lparr>sdb = table1, loopAt = LIdle, watchAt = WIdle\<rparr>
     \<lparr>sdb = snd (Tick hexLib (sqliteRepo hexLib) sampleSigner sampleClient sampleLoop (\<lambda>_. sampleEnv) 1500 table1),
      loopAt = LIdle, watchAt = WIdle\<rparr>"
  using tick_is_interleaving [OF hexLib_ok sample_reachable _ sampleSigner_wf, of sampleClient "\<lambda>_. sampleEnv" 1500] by simp

text \<open>An update that fails right after a claim leaves an orphan.\<close>

definition brokenEnv :: dbenv where
  "brokenEnv = \<lparr>clock = 1000, fault = (\<lambda>_. Some ''database is locked'')\<rparr>"

definition claimedTable :: table where
  "claimedTable = snd (ClaimForBundling hexLib sampleEnv [sampleHash 1] table1)"

definition orphanState :: "table sys" where
  "orphanState = \<lparr>sdb = claimedTable, loopAt = LUpdating [], watchAt = WIdle\<rparr>"

lemma claimedTable_eq: "ClaimForBundling hexLib sampleEnv [sampleHash 1] table1 = (Ok (), claimedTable)"
  using ClaimForBundling_progress [OF hexLib_ok sampleEnv_quiet(1) table1_view(1), of "[sampleHash 1]"]
  by (simp add: table1_view claimedTable_def prod_eq_iff)

lemma claimedTable_view:
  "tableView hexLib claimedTable (sampleHash 1) =
     Some (applyUpdate 1000 StatusBundling None (freshOp 1000 (plainOp 7 3) (sampleHash 1)))"
  using ClaimForBundling_ok [OF hexLib_ok table1_view(1) _ claimedTable_eq] by (simp add: claimView_def table1_view)

lemma orphan_reachable: "reachable hexLib (sqliteRepo hexLib) sampleLoop [] orphanState"
proof -
  let ?op = "freshOp 1000 (plainOp 7 3) (sampleHash 1)"
  let ?st = "\<lambda>db lp. \<lparr>sdb = db, loopAt = lp, watchAt = WIdle\<rparr>"
  let ?step = "step hexLib (sqliteRepo hexLib) sampleLoop"
  have plan: "snd (bundlePlan hexLib sampleSigner downClient sampleLoop 1500 [?op]) = [(sampleHash 1, StatusPending, None)]"
  proof -
    have "\<not> isEntryPointRevert \<lparr>neText = ''connection refused'', neIsNotFound = False\<rparr> ''unknown''" by code_simp
    then show ?thesis
      by (simp add: bundlePlan_def downClient_def sampleClient_def extractRevertReason_def resetUpdates_def)
  qed
  have "?step Fetch (?st table1 LIdle) (?st table1 (LFetched [?op]))"
    using step.Fetch [of "?st table1 LIdle" "sqliteRepo hexLib" sampleEnv sampleLoop "[?op]" hexLib] sample_tick
    by (simp add: sqliteRepo_def)
  note r1 = reachable.step [OF sample_reachable this]
  have "?step Claim (?st table1 (LFetched [?op])) (?st claimedTable (LClaimed [?op]))"
    using step.Claim [of "?st table1 (LFetched [?op])" "[?op]" "sqliteRepo hexLib" sampleEnv "Ok ()" claimedTable hexLib sampleLoop]
      claimedTable_eq by (simp add: sqliteRepo_def)
  note r2 = reachable.step [OF r1 this]
  have "?step Plan (?st claimedTable (LClaimed [?op])) (?st claimedTable (LUpdating [(sampleHash 1, StatusPending, None)]))"
    using step.Plan [of "?st claimedTable (LClaimed [?op])" "[?op]" sampleSigner hexLib "sqliteRepo hexLib" sampleLoop downClient 1500] plan
    by simp
  note r3 = reachable.step [OF r2 this]
  have "snd (UpdateStatus hexLib brokenEnv (sampleHash 1) StatusPending None claimedTable) = claimedTable"
    by (simp add: UpdateStatus_def execUpdate_def brokenEnv_def)
  then have "?step LoopUpdate (?st claimedTable (LUpdating [(sampleHash 1, StatusPending, None)])) orphanState"
    using step.LoopUpdate [of "?st claimedTable (LUpdating [(sampleHash 1, StatusPending, None)])" "sampleHash 1" StatusPending None
        "[]" hexLib "sqliteRepo hexLib" sampleLoop brokenEnv] by (simp add: sqliteRepo_def orphanState_def)
  from reachable.step [OF r3 this] show ?thesis .
qed

theorem orphaned_bundling_stays_witness:
  "\<exists>op. tableView hexLib (snd (MarkTtlExpired sampleEnv 5000 claimedTable)) (sampleHash 1) = Some op \<and>
     OpStatus op = StatusBundling"
proof -
  have "step hexLib (sqliteRepo hexLib) sampleLoop Expire orphanState
      (orphanState\<lparr>sdb := snd (rMarkTtlExpired (sqliteRepo hexLib) sampleEnv 5000 (sdb orphanState))\<rparr>)"
    by (rule step.Expire)
  from orphaned_bundling_stays [OF hexLib_ok orphan_reachable this, of "sampleHash 1"] claimedTable_view
  show ?thesis by (simp add: orphanState_def sqliteRepo_def)
qed

end
