(* ===== verification/Json.thy ===== *)
theory Json
  imports UserOp
begin

text \<open>
  What the server uses of \<open>encoding/json\<close>. A \<open>json.RawMessage\<close> is the syntax tree of its text. Decoding
  into a struct follows \<open>json.Unmarshal\<close>: members in order, names compared up to Unicode case
  folding, unknown members and \<open>null\<close> skipped, a value of the wrong type remembered as the error while
  the other members are still decoded.
\<close>

datatype json =
    JNull
  | JBool bool
  | JNum string
  | JStr string
  | JArr "json list"
  | JObj "(string \<times> json) list"

fun jsonKind :: "json \<Rightarrow> string" where
  "jsonKind JNull = ''null''"
| "jsonKind (JBool b) = ''bool''"
| "jsonKind (JNum n) = ''number''"
| "jsonKind (JStr s) = ''string''"
| "jsonKind (JArr xs) = ''array''"
| "jsonKind (JObj ms) = ''object''"

definition valueError :: "json \<Rightarrow> string \<Rightarrow> error" where
  "valueError v ty = ErrFmt ''json: cannot unmarshal %s into Go value of type %s'' [FStr (jsonKind v), FStr ty]"

definition fieldError :: "json \<Rightarrow> string \<Rightarrow> string \<Rightarrow> string \<Rightarrow> error" where
  "fieldError v str fld ty =
     ErrFmt ''json: cannot unmarshal %s into Go struct field %s.%s of type %s'' [FStr (jsonKind v), FStr str, FStr fld, FStr ty]"

text \<open>
  Folding of member names. Beside the ASCII letters two other characters fold to ASCII ones: the long s
  (U+017F) and the Kelvin sign (U+212A), here in UTF-8.
\<close>

definition toUpperChar :: "char \<Rightarrow> char" where
  "toUpperChar c = (let k = of_char c :: int in if 97 \<le> k \<and> k \<le> 122 then char_of (k - 32) else c)"

function foldName :: "string \<Rightarrow> string" where
  "foldName s =
     (if s = [] then []
      else if take 2 s = [CHR 0xC5, CHR 0xBF] then CHR ''S'' # foldName (drop 2 s)
      else if take 3 s = [CHR 0xE2, CHR 0x84, CHR 0xAA] then CHR ''K'' # foldName (drop 3 s)
      else toUpperChar (hd s) # foldName (tl s))"
  by pat_completeness auto
termination
  by (relation "measure length") auto

declare foldName.simps [simp del]

text \<open>A field of a struct: its name, its Go type, and how a value of that type is stored.\<close>

record 'st field =
  fName :: string
  fType :: string
  fStore :: "json \<Rightarrow> 'st \<Rightarrow> 'st option"

definition findField :: "'st field list \<Rightarrow> string \<Rightarrow> 'st field option" where
  "findField fs k = find (\<lambda>f. foldName (fName f) = foldName k) fs"

definition firstError :: "error option \<Rightarrow> error \<Rightarrow> error option" where
  "firstError e er = (case e of None \<Rightarrow> Some er | Some e \<Rightarrow> Some e)"

fun decodeMembers :: "string \<Rightarrow> 'st field list \<Rightarrow> (string \<times> json) list \<Rightarrow> 'st \<Rightarrow> error option \<Rightarrow> 'st \<times> error option" where
  "decodeMembers str fs [] st e = (st, e)"
| "decodeMembers str fs ((k, v) # ms) st e =
     (case findField fs k of
        None \<Rightarrow> decodeMembers str fs ms st e
      | Some f \<Rightarrow>
         (case fStore f v st of
            Some st' \<Rightarrow> decodeMembers str fs ms st' e
          | None \<Rightarrow> decodeMembers str fs ms st (firstError e (fieldError v str (fName f) (fType f)))))"

definition unmarshalStruct :: "string \<Rightarrow> 'st field list \<Rightarrow> 'st \<Rightarrow> json \<Rightarrow> 'st \<times> error option" where
  "unmarshalStruct str fs zero v =
     (case v of
        JNull \<Rightarrow> (zero, None)
      | JObj ms \<Rightarrow> decodeMembers str fs ms zero None
      | _ \<Rightarrow> (zero, Some (valueError v str)))"

fun storeString :: "(string \<Rightarrow> 'st \<Rightarrow> 'st) \<Rightarrow> json \<Rightarrow> 'st \<Rightarrow> 'st option" where
  "storeString put (JStr s) st = Some (put s st)"
| "storeString put JNull st = Some st"
| "storeString put _ st = None"

definition stringField :: "string \<Rightarrow> (string \<Rightarrow> 'st \<Rightarrow> 'st) \<Rightarrow> 'st field" where
  "stringField name put = \<lparr>fName = name, fType = ''string'', fStore = storeString put\<rparr>"

fun unmarshalString :: "json \<Rightarrow> string res" where
  "unmarshalString (JStr s) = Ok s"
| "unmarshalString JNull = Ok []"
| "unmarshalString v = Err (valueError v ''string'')"

section \<open>The operation\<close>

definition userOpFields :: "UserOperationRPC field list" where
  "userOpFields =
     [stringField ''sender'' (\<lambda>s u. u\<lparr>rpc_Sender := s\<rparr>),
      stringField ''nonce'' (\<lambda>s u. u\<lparr>rpc_Nonce := s\<rparr>),
      stringField ''factory'' (\<lambda>s u. u\<lparr>rpc_Factory := s\<rparr>),
      stringField ''factoryData'' (\<lambda>s u. u\<lparr>rpc_FactoryData := s\<rparr>),
      stringField ''callData'' (\<lambda>s u. u\<lparr>rpc_CallData := s\<rparr>),
      stringField ''callGasLimit'' (\<lambda>s u. u\<lparr>rpc_CallGasLimit := s\<rparr>),
      stringField ''verificationGasLimit'' (\<lambda>s u. u\<lparr>rpc_VerificationGasLimit := s\<rparr>),
      stringField ''preVerificationGas'' (\<lambda>s u. u\<lparr>rpc_PreVerificationGas := s\<rparr>),
      stringField ''maxFeePerGas'' (\<lambda>s u. u\<lparr>rpc_MaxFeePerGas := s\<rparr>),
      stringField ''maxPriorityFeePerGas'' (\<lambda>s u. u\<lparr>rpc_MaxPriorityFeePerGas := s\<rparr>),
      stringField ''paymaster'' (\<lambda>s u. u\<lparr>rpc_Paymaster := s\<rparr>),
      stringField ''paymasterData'' (\<lambda>s u. u\<lparr>rpc_PaymasterData := s\<rparr>),
      stringField ''signature'' (\<lambda>s u. u\<lparr>rpc_Signature := s\<rparr>)]"

definition emptyUserOp :: UserOperationRPC where
  "emptyUserOp = \<lparr>rpc_Sender = [], rpc_Nonce = [], rpc_Factory = [], rpc_FactoryData = [], rpc_CallData = [],
     rpc_CallGasLimit = [], rpc_VerificationGasLimit = [], rpc_PreVerificationGas = [], rpc_MaxFeePerGas = [],
     rpc_MaxPriorityFeePerGas = [], rpc_Paymaster = [], rpc_PaymasterData = [], rpc_Signature = []\<rparr>"

definition unmarshalUserOp :: "json \<Rightarrow> UserOperationRPC res" where
  "unmarshalUserOp v =
     (case unmarshalStruct ''UserOperationRPC'' userOpFields emptyUserOp v of
        (op, None) \<Rightarrow> Ok op | (op, Some er) \<Rightarrow> Err er)"

section \<open>Evaluation\<close>

lemma foldName_Nil [simp]: "foldName [] = []"
  by (simp add: foldName.simps [of "[]"])

lemma foldName_Cons: "c \<noteq> CHR 0xC5 \<Longrightarrow> c \<noteq> CHR 0xE2 \<Longrightarrow> foldName (c # s) = toUpperChar c # foldName s"
  by (subst foldName.simps) (simp add: take_Cons')

lemma decodeMembers_error: "snd (decodeMembers str fs ms st (Some e)) = Some e"
  by (induction ms arbitrary: st) (auto simp: firstError_def split: option.splits)

lemma unmarshalString_no_Panic [simp]: "unmarshalString v \<noteq> Panic m"
  by (cases v) simp_all

lemma unmarshalUserOp_no_Panic [simp]: "unmarshalUserOp v \<noteq> Panic m"
  by (auto simp: unmarshalUserOp_def split: prod.splits option.splits)

end
