(* ===== verification/Config.thy ===== *)
theory Config
  imports Ethereum
begin

text \<open>
  \<open>internal/config/config.go\<close>: loading the configuration. The operating system (files, environment
  variables, the home directory) is a record of answers; the TOML decoder is a third-party package and
  a parameter. An unset field of the file has Go's zero value.
\<close>

record BundlerConfig =
  RpcURL :: string
  ChainID :: uint64
  EntryPoints :: "address list"
  AllowedPaymasters :: "address list"
  MaxVerificationGas :: uint64
  MaxCallGas :: uint64
  MaxBundleSize :: int
  PendingTtlMs :: int
  RetentionMs :: int
  KeystorePath :: string
  ExpectedAddress :: "address option"
  DbPath :: string
  ListenAddr :: string
  TickIntervalMs :: int
  ProverAPIKey :: string
  SponsorGating :: bool

text \<open>
  What the program gets from its surroundings. \<open>ZapBuild\<close> is \<open>Build\<close> of the logging library, with the error it may return:
  its development configuration, or the production one at a level.
\<close>

datatype zapLevel = DebugLevel | InfoLevel | WarnLevel | ErrorLevel

datatype zapConfig = DevelopmentConfig | ProductionConfig zapLevel

record os =
  ReadFile :: "string \<Rightarrow> string + bytes"
  Getenv :: "string \<Rightarrow> string"
  UserHomeDir :: "string + string"
  ZapBuild :: "zapConfig \<Rightarrow> string option"

definition applyDefaults :: "BundlerConfig \<Rightarrow> BundlerConfig" where
  "applyDefaults c0 =
     (let c = c0;
          c = (if MaxBundleSize c = 0 then c\<lparr>MaxBundleSize := 10\<rparr> else c);
          c = (if PendingTtlMs c = 0 then c\<lparr>PendingTtlMs := 600000\<rparr> else c);
          c = (if RetentionMs c = 0 then c\<lparr>RetentionMs := 604800000\<rparr> else c);
          c = (if ListenAddr c = [] then c\<lparr>ListenAddr := '':4337''\<rparr> else c);
          c = (if TickIntervalMs c = 0 then c\<lparr>TickIntervalMs := 12000\<rparr> else c);
          c = (if DbPath c = [] then c\<lparr>DbPath := ''~/.bundler/bundler.db''\<rparr> else c);
          c = (if KeystorePath c = [] then c\<lparr>KeystorePath := ''~/.bundler/keystore.json''\<rparr> else c)
      in c)"

definition applyEnvOverrides :: "os \<Rightarrow> BundlerConfig \<Rightarrow> BundlerConfig" where
  "applyEnvOverrides os c =
     (let v = Getenv os ''BUNDLER_RPC_URL'';
          c = (if v \<noteq> [] then c\<lparr>RpcURL := v\<rparr> else c);
          v = Getenv os ''BUNDLER_PROVER_API_KEY'';
          c = (if v \<noteq> [] then c\<lparr>ProverAPIKey := v\<rparr> else c)
      in c)"

definition validate :: "BundlerConfig \<Rightarrow> unit res" where
  "validate c =
     (if RpcURL c = [] then Err (ErrText ''rpcUrl is required'')
      else if ChainID c = 0 then Err (ErrText ''chainId is required'')
      else if length (EntryPoints c) = 0 then Err (ErrText ''at least one entryPoint is required'')
      else if length (AllowedPaymasters c) = 0 then Err (ErrText ''at least one allowedPaymaster is required'')
      else if MaxVerificationGas c = 0 then Err (ErrText ''maxVerificationGas is required'')
      else if MaxCallGas c = 0 then Err (ErrText ''maxCallGas is required'')
      else Ok ())"

definition Load :: "(bytes \<Rightarrow> string + BundlerConfig) \<Rightarrow> os \<Rightarrow> string \<Rightarrow> BundlerConfig res" where
  "Load unmarshal os path =
     (case ReadFile os path of
        Inl m \<Rightarrow> Err (ErrWrap ''read config'' (ErrExt m))
      | Inr data \<Rightarrow>
     (case unmarshal data of
        Inl m \<Rightarrow> Err (ErrWrap ''parse config'' (ErrExt m))
      | Inr cfg \<Rightarrow>
         let cfg = applyDefaults cfg;
             cfg = applyEnvOverrides os cfg
         in bind_res (wrap_err ''config validation'' (validate cfg)) (\<lambda>_. Ok cfg)))"

fun allowedIn :: "address \<Rightarrow> address list \<Rightarrow> bool" where
  "allowedIn addr [] = False"
| "allowedIn addr (ep # eps) = (if ep = addr then True else allowedIn addr eps)"

definition IsAllowedEntryPoint :: "BundlerConfig \<Rightarrow> address \<Rightarrow> bool" where
  "IsAllowedEntryPoint c addr = allowedIn addr (EntryPoints c)"

definition ExpandPath :: "os \<Rightarrow> string \<Rightarrow> string" where
  "ExpandPath os path =
     (if hasPrefix path ''~/'' then
        (case UserHomeDir os of Inl _ \<Rightarrow> path | Inr home \<Rightarrow> home @ drop 1 path)
      else path)"

section \<open>Properties\<close>

lemma allowedIn_iff [simp]: "allowedIn addr eps \<longleftrightarrow> addr \<in> set eps"
  by (induction eps) auto

lemma applyDefaults_fields:
  "RpcURL (applyDefaults c) = RpcURL c" "ChainID (applyDefaults c) = ChainID c"
  "EntryPoints (applyDefaults c) = EntryPoints c" "AllowedPaymasters (applyDefaults c) = AllowedPaymasters c"
  "MaxVerificationGas (applyDefaults c) = MaxVerificationGas c" "MaxCallGas (applyDefaults c) = MaxCallGas c"
  "ExpectedAddress (applyDefaults c) = ExpectedAddress c" "ProverAPIKey (applyDefaults c) = ProverAPIKey c"
  "SponsorGating (applyDefaults c) = SponsorGating c"
  "MaxBundleSize (applyDefaults c) = (if MaxBundleSize c = 0 then 10 else MaxBundleSize c)"
  "PendingTtlMs (applyDefaults c) = (if PendingTtlMs c = 0 then 600000 else PendingTtlMs c)"
  "RetentionMs (applyDefaults c) = (if RetentionMs c = 0 then 604800000 else RetentionMs c)"
  "TickIntervalMs (applyDefaults c) = (if TickIntervalMs c = 0 then 12000 else TickIntervalMs c)"
  "ListenAddr (applyDefaults c) = (if ListenAddr c = [] then '':4337'' else ListenAddr c)"
  "DbPath (applyDefaults c) = (if DbPath c = [] then ''~/.bundler/bundler.db'' else DbPath c)"
  "KeystorePath (applyDefaults c) = (if KeystorePath c = [] then ''~/.bundler/keystore.json'' else KeystorePath c)"
  by (simp_all add: applyDefaults_def Let_def)

lemma applyEnvOverrides_eq:
  "applyEnvOverrides os c = c
     \<lparr>RpcURL := (if Getenv os ''BUNDLER_RPC_URL'' = [] then RpcURL c else Getenv os ''BUNDLER_RPC_URL''),
      ProverAPIKey := (if Getenv os ''BUNDLER_PROVER_API_KEY'' = [] then ProverAPIKey c
                       else Getenv os ''BUNDLER_PROVER_API_KEY'')\<rparr>"
  by (simp add: applyEnvOverrides_def Let_def)

lemma validate_Ok_iff:
  "validate c = Ok () \<longleftrightarrow> RpcURL c \<noteq> [] \<and> ChainID c \<noteq> 0 \<and> EntryPoints c \<noteq> [] \<and> AllowedPaymasters c \<noteq> [] \<and>
     MaxVerificationGas c \<noteq> 0 \<and> MaxCallGas c \<noteq> 0"
  by (simp add: validate_def)

text \<open>
C24: a configuration that loads is usable and is that of the file: the lists whose first element the program
takes are not empty, every limit and interval is non-zero and every path is set; every value the file sets
is kept, the seven optional ones have the defaults of \<open>applyDefaults\<close> when the file leaves them unset, and the
URL of the node and the key of the prover come from the environment when it has them.
\<close>

theorem Load_usable:
  assumes "ReadFile os path = Inr data" "unmarshal data = Inr file" "Load unmarshal os path = Ok c"
  shows "EntryPoints c \<noteq> [] \<and> AllowedPaymasters c \<noteq> [] \<and> RpcURL c \<noteq> [] \<and> ChainID c \<noteq> 0 \<and>
    MaxVerificationGas c \<noteq> 0 \<and> MaxCallGas c \<noteq> 0 \<and> MaxBundleSize c \<noteq> 0 \<and> PendingTtlMs c \<noteq> 0 \<and>
    RetentionMs c \<noteq> 0 \<and> TickIntervalMs c \<noteq> 0 \<and> DbPath c \<noteq> [] \<and> KeystorePath c \<noteq> [] \<and> ListenAddr c \<noteq> [] \<and>
    c = \<lparr>RpcURL = (if Getenv os ''BUNDLER_RPC_URL'' = [] then RpcURL file else Getenv os ''BUNDLER_RPC_URL''),
         ChainID = ChainID file, EntryPoints = EntryPoints file, AllowedPaymasters = AllowedPaymasters file,
         MaxVerificationGas = MaxVerificationGas file, MaxCallGas = MaxCallGas file,
         MaxBundleSize = (if MaxBundleSize file = 0 then 10 else MaxBundleSize file),
         PendingTtlMs = (if PendingTtlMs file = 0 then 600000 else PendingTtlMs file),
         RetentionMs = (if RetentionMs file = 0 then 604800000 else RetentionMs file),
         KeystorePath = (if KeystorePath file = [] then ''~/.bundler/keystore.json'' else KeystorePath file),
         ExpectedAddress = ExpectedAddress file,
         DbPath = (if DbPath file = [] then ''~/.bundler/bundler.db'' else DbPath file),
         ListenAddr = (if ListenAddr file = [] then '':4337'' else ListenAddr file),
         TickIntervalMs = (if TickIntervalMs file = 0 then 12000 else TickIntervalMs file),
         ProverAPIKey = (if Getenv os ''BUNDLER_PROVER_API_KEY'' = [] then ProverAPIKey file
                         else Getenv os ''BUNDLER_PROVER_API_KEY''),
         SponsorGating = SponsorGating file\<rparr>"
proof -
  have c: "c = applyEnvOverrides os (applyDefaults file)" and v: "validate c = Ok ()"
    using assms by (auto simp: Load_def Let_def)
  show ?thesis
    using v [unfolded validate_Ok_iff] unfolding c by (simp add: applyEnvOverrides_eq applyDefaults_fields)
qed

definition sampleFile :: BundlerConfig where
  "sampleFile = \<lparr>RpcURL = ''http://node'', ChainID = 1, EntryPoints = [replicate 20 4], AllowedPaymasters = [replicate 20 34],
     MaxVerificationGas = 200000, MaxCallGas = 60000, MaxBundleSize = 0, PendingTtlMs = 0, RetentionMs = 0,
     KeystorePath = [], ExpectedAddress = None, DbPath = [], ListenAddr = [], TickIntervalMs = 0, ProverAPIKey = ''key'',
     SponsorGating = False\<rparr>"

definition sampleOs :: os where
  "sampleOs = \<lparr>ReadFile = (\<lambda>_. Inr []), Getenv = (\<lambda>v. if v = ''BUNDLER_RPC_URL'' then ''http://secret'' else []),
     UserHomeDir = Inr ''/root'', ZapBuild = (\<lambda>_. None)\<rparr>"

lemma sampleLoad: "Load (\<lambda>_. Inr sampleFile) sampleOs ''bundler.toml'' = Ok (applyEnvOverrides sampleOs (applyDefaults sampleFile))"
proof -
  have "validate (applyEnvOverrides sampleOs (applyDefaults sampleFile)) = Ok ()"
    by (simp add: validate_Ok_iff applyEnvOverrides_eq applyDefaults_fields) (simp add: sampleFile_def)
  then show ?thesis by (simp add: Load_def Let_def) (simp add: sampleOs_def)
qed

theorem Load_usable_witness:
  "\<exists>c. Load (\<lambda>_. Inr sampleFile) sampleOs ''bundler.toml'' = Ok c \<and> RpcURL c = ''http://secret'' \<and>
     EntryPoints c = [replicate 20 4] \<and> ProverAPIKey c = ''key'' \<and> MaxBundleSize c = 10 \<and> MaxCallGas c = 60000"
  using Load_usable [OF _ _ sampleLoad, of "[]" sampleFile]
  by (simp add: sampleLoad) (simp add: sampleOs_def sampleFile_def)

end
