(* ===== verification/Sponsor.thy ===== *)
theory Sponsor
  imports MempoolRepo
begin

text \<open>
  \<open>internal/sponsor/store.go\<close>: invite codes and whitelisted senders, two tables of the database the
  mempool uses. The environment of a call is that of the mempool: the clock and, for the n-th
  statement (\<open>BEGIN\<close>, \<open>PREPARE\<close>, queries, updates, \<open>COMMIT\<close>), the error of the driver if it
  fails. A transaction that does not commit leaves the tables as they were. The bytes of
  \<open>crypto/rand\<close> are a parameter.
\<close>

section \<open>The tables and the operations\<close>

record invite =
  i_code :: string
  i_created_at :: int
  i_used_by :: "string option"
  i_used_at :: "int option"

record whitelisted =
  w_sender :: string
  w_invite_code :: string
  w_created_at :: int

record sponsorDb =
  invite_codes :: "invite list"
  whitelisted_senders :: "whitelisted list"

definition senderHex :: "ethlib \<Rightarrow> address \<Rightarrow> string" where
  "senderHex L a = ToLower (AddressHex L a)"

text \<open>A statement without a result of its own: it fails with the driver's error or succeeds.\<close>

definition stmt :: "dbenv \<Rightarrow> nat \<Rightarrow> unit res" where
  "stmt e k = (case fault e k of Some m \<Rightarrow> Err (ErrExt m) | None \<Rightarrow> Ok ())"

definition generateCode :: "bytes \<Rightarrow> string" where
  "generateCode b = hexEncode (take 4 b)"

definition newInvite :: "string \<Rightarrow> int \<Rightarrow> invite" where
  "newInvite code now = \<lparr>i_code = code, i_created_at = now, i_used_by = None, i_used_at = None\<rparr>"

text \<open>The loop of \<open>GenerateCodes\<close>; a duplicate violates the primary key.\<close>

fun insertCodes :: "dbenv \<Rightarrow> nat \<Rightarrow> string list \<Rightarrow> invite list \<Rightarrow> invite list res" where
  "insertCodes e k [] t = Ok t"
| "insertCodes e k (code # codes) t =
     bind_res (stmt e k) (\<lambda>_.
       if code \<in> set (map i_code t) then Err (ErrExt uniqueError)
       else insertCodes e (Suc k) codes (t @ [newInvite code (clock e)]))"

definition GenerateCodes :: "dbenv \<Rightarrow> (nat \<Rightarrow> bytes) \<Rightarrow> int \<Rightarrow> sponsorDb \<Rightarrow> string list res \<times> sponsorDb" where
  "GenerateCodes e rnd n db =
     (if n < 0 then (Panic ''runtime error: makeslice: len out of range'', db)
      else
        let codes = map (\<lambda>i. generateCode (rnd i)) [0..<nat n] in
        case bind_res (stmt e 0) (\<lambda>_. bind_res (stmt e 1) (\<lambda>_.
               bind_res (insertCodes e 2 codes (invite_codes db)) (\<lambda>t.
               bind_res (stmt e (2 + nat n)) (\<lambda>_. Ok t)))) of
          Ok t \<Rightarrow> (Ok codes, db\<lparr>invite_codes := t\<rparr>)
        | Err er \<Rightarrow> (Err er, db)
        | Panic m \<Rightarrow> (Panic m, db))"

definition countSender :: "string \<Rightarrow> whitelisted list \<Rightarrow> nat" where
  "countSender s t = length (filter (\<lambda>w. w_sender w = s) t)"

definition CheckSender :: "ethlib \<Rightarrow> dbenv \<Rightarrow> address \<Rightarrow> sponsorDb \<Rightarrow> bool" where
  "CheckSender L e sender db \<longleftrightarrow>
     fault e 0 = None \<and> countSender (senderHex L sender) (whitelisted_senders db) > 0"

definition markUsed :: "string \<Rightarrow> int \<Rightarrow> string \<Rightarrow> invite list \<Rightarrow> invite list" where
  "markUsed s now code t =
     map (\<lambda>r. if i_code r = code then r\<lparr>i_used_by := Some s, i_used_at := Some now\<rparr> else r) t"

definition insertSender :: "whitelisted \<Rightarrow> whitelisted list \<Rightarrow> whitelisted list res" where
  "insertSender w t =
     (if w_sender w \<in> set (map w_sender t) then Err (ErrExt uniqueError) else Ok (t @ [w]))"

text \<open>
  The statements of \<open>RedeemCode\<close> are, in order, \<open>BEGIN\<close>, the count, the code, the two writes and
  \<open>COMMIT\<close>. A sender that is already whitelisted returns before the commit, with nothing written.
\<close>

definition RedeemCode :: "ethlib \<Rightarrow> dbenv \<Rightarrow> string \<Rightarrow> address \<Rightarrow> sponsorDb \<Rightarrow> unit res \<times> sponsorDb" where
  "RedeemCode L e code sender db =
     (let s = senderHex L sender; now = clock e in
      case bind_res (stmt e 0) (\<lambda>_. bind_res (stmt e 1) (\<lambda>_.
        if countSender s (whitelisted_senders db) > 0 then Ok None
        else bind_res (stmt e 2) (\<lambda>_.
          case filter (\<lambda>r. i_code r = code) (invite_codes db) of
            [] \<Rightarrow> Err (ErrText ''invalid invite code'')
          | r # _ \<Rightarrow>
             if i_used_by r \<noteq> None then Err (ErrText ''invite code already used'')
             else
               bind_res (stmt e 3) (\<lambda>_. bind_res (stmt e 4) (\<lambda>_.
               bind_res (insertSender \<lparr>w_sender = s, w_invite_code = code, w_created_at = now\<rparr>
                           (whitelisted_senders db)) (\<lambda>ws.
               bind_res (stmt e 5) (\<lambda>_.
                 Ok (Some (db\<lparr>invite_codes := markUsed s now code (invite_codes db),
                             whitelisted_senders := ws\<rparr>)))))))) ) of
        Ok None \<Rightarrow> (Ok (), db)
      | Ok (Some db') \<Rightarrow> (Ok (), db')
      | Err er \<Rightarrow> (Err er, db)
      | Panic m \<Rightarrow> (Panic m, db))"

section \<open>The contract\<close>

text \<open>
  What a client sees: each issued code is free or used by one sender. The locale states what checking a
  sender and redeeming a code mean on this view.
\<close>

type_synonym inviteMap = "string \<Rightarrow> address option option"

definition whitelist :: "inviteMap \<Rightarrow> address set" where
  "whitelist m = {a. \<exists>c. m c = Some (Some a)}"

locale invite_gate =
  fixes check :: "'e \<Rightarrow> address \<Rightarrow> 'db \<Rightarrow> bool"
    and redeem :: "'e \<Rightarrow> string \<Rightarrow> address \<Rightarrow> 'db \<Rightarrow> unit res \<times> 'db"
    and codes :: "'db \<Rightarrow> inviteMap"
    and inv :: "'db \<Rightarrow> bool"
    and works :: "'e \<Rightarrow> bool"
  assumes check_sound: "inv db \<Longrightarrow> length a = 20 \<Longrightarrow> check e a db \<Longrightarrow> a \<in> whitelist (codes db)"
    and check_complete: "inv db \<Longrightarrow> length a = 20 \<Longrightarrow> works e \<Longrightarrow> a \<in> whitelist (codes db) \<Longrightarrow> check e a db"
    and redeem_ok: "inv db \<Longrightarrow> length a = 20 \<Longrightarrow> redeem e c a db = (Ok (), db') \<Longrightarrow>
      (a \<in> whitelist (codes db) \<and> db' = db) \<or>
      (a \<notin> whitelist (codes db) \<and> codes db c = Some None \<and> inv db' \<and> codes db' = (codes db)(c \<mapsto> Some a))"
    and redeem_err: "redeem e c a db = (Err er, db') \<Longrightarrow> db' = db"
    and redeem_no_panic: "fst (redeem e c a db) \<noteq> Panic m"
    and redeem_progress: "inv db \<Longrightarrow> length a = 20 \<Longrightarrow> works e \<Longrightarrow>
      a \<in> whitelist (codes db) \<or> codes db c = Some None \<Longrightarrow> fst (redeem e c a db) = Ok ()"
begin

lemma redeem_cases:
  assumes "inv db" "length a = 20"
  obtains (same) "snd (redeem e c a db) = db" "fst (redeem e c a db) = Ok () \<Longrightarrow> a \<in> whitelist (codes db)"
    | (used) "fst (redeem e c a db) = Ok ()" "a \<notin> whitelist (codes db)" "codes db c = Some None"
        "inv (snd (redeem e c a db))" "codes (snd (redeem e c a db)) = (codes db)(c \<mapsto> Some a)"
proof (cases "fst (redeem e c a db)")
  case (Ok u)
  then have "redeem e c a db = (Ok (), snd (redeem e c a db))" by (simp add: prod_eq_iff)
  from redeem_ok [OF assms this] Ok show ?thesis by (auto intro: same used)
next
  case (Err er)
  then have "snd (redeem e c a db) = db" by (intro redeem_err [of e c a db er]) (simp add: prod_eq_iff)
  with Err show ?thesis by (intro same) simp_all
next
  case (Panic m)
  with redeem_no_panic show ?thesis by blast
qed

lemma redeem_inv: "inv db \<Longrightarrow> length a = 20 \<Longrightarrow> inv (snd (redeem e c a db))"
  by (cases rule: redeem_cases [of db a e c]) simp_all

lemma redeem_whitelists:
  "inv db \<Longrightarrow> length a = 20 \<Longrightarrow> fst (redeem e c a db) = Ok () \<Longrightarrow>
     a \<in> whitelist (codes (snd (redeem e c a db)))"
  by (cases rule: redeem_cases [of db a e c]) (auto simp: whitelist_def)

lemma redeem_keeps_used:
  "inv db \<Longrightarrow> length a = 20 \<Longrightarrow> codes db c' = Some (Some b) \<Longrightarrow>
     codes (snd (redeem e c a db)) c' = Some (Some b)"
  by (cases rule: redeem_cases [of db a e c]) auto

lemma redeem_used_code: "inv db \<Longrightarrow> length a = 20 \<Longrightarrow> codes db c = Some (Some b) \<Longrightarrow> snd (redeem e c a db) = db"
  by (cases rule: redeem_cases [of db a e c]) simp_all

end

section \<open>The tables implement the contract\<close>

definition inviteView :: "ethlib \<Rightarrow> sponsorDb \<Rightarrow> inviteMap" where
  "inviteView L db c =
     (case filter (\<lambda>r. i_code r = c) (invite_codes db) of
        [] \<Rightarrow> None
      | r # _ \<Rightarrow> Some (map_option (HexToAddress L) (i_used_by r)))"

text \<open>
  Codes and senders are unique, senders are spelled in lower case, and a code is used by a sender
  exactly when the sender was whitelisted with it.
\<close>

definition usedBy :: "sponsorDb \<Rightarrow> (string \<times> string) set" where
  "usedBy db = {(i_code r, s) |r s. r \<in> set (invite_codes db) \<and> i_used_by r = Some s}"

lemma usedBy_iff: "(c, s) \<in> usedBy db \<longleftrightarrow> (\<exists>r \<in> set (invite_codes db). i_code r = c \<and> i_used_by r = Some s)"
  by (auto simp: usedBy_def)

definition grants :: "sponsorDb \<Rightarrow> (string \<times> string) set" where
  "grants db = (\<lambda>w. (w_invite_code w, w_sender w)) ` set (whitelisted_senders db)"

definition sponsor_inv :: "ethlib \<Rightarrow> sponsorDb \<Rightarrow> bool" where
  "sponsor_inv L db \<longleftrightarrow>
     distinct (map i_code (invite_codes db)) \<and> distinct (map w_sender (whitelisted_senders db)) \<and>
     (\<forall>w \<in> set (whitelisted_senders db). \<exists>a. length a = 20 \<and> w_sender w = senderHex L a) \<and>
     usedBy db = grants db"

lemma senderHex_inject:
  "ethlib_ok L \<Longrightarrow> length a = 20 \<Longrightarrow> length b = 20 \<Longrightarrow> senderHex L a = senderHex L b \<longleftrightarrow> a = b"
  unfolding senderHex_def using HexToAddress_lower by metis

lemma HexToAddress_senderHex [simp]: "ethlib_ok L \<Longrightarrow> length a = 20 \<Longrightarrow> HexToAddress L (senderHex L a) = a"
  by (simp add: senderHex_def HexToAddress_lower)

lemma countSender_pos: "0 < countSender s t \<longleftrightarrow> s \<in> w_sender ` set t"
  by (auto simp: countSender_def filter_empty_conv)

lemma filter_code_unique:
  "distinct (map i_code t) \<Longrightarrow> r \<in> set t \<Longrightarrow> filter (\<lambda>q. i_code q = i_code r) t = [r]"
  by (induction t) (auto simp: filter_empty_conv image_iff)

lemma inviteView_Some:
  assumes "distinct (map i_code (invite_codes db))" "r \<in> set (invite_codes db)"
  shows "inviteView L db (i_code r) = Some (map_option (HexToAddress L) (i_used_by r))"
  using filter_code_unique [OF assms] by (simp add: inviteView_def)

lemma inviteView_SomeD:
  "inviteView L db c = Some x \<Longrightarrow>
     \<exists>r \<in> set (invite_codes db). i_code r = c \<and> x = map_option (HexToAddress L) (i_used_by r)"
  by (auto simp: inviteView_def filter_eq_Cons_iff split: list.splits)

lemma inviteView_None: "inviteView L db c = None \<longleftrightarrow> c \<notin> i_code ` set (invite_codes db)"
  by (auto simp: inviteView_def filter_empty_conv filter_eq_Cons_iff image_iff split: list.splits)

lemma whitelist_iff:
  assumes L: "ethlib_ok L" and db: "sponsor_inv L db" and a: "length a = 20"
  shows "a \<in> whitelist (inviteView L db) \<longleftrightarrow> 0 < countSender (senderHex L a) (whitelisted_senders db)"
proof
  assume "a \<in> whitelist (inviteView L db)"
  then obtain c where "inviteView L db c = Some (Some a)" by (auto simp: whitelist_def)
  from inviteView_SomeD [OF this] obtain r s
    where r: "r \<in> set (invite_codes db)" "i_used_by r = Some s" "HexToAddress L s = a" by (auto simp: eq_commute [of "Some _"])
  then have "(i_code r, s) \<in> grants db" using db by (auto simp: sponsor_inv_def usedBy_def)
  then obtain w where w: "w \<in> set (whitelisted_senders db)" "w_sender w = s" by (auto simp: grants_def)
  with db obtain b where "length b = 20" "s = senderHex L b" by (auto simp: sponsor_inv_def)
  with r L w show "0 < countSender (senderHex L a) (whitelisted_senders db)"
    by (auto simp: countSender_pos intro!: image_eqI [of _ _ w])
next
  assume "0 < countSender (senderHex L a) (whitelisted_senders db)"
  then obtain w where "w \<in> set (whitelisted_senders db)" "w_sender w = senderHex L a"
    by (auto simp: countSender_pos)
  then have "(w_invite_code w, senderHex L a) \<in> usedBy db"
    using db by (auto simp: sponsor_inv_def grants_def)
  then obtain r where "r \<in> set (invite_codes db)" "i_used_by r = Some (senderHex L a)"
    by (auto simp: usedBy_def)
  with db L a inviteView_Some [of db r L] show "a \<in> whitelist (inviteView L db)"
    by (auto simp: whitelist_def sponsor_inv_def)
qed

text \<open>The outcomes of a redemption: nothing changes, or the code passes to the sender.\<close>

definition redeemed :: "ethlib \<Rightarrow> dbenv \<Rightarrow> string \<Rightarrow> address \<Rightarrow> sponsorDb \<Rightarrow> sponsorDb" where
  "redeemed L e code a db =
     db\<lparr>invite_codes := markUsed (senderHex L a) (clock e) code (invite_codes db),
        whitelisted_senders := whitelisted_senders db @
          [\<lparr>w_sender = senderHex L a, w_invite_code = code, w_created_at = clock e\<rparr>]\<rparr>"

lemma bind_stmt: "bind_res (stmt e k) f = (case fault e k of None \<Rightarrow> f () | Some m \<Rightarrow> Err (ErrExt m))"
  by (cases "fault e k") (simp_all add: stmt_def)

lemma stmt_quiet [simp]: "quiet e \<Longrightarrow> stmt e k = Ok ()"
  by (simp add: stmt_def quiet_def)

lemma insertSender_new: "\<not> 0 < countSender (w_sender w) t \<Longrightarrow> insertSender w t = Ok (t @ [w])"
  by (simp only: countSender_pos insertSender_def set_map if_False)

text \<open>The abstract decision of a redemption, when no statement fails.\<close>

definition redeemSpec :: "ethlib \<Rightarrow> dbenv \<Rightarrow> string \<Rightarrow> address \<Rightarrow> sponsorDb \<Rightarrow> unit res \<times> sponsorDb" where
  "redeemSpec L e code a db =
     (if a \<in> whitelist (inviteView L db) then (Ok (), db)
      else case inviteView L db code of
          None \<Rightarrow> (Err (ErrText ''invalid invite code''), db)
        | Some (Some _) \<Rightarrow> (Err (ErrText ''invite code already used''), db)
        | Some None \<Rightarrow> (Ok (), redeemed L e code a db))"

lemma RedeemCode_spec:
  assumes "ethlib_ok L" "sponsor_inv L db" "length a = 20"
  shows "RedeemCode L e code a db = redeemSpec L e code a db \<or>
    (\<not> quiet e \<and> (\<exists>m. RedeemCode L e code a db = (Err (ErrExt m), db)))"
proof (cases "\<exists>k \<le> 5. stmt e k \<noteq> Ok ()")
  case False
  then have s: "stmt e 0 = Ok ()" "stmt e (Suc 0) = Ok ()" "stmt e 2 = Ok ()" "stmt e 3 = Ok ()"
    "stmt e 4 = Ok ()" "stmt e 5 = Ok ()" by simp_all
  have "RedeemCode L e code a db = redeemSpec L e code a db"
    by (simp add: RedeemCode_def redeemSpec_def s whitelist_iff [OF assms] inviteView_def insertSender_new
        redeemed_def Let_def split: list.splits option.splits)
  then show ?thesis ..
next
  case True
  then have "\<not> quiet e" by auto
  then show ?thesis
    by (simp add: RedeemCode_def redeemSpec_def bind_stmt whitelist_iff [OF assms] inviteView_def insertSender_new
        redeemed_def Let_def split: list.split option.split)
qed

lemma invite_codes_redeemed [simp]:
  "invite_codes (redeemed L e c a db) = markUsed (senderHex L a) (clock e) c (invite_codes db)"
  "whitelisted_senders (redeemed L e c a db) = whitelisted_senders db @
     [\<lparr>w_sender = senderHex L a, w_invite_code = c, w_created_at = clock e\<rparr>]"
  by (simp_all add: redeemed_def)

lemma map_code_markUsed [simp]: "map i_code (markUsed s now c t) = map i_code t"
  by (simp add: markUsed_def)

lemma redeemed_view:
  assumes "ethlib_ok L" "length a = 20" "inviteView L db c = Some x"
  shows "inviteView L (redeemed L e c a db) = (inviteView L db)(c \<mapsto> Some a)"
proof
  fix k
  have f: "filter (\<lambda>r. i_code r = k) (markUsed s now c t) = markUsed s now c (filter (\<lambda>r. i_code r = k) t)" for s now t
    by (induction t) (simp_all add: markUsed_def)
  show "inviteView L (redeemed L e c a db) k = ((inviteView L db)(c \<mapsto> Some a)) k"
  proof (cases "filter (\<lambda>r. i_code r = k) (invite_codes db)")
    case Nil
    with assms(3) have "k \<noteq> c" by (auto simp: inviteView_def)
    with Nil show ?thesis by (simp add: inviteView_def f) (simp add: markUsed_def)
  next
    case (Cons r rs)
    then have "i_code r = k" by (auto simp: filter_eq_Cons_iff)
    with Cons assms(1,2) show ?thesis by (simp add: inviteView_def f) (simp add: markUsed_def)
  qed
qed

lemma redeemed_inv:
  assumes L: "ethlib_ok L" and db: "sponsor_inv L db" and a: "length a = 20"
    and new: "a \<notin> whitelist (inviteView L db)" and free: "inviteView L db c = Some None"
  shows "sponsor_inv L (redeemed L e c a db)"
proof -
  obtain r where r: "r \<in> set (invite_codes db)" "i_code r = c" "i_used_by r = None"
    using inviteView_SomeD [OF free] by auto
  have unique: "q = r" if "q \<in> set (invite_codes db)" "i_code q = c" for q
    using db r that by (auto simp: sponsor_inv_def dest: distinct_map_eqD)
  have "(k, s) \<in> usedBy (redeemed L e c a db) \<longleftrightarrow>
      (\<exists>q \<in> set (invite_codes db). i_code q = k \<and> (if i_code q = c then s = senderHex L a else i_used_by q = Some s))" for k s
    unfolding usedBy_iff invite_codes_redeemed markUsed_def set_map bex_simps by (auto intro!: bex_cong)
  moreover have "(\<exists>q \<in> set (invite_codes db). i_code q = k \<and> (if i_code q = c then s = senderHex L a else i_used_by q = Some s)) \<longleftrightarrow>
      (k, s) \<in> insert (c, senderHex L a) (usedBy db)" for k s
  proof (cases "k = c")
    case True
    have "i_used_by q \<noteq> Some s" if "q \<in> set (invite_codes db)" "i_code q = c" for q
      using unique [OF that] r by simp
    with True r show ?thesis by (auto simp: usedBy_iff)
  qed (auto simp: usedBy_iff)
  ultimately have "usedBy (redeemed L e c a db) = insert (c, senderHex L a) (usedBy db)"
    by (simp only: set_eq_iff split_paired_All simp_thms)
  then have "usedBy (redeemed L e c a db) = grants (redeemed L e c a db)"
    using db by (simp add: sponsor_inv_def grants_def)
  with db new L a show ?thesis
    by (auto simp: sponsor_inv_def whitelist_iff [OF L db a] countSender_pos)
qed

lemma sponsor_gate:
  assumes L: "ethlib_ok L"
  shows "invite_gate (CheckSender L) (RedeemCode L) (inviteView L) (sponsor_inv L) quiet"
proof
  fix db :: sponsorDb and a :: address and e :: dbenv and c :: string
  assume db: "sponsor_inv L db" and a: "length a = 20"
  note wl = whitelist_iff [OF L db a] and spec = RedeemCode_spec [OF L db a, of e c]
  show "a \<in> whitelist (inviteView L db)" if "CheckSender L e a db"
    using that by (simp add: wl CheckSender_def)
  show "CheckSender L e a db" if "quiet e" "a \<in> whitelist (inviteView L db)"
    using that by (simp add: wl CheckSender_def quiet_def)
  show "(a \<in> whitelist (inviteView L db) \<and> db' = db) \<or>
      (a \<notin> whitelist (inviteView L db) \<and> inviteView L db c = Some None \<and> sponsor_inv L db' \<and>
       inviteView L db' = (inviteView L db)(c \<mapsto> Some a))" if "RedeemCode L e c a db = (Ok (), db')" for db'
    using that spec redeemed_view [OF L a] redeemed_inv [OF L db a]
    by (auto simp: redeemSpec_def split: if_splits option.splits)
  show "fst (RedeemCode L e c a db) = Ok ()"
    if "quiet e" "a \<in> whitelist (inviteView L db) \<or> inviteView L db c = Some None"
    using that spec by (auto simp: redeemSpec_def)
next
  show "db' = db" if "RedeemCode L e c a db = (Err er, db')" for e c a db er db'
    using that by (auto simp: RedeemCode_def Let_def split: res.splits option.splits)
  show "fst (RedeemCode L e c a db) \<noteq> Panic m" for e c a db m
    by (auto simp: RedeemCode_def insertSender_def bind_stmt Let_def split: option.split list.split)
qed

sublocale eth_library \<subseteq> sponsor: invite_gate "CheckSender L" "RedeemCode L" "inviteView L" "sponsor_inv L" quiet
  by (rule sponsor_gate [OF L_ok])

section \<open>Issuing codes\<close>

lemma newInvite_simps [simp]: "i_code (newInvite c now) = c" "i_used_by (newInvite c now) = None"
  by (simp_all add: newInvite_def)

lemma insertCodes_ok:
  assumes "insertCodes e k codes t = Ok t'" "distinct (map i_code t)"
  shows "t' = t @ map (\<lambda>c. newInvite c (clock e)) codes \<and> distinct (map i_code t')"
  using assms
proof (induction codes arbitrary: k t)
  case (Cons c codes)
  then have "c \<notin> set (map i_code t)" "insertCodes e (Suc k) codes (t @ [newInvite c (clock e)]) = Ok t'"
    by (auto split: if_splits)
  with Cons.IH [of "Suc k" "t @ [newInvite c (clock e)]"] Cons.prems(2) show ?case by (auto simp: comp_def disjoint_iff)
qed simp

lemma GenerateCodes_cases:
  obtains (same) "snd (GenerateCodes e rnd n db) = db"
    | (issued) codes t where "fst (GenerateCodes e rnd n db) = Ok codes" "insertCodes e 2 codes (invite_codes db) = Ok t"
        "length codes = nat n" "snd (GenerateCodes e rnd n db) = db\<lparr>invite_codes := t\<rparr>"
proof (cases "insertCodes e 2 (map (\<lambda>i. generateCode (rnd i)) [0..<nat n]) (invite_codes db)")
  case (Ok t)
  show ?thesis
  proof (cases "0 \<le> n \<and> stmt e 0 = Ok () \<and> stmt e 1 = Ok () \<and> stmt e (2 + nat n) = Ok ()")
    case True
    with Ok show ?thesis by (intro issued) (auto simp: GenerateCodes_def Let_def)
  next
    case False
    with Ok show ?thesis by (intro same) (auto simp: GenerateCodes_def Let_def split: res.splits)
  qed
qed (rule same; auto simp: GenerateCodes_def Let_def split: res.splits)+

lemma usedBy_new:
  "usedBy (db\<lparr>invite_codes := invite_codes db @ map (\<lambda>c. newInvite c now) codes\<rparr>) = usedBy db"
  by (auto simp: usedBy_def)

lemma grants_new [simp]: "grants (db\<lparr>invite_codes := t\<rparr>) = grants db"
  by (simp add: grants_def)

lemma GenerateCodes_inv: "sponsor_inv L db \<Longrightarrow> sponsor_inv L (snd (GenerateCodes e rnd n db))"
proof (cases rule: GenerateCodes_cases [of e rnd n db])
  case (issued codes t)
  assume "sponsor_inv L db"
  with insertCodes_ok [OF issued(2)] issued show ?thesis
    by (auto simp: sponsor_inv_def usedBy_new comp_def disjoint_iff)
qed simp

lemma GenerateCodes_keeps_used:
  assumes "sponsor_inv L db" "inviteView L db c = Some (Some b)"
  shows "inviteView L (snd (GenerateCodes e rnd n db)) c = Some (Some b)"
proof (cases rule: GenerateCodes_cases [of e rnd n db])
  case (issued codes t)
  then have "t = invite_codes db @ map (\<lambda>c. newInvite c (clock e)) codes"
    using insertCodes_ok assms(1) by (auto simp: sponsor_inv_def)
  with issued assms(2) show ?thesis by (auto simp: inviteView_def split: list.splits)
qed (simp add: assms)

text \<open>Any sequence of calls, whatever their arguments, the clock, the random bytes and the failures.\<close>

inductive sponsorStep :: "ethlib \<Rightarrow> sponsorDb \<Rightarrow> sponsorDb \<Rightarrow> bool" for L where
  generate: "sponsorStep L db (snd (GenerateCodes e rnd n db))"
| redeem: "length a = 20 \<Longrightarrow> sponsorStep L db (snd (RedeemCode L e c a db))"

definition emptySponsor :: sponsorDb where
  "emptySponsor = \<lparr>invite_codes = [], whitelisted_senders = []\<rparr>"

lemma emptySponsor_inv [simp]: "sponsor_inv L emptySponsor"
  by (simp add: sponsor_inv_def emptySponsor_def usedBy_def grants_def)

lemma sponsorStep_keeps:
  assumes "ethlib_ok L" "sponsorStep L db db'" "sponsor_inv L db"
  shows "sponsor_inv L db' \<and> (\<forall>c b. inviteView L db c = Some (Some b) \<longrightarrow> inviteView L db' c = Some (Some b))"
  using assms(2,3)
proof cases
  case (redeem a e c)
  then show ?thesis
    using invite_gate.redeem_inv [OF sponsor_gate [OF assms(1)] assms(3)]
      invite_gate.redeem_keeps_used [OF sponsor_gate [OF assms(1)] assms(3)] by simp
qed (simp add: GenerateCodes_inv GenerateCodes_keeps_used)

lemma sponsorSteps_keep:
  assumes "ethlib_ok L" "(sponsorStep L)\<^sup>*\<^sup>* db db'" "sponsor_inv L db"
  shows "sponsor_inv L db' \<and> (\<forall>c b. inviteView L db c = Some (Some b) \<longrightarrow> inviteView L db' c = Some (Some b))"
  using assms(2)
proof (induction rule: rtranclp_induct)
  case (step y z)
  then show ?case using sponsorStep_keeps [OF assms(1) step(2)] by blast
qed (simp add: assms)

lemma whitelisted_bound:
  assumes "sponsor_inv L db"
  shows "length (whitelisted_senders db) \<le> length (invite_codes db)"
proof -
  let ?ws = "set (whitelisted_senders db)"
  have inj: "inj_on w_invite_code ?ws"
  proof (rule inj_onI)
    fix v w assume vw: "v \<in> ?ws" "w \<in> ?ws" "w_invite_code v = w_invite_code w"
    then have "(w_invite_code w, w_sender v) \<in> usedBy db" "(w_invite_code w, w_sender w) \<in> usedBy db"
      using assms by (auto simp: sponsor_inv_def grants_def intro: rev_image_eqI)
    then have "w_sender v = w_sender w"
      using assms by (auto simp: sponsor_inv_def usedBy_iff dest: distinct_map_eqD)
    then show "v = w" using assms vw by (auto simp: sponsor_inv_def dest: distinct_map_eqD)
  qed
  have "w_invite_code ` ?ws = fst ` usedBy db" using assms by (force simp: sponsor_inv_def grants_def)
  also have "\<dots> \<subseteq> i_code ` set (invite_codes db)" by (auto simp: usedBy_def)
  finally have "card (w_invite_code ` ?ws) \<le> card (i_code ` set (invite_codes db))" by (intro card_mono) simp_all
  moreover have "length (whitelisted_senders db) = card ?ws" "card (w_invite_code ` ?ws) = card ?ws"
    using assms inj by (auto simp: sponsor_inv_def distinct_map card_image distinct_card [symmetric])
  moreover have "card (i_code ` set (invite_codes db)) \<le> length (invite_codes db)"
    by (metis card_length list.set_map length_map)
  ultimately show ?thesis by linarith
qed

section \<open>Properties\<close>

text \<open>
C14: an invite code whitelists at most one sender, once: after it was used, in any later sequence of calls
with any failures it stays with its sender and redeeming it again changes nothing, and there are
never more whitelisted senders than codes were issued.
\<close>

theorem invite_code_single_use:
  assumes "ethlib_ok L" "(sponsorStep L)\<^sup>*\<^sup>* emptySponsor db" "inviteView L db c = Some (Some a)"
    and "(sponsorStep L)\<^sup>*\<^sup>* db db'" "length b = 20"
  shows "inviteView L db' c = Some (Some a) \<and> snd (RedeemCode L e c b db') = db' \<and>
    length (whitelisted_senders db') \<le> length (invite_codes db')"
proof -
  have db: "sponsor_inv L db" using sponsorSteps_keep [OF assms(1,2)] by simp
  from sponsorSteps_keep [OF assms(1,4) db] assms(3)
  have "sponsor_inv L db'" "inviteView L db' c = Some (Some a)" by simp_all
  then show ?thesis
    using invite_gate.redeem_used_code [OF sponsor_gate [OF assms(1)]] assms(5) whitelisted_bound by simp
qed

definition calmEnv :: dbenv where
  "calmEnv = \<lparr>clock = 1000, fault = (\<lambda>_. None)\<rparr>"

lemma calmEnv_simps [simp]: "quiet calmEnv" "clock calmEnv = 1000" "stmt calmEnv k = Ok ()"
  by (simp_all add: calmEnv_def quiet_def stmt_def)

definition oneCode :: sponsorDb where
  "oneCode = snd (GenerateCodes calmEnv (\<lambda>_. [222, 173, 190, 239]) 1 emptySponsor)"

lemma oneCode_eval: "oneCode = \<lparr>invite_codes = [newInvite ''deadbeef'' 1000], whitelisted_senders = []\<rparr>"
proof -
  have "generateCode [222, 173, 190, 239] = ''deadbeef''" by code_simp
  then show ?thesis by (simp add: oneCode_def GenerateCodes_def emptySponsor_def)
qed

lemma oneCode_map: "inviteView L oneCode = [''deadbeef'' \<mapsto> None]"
proof
  show "inviteView L oneCode c = [''deadbeef'' \<mapsto> None] c" for c
    by (cases "''deadbeef'' = c") (auto simp: oneCode_eval inviteView_def)
qed

lemma oneCode_view [simp]: "inviteView L oneCode ''deadbeef'' = Some None" "whitelist (inviteView L oneCode) = {}"
  by (simp_all add: oneCode_map whitelist_def)

lemma oneCode_step: "(sponsorStep hexLib)\<^sup>*\<^sup>* emptySponsor oneCode"
  unfolding oneCode_def by (rule r_into_rtranclp) (rule sponsorStep.generate)

lemma oneCode_inv [simp]: "sponsor_inv hexLib oneCode"
  using sponsorSteps_keep [OF hexLib_ok oneCode_step] by simp

theorem invite_code_single_use_witness:
  "snd (RedeemCode hexLib calmEnv ''deadbeef'' (replicate 20 2)
         (snd (RedeemCode hexLib calmEnv ''deadbeef'' (replicate 20 1) oneCode))) =
   snd (RedeemCode hexLib calmEnv ''deadbeef'' (replicate 20 1) oneCode)"
proof -
  let ?db = "snd (RedeemCode hexLib calmEnv ''deadbeef'' (replicate 20 1) oneCode)"
  have "(sponsorStep hexLib)\<^sup>*\<^sup>* emptySponsor ?db"
    using oneCode_step by (rule rtranclp.rtrancl_into_rtrancl) (rule sponsorStep.redeem, simp)
  moreover have "RedeemCode hexLib calmEnv ''deadbeef'' (replicate 20 1) oneCode =
      (Ok (), redeemed hexLib calmEnv ''deadbeef'' (replicate 20 1) oneCode)"
    using RedeemCode_spec [OF hexLib_ok oneCode_inv, of "replicate 20 1" calmEnv "''deadbeef''"]
    by (simp add: redeemSpec_def)
  then have "inviteView hexLib ?db ''deadbeef'' = Some (Some (replicate 20 1))"
    using redeemed_view [OF hexLib_ok, of "replicate 20 1" oneCode "''deadbeef''"] by simp
  ultimately show ?thesis
    using invite_code_single_use [OF hexLib_ok, of ?db "''deadbeef''" "replicate 20 1" ?db "replicate 20 2" calmEnv]
    by simp
qed

end
