(* ===== verification/Paymaster.thy ===== *)
theory Paymaster
  imports Sponsor Bundling
begin

text \<open>
  \<open>internal/paymaster/paymaster.go\<close>: the sponsorship service behind the ERC-7677 methods. The node's
  \<open>eth_call\<close> and the signing key are parameters; the store of invite codes is that of \<open>Sponsor\<close>.
  The reference side is the contract the signature is made for,
  \<open>contracts/src/SignetPaymaster.sol\<close>: its \<open>parsePaymasterAndData\<close>, \<open>getHash\<close>,
  \<open>_isAllowedTarget\<close> and \<open>_validatePaymasterUserOp\<close>, with a Solidity revert as \<open>None\<close>.
\<close>

section \<open>The service\<close>

definition DefaultValidityWindow :: uint64 where
  "DefaultValidityWindow = 10 * 60"

definition DefaultVerificationGasLimit :: uint64 where
  "DefaultVerificationGasLimit = 50000"

definition DefaultPostOpGasLimit :: uint64 where
  "DefaultPostOpGasLimit = 0"

record Service =
  paymasterAddress :: address
  chainID :: uint64
  gating :: bool

text \<open>\<open>New\<close>: gating is on when a sponsor store is given.\<close>

definition newPaymaster :: "bool \<Rightarrow> address \<Rightarrow> uint64 \<Rightarrow> Service" where
  "newPaymaster sponsor pm cid = \<lparr>paymasterAddress = pm, chainID = cid, gating = sponsor\<rparr>"

record SponsorResult =
  srPaymaster :: address
  srPaymasterData :: bytes
  srVerificationGasLimit :: uint64
  srPostOpGasLimit :: uint64

record SponsorContext =
  InviteCode :: string

definition paymasterGasLimits :: bytes where
  "paymasterGasLimits = PackUint128s DefaultVerificationGasLimit DefaultPostOpGasLimit"

definition validityWindow :: "int \<Rightarrow> uint64 \<times> uint64" where
  "validityWindow unix =
     (let now = word_of_int unix in (now + DefaultValidityWindow, now - 60))"

definition encodeValidityAndSig :: "uint64 \<Rightarrow> uint64 \<Rightarrow> bytes \<Rightarrow> bytes" where
  "encodeValidityAndSig validUntil validAfter sig =
     (let encoded = replicate (64 + length sig) 0;
          encoded = copy_into 0 32 (PadLeft32 (Bytes (uint validUntil))) encoded;
          encoded = copy_into 32 64 (PadLeft32 (Bytes (uint validAfter))) encoded;
          encoded = copy_at 64 sig encoded
      in encoded)"

definition getHashBuffer :: "ethlib \<Rightarrow> Service \<Rightarrow> 'a PackedUserOp_scheme \<Rightarrow> uint64 \<Rightarrow> uint64 \<Rightarrow> bytes" where
  "getHashBuffer L s op validUntil validAfter =
     (let buf = replicate (12 * 32) 0;
          buf = copy_into 12 32 (Sender op) buf;
          buf = copy_into 32 64 (PadLeft32 (Bytes (Nonce op))) buf;
          buf = copy_into 64 96 (Keccak256 L [InitCode op]) buf;
          buf = copy_into 96 128 (Keccak256 L [CallData op]) buf;
          buf = copy_into 128 160 (AccountGasLimits op) buf;
          buf = copy_into 160 192 paymasterGasLimits buf;
          buf = copy_into 192 224 (PadLeft32 (Bytes (PreVerificationGas op))) buf;
          buf = copy_into 224 256 (GasFees op) buf;
          buf = copy_into 256 288 (PadLeft32 (Bytes (uint (chainID s)))) buf;
          buf = copy_into 300 320 (paymasterAddress s) buf;
          buf = copy_into 320 352 (PadLeft32 (Bytes (uint validUntil))) buf;
          buf = copy_into 352 384 (PadLeft32 (Bytes (uint validAfter))) buf
      in buf)"

definition getHash :: "ethlib \<Rightarrow> Service \<Rightarrow> 'a PackedUserOp_scheme \<Rightarrow> uint64 \<Rightarrow> uint64 \<Rightarrow> bytes" where
  "getHash L s op validUntil validAfter = Keccak256 L [getHashBuffer L s op validUntil validAfter]"

definition toEthSignedMessageHash :: "ethlib \<Rightarrow> bytes \<Rightarrow> bytes" where
  "toEthSignedMessageHash L h =
     Keccak256 L [0x19 # stringBytes ''Ethereum Signed Message:'' @ [10] @ stringBytes ''32'', h]"

text \<open>The package has its own copies of the encoders of the bundling loop.\<close>

definition encodeBytesForCall :: "bytes \<Rightarrow> bytes" where
  "encodeBytesForCall data =
     (let paddedLen = ((length data + 31) div 32) * 32;
          buf = replicate (32 + paddedLen) 0;
          buf = copy_into 0 32 (PadLeft32 (Bytes (int (length data)))) buf;
          buf = copy_at 32 data buf
      in buf)"

definition encodePackedUserOpForCall :: "'a PackedUserOp_scheme \<Rightarrow> bytes" where
  "encodePackedUserOpForCall op =
     (let headSize = 9 * 32;
          initCodeEnc = encodeBytesForCall (InitCode op);
          callDataEnc = encodeBytesForCall (CallData op);
          pmDataEnc = encodeBytesForCall (PaymasterAndData op);
          sigEnc = encodeBytesForCall (Signature op);
          totalSize = headSize + length initCodeEnc + length callDataEnc + length pmDataEnc + length sigEnc;
          buf = replicate totalSize 0;
          buf = copy_into 12 32 (Sender op) buf;
          buf = copy_into 32 64 (PadLeft32 (Bytes (Nonce op))) buf;
          buf = copy_into (4*32) (5*32) (AccountGasLimits op) buf;
          buf = copy_into (5*32) (6*32) (PadLeft32 (Bytes (PreVerificationGas op))) buf;
          buf = copy_into (6*32) (7*32) (GasFees op) buf;
          tailOffset = headSize;
          buf = copy_into (2*32) (3*32) (PadLeft32 (Bytes (int tailOffset))) buf;
          tailOffset = tailOffset + length initCodeEnc;
          buf = copy_into (3*32) (4*32) (PadLeft32 (Bytes (int tailOffset))) buf;
          tailOffset = tailOffset + length callDataEnc;
          buf = copy_into (7*32) (8*32) (PadLeft32 (Bytes (int tailOffset))) buf;
          tailOffset = tailOffset + length pmDataEnc;
          buf = copy_into (8*32) (9*32) (PadLeft32 (Bytes (int tailOffset))) buf;
          pos = headSize;
          buf = copy_at pos initCodeEnc buf;
          pos = pos + length initCodeEnc;
          buf = copy_at pos callDataEnc buf;
          pos = pos + length callDataEnc;
          buf = copy_at pos pmDataEnc buf;
          pos = pos + length pmDataEnc;
          buf = copy_at pos sigEnc buf
      in buf)"

definition shouldSponsorSelector :: "ethlib \<Rightarrow> bytes" where
  "shouldSponsorSelector L = take 4 (Keccak256 L [stringBytes
     ''shouldSponsor((address,uint256,bytes,bytes,bytes32,uint256,bytes32,bytes,bytes))''])"

definition encodeShouldSponsorCall :: "ethlib \<Rightarrow> 'a PackedUserOp_scheme \<Rightarrow> bytes" where
  "encodeShouldSponsorCall L op =
     (let buf = shouldSponsorSelector L;
          buf = buf @ PadLeft32 (Bytes 32);
          encoded = encodePackedUserOpForCall op
      in buf @ encoded)"

definition checkShouldSponsor ::
    "ethlib \<Rightarrow> (address \<Rightarrow> bytes \<Rightarrow> nodeError + bytes) \<Rightarrow> Service \<Rightarrow> 'a PackedUserOp_scheme \<Rightarrow> unit res" where
  "checkShouldSponsor L callContract s op =
     (case callContract (paymasterAddress s) (encodeShouldSponsorCall L op) of
        Inl er \<Rightarrow> Err (ErrWrap ''shouldSponsor call failed'' (nodeErr er))
      | Inr result \<Rightarrow>
         if length result < 32
         then Err (ErrFmt ''shouldSponsor: unexpected response length %d'' [FInt (int (length result))])
         else if result ! 31 \<noteq> 1 then Err (ErrText ''sponsorship rejected by paymaster'')
         else Ok ())"

text \<open>
  The sponsor store is optional (\<open>gating\<close>); its two calls have the environments \<open>e1\<close> and \<open>e2\<close>.
\<close>

definition checkSponsorAccess ::
    "ethlib \<Rightarrow> Service \<Rightarrow> dbenv \<Rightarrow> dbenv \<Rightarrow> address \<Rightarrow> SponsorContext option \<Rightarrow> sponsorDb \<Rightarrow> unit res \<times> sponsorDb" where
  "checkSponsorAccess L s e1 e2 sender sc db =
     (if \<not> gating s then (Ok (), db)
      else if CheckSender L e1 sender db then (Ok (), db)
      else case sc of
          Some c \<Rightarrow>
            if InviteCode c \<noteq> [] then
              (case RedeemCode L e2 (InviteCode c) sender db of
                 (Err er, db) \<Rightarrow> (Err (ErrWrap ''invite code rejected'' er), db)
               | (Panic m, db) \<Rightarrow> (Panic m, db)
               | (Ok _, db) \<Rightarrow> (Ok (), db))
            else (Err (ErrFmt (''sender %s not whitelisted '' @ [CHR 0xE2, CHR 0x80, CHR 0x94] @
                   '' provide an invite code'') [FStr (AddressHex L sender)]), db)
        | None \<Rightarrow> (Err (ErrFmt (''sender %s not whitelisted '' @ [CHR 0xE2, CHR 0x80, CHR 0x94] @
                   '' provide an invite code'') [FStr (AddressHex L sender)]), db))"

definition sponsorResult :: "Service \<Rightarrow> bytes \<Rightarrow> SponsorResult" where
  "sponsorResult s data =
     \<lparr>srPaymaster = paymasterAddress s, srPaymasterData = data,
      srVerificationGasLimit = DefaultVerificationGasLimit, srPostOpGasLimit = DefaultPostOpGasLimit\<rparr>"

definition GetStubData :: "Service \<Rightarrow> int \<Rightarrow> SponsorResult" where
  "GetStubData s unix =
     (let (validUntil, validAfter) = validityWindow unix
      in sponsorResult s (encodeValidityAndSig validUntil validAfter (replicate 65 0)))"

definition GetPaymasterData ::
    "ethlib \<Rightarrow> (address \<Rightarrow> bytes \<Rightarrow> nodeError + bytes) \<Rightarrow> (bytes \<Rightarrow> bytes res) \<Rightarrow> Service \<Rightarrow> dbenv \<Rightarrow> dbenv \<Rightarrow> int \<Rightarrow>
     'a PackedUserOp_scheme \<Rightarrow> SponsorContext option \<Rightarrow> sponsorDb \<Rightarrow> SponsorResult res \<times> sponsorDb" where
  "GetPaymasterData L callContract signHash s e1 e2 unix op sc db =
     (case checkSponsorAccess L s e1 e2 (Sender op) sc db of
        (Err er, db) \<Rightarrow> (Err er, db)
      | (Panic m, db) \<Rightarrow> (Panic m, db)
      | (Ok _, db) \<Rightarrow>
         (bind_res (checkShouldSponsor L callContract s op) (\<lambda>_.
          let (validUntil, validAfter) = validityWindow unix;
              h = getHash L s op validUntil validAfter;
              prefixed = toEthSignedMessageHash L h
          in bind_res (wrap_err ''sign paymaster data'' (signHash prefixed)) (\<lambda>sig.
             Ok (sponsorResult s (encodeValidityAndSig validUntil validAfter sig)))), db))"

section \<open>The contract\<close>

definition parsePaymasterAndData :: "bytes \<Rightarrow> (int \<times> int \<times> bytes) option" where
  "parsePaymasterAndData pmd =
     (if length pmd < 116 \<or> uintAt pmd 52 \<ge> 2 ^ 48 \<or> uintAt pmd 84 \<ge> 2 ^ 48 then None
      else Some (uintAt pmd 52, uintAt pmd 84, drop 116 pmd))"

definition chainGetHash :: "ethlib \<Rightarrow> address \<Rightarrow> int \<Rightarrow> 'a PackedUserOp_scheme \<Rightarrow> int \<Rightarrow> int \<Rightarrow> bytes" where
  "chainGetHash L this chainid op validUntil validAfter = keccak L (concat
     [abiAddress (Sender op), abiUint (Nonce op), keccak L (InitCode op), keccak L (CallData op),
      AccountGasLimits op, slice 20 52 (PaymasterAndData op), abiUint (PreVerificationGas op), GasFees op,
      abiUint chainid, abiAddress this, abiUint validUntil, abiUint validAfter])"

definition isAllowedTarget :: "address \<Rightarrow> (address \<Rightarrow> bool) \<Rightarrow> address \<Rightarrow> bytes \<Rightarrow> bool" where
  "isAllowedTarget factory isGroup sender callData =
     (if length callData < 36 then False
      else if slice 0 4 callData \<noteq> [0xb6, 0x1d, 0x27, 0xf6] then False
      else let target = slice 16 36 callData in
        target = sender \<or> target = factory \<or> isGroup target)"

definition shouldSponsor :: "address \<Rightarrow> (address \<Rightarrow> bool) \<Rightarrow> 'a PackedUserOp_scheme \<Rightarrow> bool" where
  "shouldSponsor factory isGroup op = isAllowedTarget factory isGroup (Sender op) (CallData op)"

text \<open>The result: whether validation fails, and the validity window.\<close>

definition validatePaymasterUserOp ::
    "ethlib \<Rightarrow> (bytes \<Rightarrow> bytes \<Rightarrow> address) \<Rightarrow> address \<Rightarrow> (address \<Rightarrow> bool) \<Rightarrow> address \<Rightarrow> address \<Rightarrow> int \<Rightarrow>
     'a PackedUserOp_scheme \<Rightarrow> (bool \<times> int \<times> int) option" where
  "validatePaymasterUserOp L recover factory isGroup verifyingSigner this chainid op =
     (case parsePaymasterAndData (PaymasterAndData op) of
        None \<Rightarrow> None
      | Some (validUntil, validAfter, signature) \<Rightarrow>
         if length signature \<noteq> 64 \<and> length signature \<noteq> 65 then None
         else
           let h = toEthSignedMessageHash L (chainGetHash L this chainid op validUntil validAfter)
           in if verifyingSigner \<noteq> recover h signature then Some (True, validUntil, validAfter)
              else if \<not> isAllowedTarget factory isGroup (Sender op) (CallData op) then Some (True, validUntil, validAfter)
              else Some (False, validUntil, validAfter))"

section \<open>The encodings\<close>

lemma encodeBytesForCall_eq: "encodeBytesForCall = encodeBytes"
  by (rule ext) (simp only: encodeBytesForCall_def encodeBytes_def)

lemma encodePackedUserOpForCall_eq: "encodePackedUserOpForCall op = encodePackedUserOp op"
  by (simp only: encodePackedUserOpForCall_def encodePackedUserOp_def encodeBytesForCall_eq)

lemma length_PadLeft32_uint64: "length (PadLeft32 (Bytes (uint (w :: uint64)))) = 32"
  using length_abiUint [OF uint256_uint64] by (simp add: abiUint_def)

lemma encodeValidityAndSig_abi: "encodeValidityAndSig vu va sig = abiUint (uint vu) @ abiUint (uint va) @ sig"
proof -
  have "replicate (64 + length sig) (0::byte) = replicate 32 0 @ replicate 32 0 @ replicate (length sig) 0"
    by (simp add: replicate_add [symmetric])
  then show ?thesis
    using length_PadLeft32_uint64 [of vu] length_PadLeft32_uint64 [of va]
    by (simp add: encodeValidityAndSig_def abiUint_def layout)
qed

lemma length_paymasterGasLimits [simp]: "length paymasterGasLimits = 32"
  by (simp add: paymasterGasLimits_def PackUint128s_halves)

text \<open>The buffer of the service, when the operation carries the service's gas limits.\<close>

lemma getHash_on_chain:
  assumes L: "ethlib_ok L" and op: "wf_op op" "uint256_op op" and pm: "length (paymasterAddress s) = 20"
    and gas: "slice 20 52 (PaymasterAndData op) = paymasterGasLimits"
  shows "getHash L s op vu va = chainGetHash L (paymasterAddress s) (uint (chainID s)) op (uint vu) (uint va)"
proof -
  have r: "replicate 384 (0::byte) = replicate 12 0 @ replicate 20 0 @ replicate 32 0 @ replicate 32 0 @
     replicate 32 0 @ replicate 32 0 @ replicate 32 0 @ replicate 32 0 @ replicate 32 0 @ replicate 32 0 @
     replicate 12 0 @ replicate 20 0 @ replicate 32 0 @ replicate 32 0"
    by (simp add: replicate_add [symmetric])
  have w: "length (PadLeft32 (Bytes (Nonce op))) = 32" "length (PadLeft32 (Bytes (PreVerificationGas op))) = 32"
    using op(2) length_abiUint [unfolded abiUint_def] by (simp_all add: uint256_op_def)
  show ?thesis
    using L op(1) pm w
    by (simp add: getHash_def getHashBuffer_def chainGetHash_def abiAddress_def abiUint_def wf_op_def gas
        length_keccak length_PadLeft32_uint64 r layout)
qed

lemma getHash_cong:
  "Sender op = Sender op' \<Longrightarrow> Nonce op = Nonce op' \<Longrightarrow> InitCode op = InitCode op' \<Longrightarrow> CallData op = CallData op' \<Longrightarrow>
   AccountGasLimits op = AccountGasLimits op' \<Longrightarrow> PreVerificationGas op = PreVerificationGas op' \<Longrightarrow>
   GasFees op = GasFees op' \<Longrightarrow> getHash L s op vu va = getHash L s op' vu va"
  by (simp add: getHash_def getHashBuffer_def)

lemma parse_standard:
  assumes "length a = 20" "length g = 32" "vu < 2 ^ 48" "va < 2 ^ 48"
  shows "parsePaymasterAndData (a @ g @ encodeValidityAndSig vu va sig) = Some (uint vu, uint va, sig)"
proof -
  let ?pmd = "a @ g @ abiUint (uint vu) @ abiUint (uint va) @ sig"
  have "wordAt ?pmd 52 = abiUint (uint vu)" "wordAt ?pmd 84 = abiUint (uint va)"
    using assms wordAt_append [of "a @ g" 52 "abiUint (uint vu)" "abiUint (uint va) @ sig"]
      wordAt_append [of "a @ g @ abiUint (uint vu)" 84 "abiUint (uint va)" sig] by simp_all
  moreover have "uint vu < 2 ^ 48" "uint va < 2 ^ 48" using assms(3,4) by (simp_all add: word_less_def)
  ultimately show ?thesis
    using assms by (simp add: parsePaymasterAndData_def encodeValidityAndSig_abi uintAt_def)
qed

lemma shouldSponsor_call_read:
  assumes "ethlib_ok L" "fits op"
  shows "take 4 (encodeShouldSponsorCall L op) = shouldSponsorSelector L \<and>
    opAt (drop 4 (encodeShouldSponsorCall L op)) (nat (uintAt (drop 4 (encodeShouldSponsorCall L op)) 0)) =
      PackedUserOp.truncate op"
proof -
  have sel: "length (shouldSponsorSelector L) = 4" using assms(1) by (simp add: shouldSponsorSelector_def length_keccak)
  have c: "encodeShouldSponsorCall L op = shouldSponsorSelector L @ abiUint 32 @ abiTuple op"
    using assms by (simp add: encodeShouldSponsorCall_def abiUint_def encodePackedUserOpForCall_eq encodePackedUserOp_abi)
  have "uintAt (abiUint 32 @ abiTuple op) 0 = 32"
    using wordAt_append [of "[]" 0 "abiUint 32" "abiTuple op"] by (simp add: uintAt_def)
  moreover have "opAt (abiUint 32 @ abiTuple op) 32 = PackedUserOp.truncate op"
    using opAt_abiTuple [OF assms(2), of "abiUint 32" "[]"] by simp
  ultimately show ?thesis using sel by (simp add: c)
qed

text \<open>
  What \<open>eth_call\<close> promises of a node: it executes the contract, here the dispatch of a call with the selector of
  \<open>shouldSponsor\<close> to this function on the decoded operation, and the ABI encoding of its boolean result.
\<close>

definition callsContract :: "ethlib \<Rightarrow> (address \<Rightarrow> bytes \<Rightarrow> nodeError + bytes) \<Rightarrow> address \<Rightarrow> address \<Rightarrow> (address \<Rightarrow> bool) \<Rightarrow> bool" where
  "callsContract L callContract a factory isGroup \<longleftrightarrow> (\<forall>call answer. callContract a call = Inr answer \<longrightarrow>
     take 4 call = shouldSponsorSelector L \<longrightarrow>
     answer = abiUint (if shouldSponsor factory isGroup (opAt (drop 4 call) (nat (uintAt (drop 4 call) 0))) then 1 else 0))"

lemma abiUint_bool: "abiUint 0 ! 31 = 0" "abiUint 1 ! 31 = 1" "length (abiUint 1) = 32"
  by code_simp+

lemma approved_target:
  assumes L: "ethlib_ok L" and op: "fits op" and node: "callsContract L callContract (paymasterAddress s) factory isGroup"
    and ok: "checkShouldSponsor L callContract s op = Ok ()"
  shows "isAllowedTarget factory isGroup (Sender op) (CallData op)"
proof -
  obtain answer where a: "callContract (paymasterAddress s) (encodeShouldSponsorCall L op) = Inr answer" "answer ! 31 = 1"
    using ok by (auto simp: checkShouldSponsor_def split: sum.splits if_splits)
  have "answer = abiUint (if shouldSponsor factory isGroup (PackedUserOp.truncate op) then 1 else 0)"
    using node [unfolded callsContract_def, rule_format, OF a(1)] shouldSponsor_call_read [OF L op] by simp
  with a(2) abiUint_bool have "shouldSponsor factory isGroup (PackedUserOp.truncate op)" by (metis zero_neq_one)
  then show ?thesis by (simp add: shouldSponsor_def PackedUserOp.truncate_def)
qed

section \<open>Access\<close>

lemma checkSponsorAccess_outcome:
  assumes L: "ethlib_ok L" and db: "sponsor_inv L db" and a: "length sender = 20"
    and r: "checkSponsorAccess L s e1 e2 sender sc db = (r, db')"
  shows "sponsor_inv L db' \<and>
    (db' = db \<or> gating s \<and> sender \<notin> whitelist (inviteView L db) \<and>
       (\<exists>c. sc = Some c \<and> inviteView L db (InviteCode c) = Some None \<and>
            inviteView L db' = (inviteView L db)(InviteCode c \<mapsto> Some sender))) \<and>
    (r = Ok () \<longrightarrow> gating s \<longrightarrow> sender \<in> whitelist (inviteView L db'))"
proof (cases "gating s \<and> \<not> CheckSender L e1 sender db \<and> (\<exists>c. sc = Some c \<and> InviteCode c \<noteq> [])")
  case False
  with r db show ?thesis
    using invite_gate.check_sound [OF sponsor_gate [OF L] db a]
    by (auto simp: checkSponsorAccess_def split: if_splits option.splits)
next
  case True
  then obtain c where c: "sc = Some c" "InviteCode c \<noteq> []" "gating s" "\<not> CheckSender L e1 sender db" by auto
  obtain q where q: "RedeemCode L e2 (InviteCode c) sender db = (q, db')" and ok: "r = Ok () \<longrightarrow> q = Ok ()"
    using r c by (auto simp: checkSponsorAccess_def split: prod.splits res.splits)
  show ?thesis
    using invite_gate.redeem_whitelists [OF sponsor_gate [OF L] db a, of e2 "InviteCode c"] q ok c
    by (cases rule: invite_gate.redeem_cases [OF sponsor_gate [OF L] db a, of e2 "InviteCode c"]) (auto simp: db)
qed

lemma GetPaymasterData_split:
  "GetPaymasterData L cc sh s e1 e2 unix op sc db = (r, db') \<Longrightarrow>
     \<exists>q. checkSponsorAccess L s e1 e2 (Sender op) sc db = (q, db') \<and>
        (r = Ok x \<longrightarrow> q = Ok () \<and> checkShouldSponsor L cc s op = Ok () \<and>
          (\<exists>sig. sh (toEthSignedMessageHash L
                     (getHash L s op (fst (validityWindow unix)) (snd (validityWindow unix)))) = Ok sig \<and>
            x = sponsorResult s (encodeValidityAndSig (fst (validityWindow unix)) (snd (validityWindow unix)) sig)))"
  by (auto simp: GetPaymasterData_def split: prod.splits res.splits)

lemma refused_sponsorship_consumes_code:
  assumes L: "ethlib_ok L" and db: "sponsor_inv L db" and a: "length (Sender op) = 20" and e: "quiet e2"
    and s: "gating s" "Sender op \<notin> whitelist (inviteView L db)"
    and c: "InviteCode c \<noteq> []" "inviteView L db (InviteCode c) = Some None"
    and refuse: "checkShouldSponsor L cc s op = Err er"
  shows "\<exists>db'. GetPaymasterData L cc sh s e1 e2 unix op (Some c) db = (Err er, db') \<and>
    inviteView L db' (InviteCode c) = Some (Some (Sender op))"
proof -
  have "\<not> CheckSender L e1 (Sender op) db"
    using invite_gate.check_sound [OF sponsor_gate [OF L] db a] s(2) by blast
  moreover have "RedeemCode L e2 (InviteCode c) (Sender op) db = (Ok (), redeemed L e2 (InviteCode c) (Sender op) db)"
    using RedeemCode_spec [OF L db a, of e2 "InviteCode c"] e s(2) c(2) by (simp add: redeemSpec_def)
  ultimately show ?thesis
    using s c refuse redeemed_view [OF L a c(2)] by (simp add: GetPaymasterData_def checkSponsorAccess_def)
qed

section \<open>Properties\<close>

text \<open>What the signing key promises: 65 bytes from which the key's address is recovered.\<close>

definition signsFor :: "(bytes \<Rightarrow> bytes res) \<Rightarrow> (bytes \<Rightarrow> bytes \<Rightarrow> address) \<Rightarrow> address \<Rightarrow> bool" where
  "signsFor signHash recover a \<longleftrightarrow> (\<forall>h sig. signHash h = Ok sig \<longrightarrow> length sig = 65 \<and> recover h sig = a)"

text \<open>The \<open>paymasterAndData\<close> of ERC-4337 v0.7: address, the two gas limits, data.\<close>

definition standardPacking :: "SponsorResult \<Rightarrow> bytes" where
  "standardPacking r =
     srPaymaster r @ PackUint128s (srVerificationGasLimit r) (srPostOpGasLimit r) @ srPaymasterData r"

lemma validityWindow_exact:
  assumes "60 \<le> unix" "unix + 600 < 2 ^ 48"
  shows "uint (fst (validityWindow unix)) = unix + 600" "uint (snd (validityWindow unix)) = unix - 60"
    "fst (validityWindow unix) < 2 ^ 48" "snd (validityWindow unix) < 2 ^ 48"
proof -
  have w: "fst (validityWindow unix) = word_of_int (unix + 600)" "snd (validityWindow unix) = word_of_int (unix - 60)"
    by (simp_all add: validityWindow_def DefaultValidityWindow_def Let_def wi_hom_add wi_hom_sub)
  then show u: "uint (fst (validityWindow unix)) = unix + 600" "uint (snd (validityWindow unix)) = unix - 60"
    unfolding w using assms by (intro uint64_of_int; simp)+
  then show "fst (validityWindow unix) < 2 ^ 48" "snd (validityWindow unix) < 2 ^ 48"
    using assms by (simp_all add: word_less_def)
qed

text \<open>
C7: a sponsorship the service grants is honoured by the contract: when the node's \<open>eth_call\<close> executes the
contract and the operation, whose fields have the widths of the ABI, carries the result in
the standard packing (and any signature of the account), the contract recovers its verifying signer
from the signature, allows the call target it has approved in \<open>shouldSponsor\<close>, and
validates the operation for the window from one minute ago to ten minutes ahead.
\<close>

theorem sponsorship_accepted_on_chain:
  assumes L: "ethlib_ok L" and op: "fits op" and pm: "length (paymasterAddress s) = 20"
    and node: "callsContract L callContract (paymasterAddress s) factory isGroup"
    and key: "signsFor signHash recover vs" and now: "60 \<le> unix" "unix + 600 < 2 ^ 48"
    and got: "GetPaymasterData L callContract signHash s e1 e2 unix op sc db = (Ok r, db')"
  shows "validatePaymasterUserOp L recover factory isGroup vs (paymasterAddress s) (uint (chainID s))
      (op\<lparr>PaymasterAndData := standardPacking r, Signature := sg\<rparr>) =
    Some (False, unix + 600, unix - 60)"
proof -
  let ?vu = "fst (validityWindow unix)" and ?va = "snd (validityWindow unix)"
  let ?op = "op\<lparr>PaymasterAndData := standardPacking r, Signature := sg\<rparr>"
  obtain sig where sig: "signHash (toEthSignedMessageHash L (getHash L s op ?vu ?va)) = Ok sig"
    and r: "r = sponsorResult s (encodeValidityAndSig ?vu ?va sig)" and ok: "checkShouldSponsor L callContract s op = Ok ()"
    using GetPaymasterData_split [OF got] by blast
  have pk: "standardPacking r = paymasterAddress s @ paymasterGasLimits @ encodeValidityAndSig ?vu ?va sig"
    by (simp add: r standardPacking_def sponsorResult_def paymasterGasLimits_def)
  then have "slice 20 52 (PaymasterAndData ?op) = paymasterGasLimits" using pm by (simp add: layout)
  moreover have "wf_op ?op" "uint256_op ?op" using op by (simp_all add: fits_def wf_op_def uint256_op_def)
  ultimately have "chainGetHash L (paymasterAddress s) (uint (chainID s)) ?op (uint ?vu) (uint ?va) = getHash L s ?op ?vu ?va"
    using getHash_on_chain [OF L _ _ pm] by metis
  also have "\<dots> = getHash L s op ?vu ?va" by (rule getHash_cong) simp_all
  finally show ?thesis
    using parse_standard [OF pm length_paymasterGasLimits validityWindow_exact(3,4) [OF now], of sig]
      key sig validityWindow_exact(1,2) [OF now] pk approved_target [OF L op node ok]
    by (simp add: validatePaymasterUserOp_def signsFor_def Let_def)
qed

definition markSign :: "bytes \<Rightarrow> bytes res" where
  "markSign h = Ok (replicate 65 7)"

definition sampleService :: Service where
  "sampleService = \<lparr>paymasterAddress = replicate 20 34, chainID = 1, gating = True\<rparr>"

definition yesNode :: "address \<Rightarrow> bytes \<Rightarrow> nodeError + bytes" where
  "yesNode a d = Inr (replicate 31 0 @ [1])"

lemma yesNode_approves: "checkShouldSponsor L yesNode s op = Ok ()"
  by (simp add: checkShouldSponsor_def yesNode_def nth_append)

lemma grant:
  assumes a: "length (Sender op) = 20" "Sender op = Sender sampleOp" and ok: "checkShouldSponsor hexLib node sampleService op = Ok ()"
  shows "GetPaymasterData hexLib node markSign sampleService calmEnv calmEnv 1700000000 op
     (Some \<lparr>InviteCode = ''deadbeef''\<rparr>) oneCode =
   (Ok (sponsorResult sampleService (encodeValidityAndSig (fst (validityWindow 1700000000))
      (snd (validityWindow 1700000000)) (replicate 65 7))), redeemed hexLib calmEnv ''deadbeef'' (Sender op) oneCode)"
proof -
  have "\<not> CheckSender hexLib calmEnv (Sender op) oneCode"
    using invite_gate.check_sound [OF sponsor_gate [OF hexLib_ok] oneCode_inv a(1)] by auto
  moreover have "RedeemCode hexLib calmEnv ''deadbeef'' (Sender op) oneCode =
      (Ok (), redeemed hexLib calmEnv ''deadbeef'' (Sender op) oneCode)"
    using RedeemCode_spec [OF hexLib_ok oneCode_inv a(1), of calmEnv "''deadbeef''"] by (simp add: redeemSpec_def)
  ultimately show ?thesis using ok
    by (simp add: GetPaymasterData_def checkSponsorAccess_def markSign_def sampleService_def case_prod_beta Let_def)
qed

lemma sampleGrant:
  "GetPaymasterData hexLib yesNode markSign sampleService calmEnv calmEnv 1700000000 sampleOp
     (Some \<lparr>InviteCode = ''deadbeef''\<rparr>) oneCode =
   (Ok (sponsorResult sampleService (encodeValidityAndSig (fst (validityWindow 1700000000))
      (snd (validityWindow 1700000000)) (replicate 65 7))), redeemed hexLib calmEnv ''deadbeef'' (Sender sampleOp) oneCode)"
  by (rule grant) (simp_all add: sampleOp_def yesNode_approves)

text \<open>A node that executes the contract, and an operation in which the account calls itself.\<close>

definition contractNode :: "address \<Rightarrow> bytes \<Rightarrow> nodeError + bytes" where
  "contractNode a call = Inr (abiUint
     (if shouldSponsor (replicate 20 8) (\<lambda>_. False) (opAt (drop 4 call) (nat (uintAt (drop 4 call) 0))) then 1 else 0))"

definition selfCallOp :: PackedUserOp where
  "selfCallOp = sampleOp\<lparr>CallData := [0xb6, 0x1d, 0x27, 0xf6] @ abiAddress (replicate 20 17)\<rparr>"

lemma selfCallOp_ok: "fits selfCallOp" "isAllowedTarget f g (Sender selfCallOp) (CallData selfCallOp)"
  "Sender selfCallOp = Sender sampleOp" "length (Sender selfCallOp) = 20"
proof -
  have "length (CallData selfCallOp) = 36" "slice 16 36 (CallData selfCallOp) = Sender selfCallOp"
    "slice 0 4 (CallData selfCallOp) = [0xb6, 0x1d, 0x27, 0xf6]"
    by (simp_all add: selfCallOp_def sampleOp_def abiAddress_def slice_def)
  then show "isAllowedTarget f g (Sender selfCallOp) (CallData selfCallOp)" by (simp add: isAllowedTarget_def)
  show "fits selfCallOp" using sampleOp_fits by (simp add: fits_def selfCallOp_def wf_op_def uint256_op_def)
  show "Sender selfCallOp = Sender sampleOp" "length (Sender selfCallOp) = 20" by (simp_all add: selfCallOp_def sampleOp_def)
qed

lemma contractNode_approves: "checkShouldSponsor hexLib contractNode s selfCallOp = Ok ()"
proof -
  have "shouldSponsor (replicate 20 8) (\<lambda>_. False) (PackedUserOp.truncate selfCallOp)"
    using selfCallOp_ok(2) by (simp add: shouldSponsor_def PackedUserOp.truncate_def)
  then show ?thesis
    using shouldSponsor_call_read [OF hexLib_ok selfCallOp_ok(1)] abiUint_bool by (simp add: checkShouldSponsor_def contractNode_def)
qed

theorem sponsorship_accepted_on_chain_witness:
  "\<exists>r db'. GetPaymasterData hexLib contractNode markSign sampleService calmEnv calmEnv 1700000000 selfCallOp
       (Some \<lparr>InviteCode = ''deadbeef''\<rparr>) oneCode = (Ok r, db') \<and>
     validatePaymasterUserOp hexLib (\<lambda>h sig. replicate 20 7) (replicate 20 8) (\<lambda>_. False) (replicate 20 7)
       (replicate 20 34) 1 (selfCallOp\<lparr>PaymasterAndData := standardPacking r, Signature := []\<rparr>) =
     Some (False, 1700000600, 1699999940)"
proof -
  have k: "signsFor markSign (\<lambda>h sig. replicate 20 7) (replicate 20 7)" by (simp add: signsFor_def markSign_def)
  have pm: "length (paymasterAddress sampleService) = 20" by (simp add: sampleService_def)
  have node: "callsContract hexLib contractNode (paymasterAddress sampleService) (replicate 20 8) (\<lambda>_. False)"
    by (auto simp: callsContract_def contractNode_def)
  note got = grant [OF selfCallOp_ok(4,3) contractNode_approves]
  show ?thesis
    using sponsorship_accepted_on_chain [OF hexLib_ok selfCallOp_ok(1) pm node k _ _ got, of "[]"] got
    by (simp add: sampleService_def)
qed

text \<open>
C38: the same sponsorship sent to this bundler through \<open>eth_sendUserOperation\<close> in the \<open>paymaster\<close> and
\<open>paymasterData\<close> fields is packed without the gas limits, and the contract reverts on it: it reads
the validity end where the gas limits should be and the signature as a time stamp.
\<close>

theorem rpc_sponsorship_reverts_on_chain:
  assumes L: "ethlib_ok L" and pm: "length (paymasterAddress s) = 20"
    and sig: "length sig = 65" "2 ^ 48 \<le> SetBytes (take 32 sig)"
    and r: "r = sponsorResult s (encodeValidityAndSig vu va sig)"
    and p: "FromRPC L (req\<lparr>rpc_Paymaster := AddressHex L (srPaymaster r),
              rpc_PaymasterData := BytesToHex (srPaymasterData r)\<rparr>) = Ok p"
  shows "slice 20 52 (PaymasterAndData p) = abiUint (uint vu) \<and>
    validatePaymasterUserOp L recover factory isGroup vs (paymasterAddress s) chain p = None"
proof -
  let ?req = "req\<lparr>rpc_Paymaster := AddressHex L (srPaymaster r), rpc_PaymasterData := BytesToHex (srPaymasterData r)\<rparr>"
  have "if rpc_Paymaster ?req = [] then PaymasterAndData p = []
     else \<exists>d. checkedHex (rpc_PaymasterData ?req) = Ok d \<and> PaymasterAndData p = HexToAddress L (rpc_Paymaster ?req) @ d"
    using p L by (rule FromRPC_OkE)
  then have pmd: "PaymasterAndData p = paymasterAddress s @ abiUint (uint vu) @ abiUint (uint va) @ take 32 sig @ drop 32 sig"
    using pm L by (simp add: r sponsorResult_def HexToAddress_Hex AddressHex_nonempty encodeValidityAndSig_abi)
  have "wordAt (PaymasterAndData p) 84 = take 32 sig"
    unfolding pmd using pm sig wordAt_append [of "paymasterAddress s @ abiUint (uint vu) @ abiUint (uint va)" 84 "take 32 sig" "drop 32 sig"]
    by simp
  then have "parsePaymasterAndData (PaymasterAndData p) = None" using sig by (simp add: parsePaymasterAndData_def uintAt_def)
  moreover have "slice 20 52 (PaymasterAndData p) = abiUint (uint vu)" unfolding pmd using pm by (simp add: layout)
  ultimately show ?thesis by (simp add: validatePaymasterUserOp_def)
qed

theorem rpc_sponsorship_reverts_on_chain_witness:
  "\<exists>p. FromRPC hexLib (plainRequest\<lparr>rpc_Paymaster := AddressHex hexLib (replicate 20 34),
       rpc_PaymasterData := BytesToHex (encodeValidityAndSig 5 5 (replicate 65 7))\<rparr>) = Ok p \<and>
     validatePaymasterUserOp hexLib (\<lambda>h sig. replicate 20 7) (replicate 20 8) (\<lambda>_. True) (replicate 20 7)
       (replicate 20 34) 1 p = None"
proof -
  let ?req = "plainRequest\<lparr>rpc_Paymaster := AddressHex hexLib (replicate 20 34),
       rpc_PaymasterData := BytesToHex (encodeValidityAndSig 5 5 (replicate 65 7))\<rparr>"
  note nonempty = AddressHex_nonempty [OF hexLib_ok]
  have "checkedHex ''0x'' = Ok []" by (simp add: checkedHex_def DecodeHex_def)
  with nonempty obtain p where p: "FromRPC hexLib ?req = Ok p"
    by (simp add: FromRPC_def plainRequest_def HexToBigInt_digits Let_def)
  have "(2::int) ^ 48 \<le> SetBytes (replicate 32 7)" by code_simp
  then show ?thesis
    using rpc_sponsorship_reverts_on_chain [OF hexLib_ok, of sampleService "replicate 65 7" _ 5 5 plainRequest p] p
    by (simp add: sampleService_def sponsorResult_def take_replicate nonempty)
qed

text \<open>
C18: the service signs only for a sender that may be sponsored: with gating, the sender is whitelisted
afterwards, and the paymaster contract has approved a call that decodes to exactly this operation. Whatever the
outcome, the tables keep their invariant and change at most by the free invite code of the request
passing to the sender.
\<close>

theorem sponsorship_is_authorised:
  assumes L: "ethlib_ok L" and db: "sponsor_inv L db" and op: "fits op"
    and got: "GetPaymasterData L callContract signHash s e1 e2 unix op sc db = (r, db')"
  shows "sponsor_inv L db' \<and>
    (db' = db \<or> gating s \<and> Sender op \<notin> whitelist (inviteView L db) \<and>
       (\<exists>c. sc = Some c \<and> inviteView L db (InviteCode c) = Some None \<and>
            inviteView L db' = (inviteView L db)(InviteCode c \<mapsto> Some (Sender op)))) \<and>
    (is_ok r \<longrightarrow> (gating s \<longrightarrow> Sender op \<in> whitelist (inviteView L db')) \<and>
       (\<exists>call answer. callContract (paymasterAddress s) call = Inr answer \<and> 32 \<le> length answer \<and> answer ! 31 = 1 \<and>
          take 4 call = shouldSponsorSelector L \<and>
          opAt (drop 4 call) (nat (uintAt (drop 4 call) 0)) = PackedUserOp.truncate op))"
proof -
  have a: "length (Sender op) = 20" using op by (simp add: fits_def wf_op_def)
  obtain q where q: "checkSponsorAccess L s e1 e2 (Sender op) sc db = (q, db')"
    using GetPaymasterData_split [OF got] by blast
  have ok: "q = Ok () \<and> checkShouldSponsor L callContract s op = Ok ()" if "is_ok r"
    using that q GetPaymasterData_split [OF got] by (auto simp: is_ok_iff)
  then have "\<exists>answer. callContract (paymasterAddress s) (encodeShouldSponsorCall L op) = Inr answer \<and>
      32 \<le> length answer \<and> answer ! 31 = 1" if "is_ok r"
    using that by (fastforce simp: checkShouldSponsor_def split: sum.splits if_splits)
  then show ?thesis
    using checkSponsorAccess_outcome [OF L db a q] ok shouldSponsor_call_read [OF L op] by blast
qed

theorem sponsorship_is_authorised_witness:
  "\<exists>r db'. GetPaymasterData hexLib yesNode markSign sampleService calmEnv calmEnv 1700000000 sampleOp
       (Some \<lparr>InviteCode = ''deadbeef''\<rparr>) oneCode = (Ok r, db') \<and>
     Sender sampleOp \<in> whitelist (inviteView hexLib db') \<and> sponsor_inv hexLib db'"
proof -
  have "gating sampleService" by (simp add: sampleService_def)
  with sponsorship_is_authorised [OF hexLib_ok oneCode_inv sampleOp_fits sampleGrant] show ?thesis
    by (simp add: sampleGrant)
qed

end
