(* ===== verification/Rpc.thy ===== *)
theory Rpc
  imports Json Config Validator Estimator Paymaster
begin

text \<open>
  \<open>internal/rpc\<close> (\<open>types.go\<close>, \<open>auth.go\<close>, \<open>methods.go\<close>, \<open>server.go\<close>) and the HTTP handler built in
  \<open>cmd/bundler/main.go\<close>. The repository is the interface of \<open>Repository\<close>; the node and the key are the
  parameters of the components. The state of the server is the mempool and the sponsor tables. The
  text of a request is turned into a syntax tree by the parameter \<open>parseJson\<close>; the response is the
  record that the encoder writes, whose \<open>omitempty\<close> members are options. A result map is the list of its
  members.
\<close>

section \<open>Messages\<close>

record RpcError =
  rpcCode :: int
  rpcMessage :: error

definition ErrInvalidRequest :: "error \<Rightarrow> RpcError" where
  "ErrInvalidRequest m = \<lparr>rpcCode = - 32600, rpcMessage = m\<rparr>"

definition ErrMethodNotFound :: "error \<Rightarrow> RpcError" where
  "ErrMethodNotFound m = \<lparr>rpcCode = - 32601, rpcMessage = m\<rparr>"

definition ErrInvalidParams :: "error \<Rightarrow> RpcError" where
  "ErrInvalidParams m = \<lparr>rpcCode = - 32602, rpcMessage = m\<rparr>"

definition ErrOpRejected :: "error \<Rightarrow> RpcError" where
  "ErrOpRejected m = \<lparr>rpcCode = - 32521, rpcMessage = m\<rparr>"

record jsonrpcRequest =
  jrVersion :: string
  jrId :: "json option"
  jrMethod :: string
  jrParams :: "json list"

record jsonrpcResponse =
  respId :: "json option"
  respResult :: "json option"
  respError :: "RpcError option"

text \<open>What a method returns: a result (\<open>nil\<close> is \<open>None\<close>), an error, or a panic that leaves the handler.\<close>

datatype reply = Result "json option" | RpcErr RpcError | Panicked string

definition replyOf :: "(error \<Rightarrow> RpcError) \<Rightarrow> ('a \<Rightarrow> reply) \<Rightarrow> 'a res \<Rightarrow> reply" where
  "replyOf fail ok r = (case r of Ok x \<Rightarrow> ok x | Err er \<Rightarrow> RpcErr (fail er) | Panic m \<Rightarrow> Panicked m)"

record MethodsConfig =
  mcEntryPoints :: "address list"
  mcChainID :: uint64

record ('e, 'db) Methods =
  mCfg :: MethodsConfig
  mValidator :: Validator
  mRepo :: "('e, 'db) Repository"
  mEstimateGas :: "CallMsg \<Rightarrow> uint64 res"
  mPaymaster :: Service
  mCallContract :: "address \<Rightarrow> bytes \<Rightarrow> nodeError + bytes"
  mSignHash :: "bytes \<Rightarrow> bytes res"

text \<open>The estimator and the paymaster hold their connection to the node, the paymaster also the signing key.\<close>

definition NewMethods ::
    "MethodsConfig \<Rightarrow> Validator \<Rightarrow> ('e, 'db) Repository \<Rightarrow> (CallMsg \<Rightarrow> uint64 res) \<Rightarrow> Service \<Rightarrow>
     (address \<Rightarrow> bytes \<Rightarrow> nodeError + bytes) \<Rightarrow> (bytes \<Rightarrow> bytes res) \<Rightarrow> ('e, 'db) Methods" where
  "NewMethods cfg v repo est pm pmCall pmSign =
     \<lparr>mCfg = cfg, mValidator = v, mRepo = repo, mEstimateGas = est, mPaymaster = pm,
      mCallContract = pmCall, mSignHash = pmSign\<rparr>"

section \<open>Methods\<close>

definition isAllowedEntryPoint :: "MethodsConfig \<Rightarrow> address \<Rightarrow> bool" where
  "isAllowedEntryPoint cfg addr = allowedIn addr (mcEntryPoints cfg)"

definition handleSendUserOperation ::
    "ethlib \<Rightarrow> ('e, 'db) Methods \<Rightarrow> 'e \<Rightarrow> json list \<Rightarrow> 'db \<Rightarrow> reply \<times> 'db" where
  "handleSendUserOperation L m e params db =
     (if length params < 2 then (RpcErr (ErrInvalidParams (ErrText ''expected [userOp, entryPoint]'')), db)
      else
     (case unmarshalUserOp (params ! 0) of
        Err er \<Rightarrow> (RpcErr (ErrInvalidParams (ErrWrap ''invalid userOp'' er)), db)
      | Panic p \<Rightarrow> (Panicked p, db)
      | Ok op \<Rightarrow>
     (case unmarshalString (params ! 1) of
        Err er \<Rightarrow> (RpcErr (ErrInvalidParams (ErrWrap ''invalid entryPoint'' er)), db)
      | Panic p \<Rightarrow> (Panicked p, db)
      | Ok entryPointHex \<Rightarrow>
      let ep = HexToAddress L entryPointHex in
      if \<not> isAllowedEntryPoint (mCfg m) ep then (RpcErr (ErrOpRejected (ErrText ''unsupported entry point'')), db)
      else
     (case FromRPC L op of
        Err er \<Rightarrow> (RpcErr (ErrInvalidParams er), db)
      | Panic p \<Rightarrow> (Panicked p, db)
      | Ok packed \<Rightarrow>
      if length (Signature packed) \<noteq> 65 then (RpcErr (ErrOpRejected (ErrText ''signature must be 65 bytes'')), db)
      else
     (case Validate L (mValidator m) packed of
        Err er \<Rightarrow> (RpcErr (ErrOpRejected er), db)
      | Panic p \<Rightarrow> (Panicked p, db)
      | Ok _ \<Rightarrow>
      let h = ComputeUserOpHash L packed ep (mcChainID (mCfg m)) in
     (case rInsert (mRepo m) e packed h db of
        (Err er, db) \<Rightarrow> (RpcErr (ErrOpRejected er), db)
      | (Panic p, db) \<Rightarrow> (Panicked p, db)
      | (Ok _, db) \<Rightarrow> (Result (Some (JStr (HashHex L h))), db)))))))"

definition handleEstimateUserOperationGas :: "ethlib \<Rightarrow> ('e, 'db) Methods \<Rightarrow> json list \<Rightarrow> reply" where
  "handleEstimateUserOperationGas L m params =
     (if length params < 2 then RpcErr (ErrInvalidParams (ErrText ''expected [userOp, entryPoint]''))
      else
        replyOf (\<lambda>er. ErrInvalidParams (ErrWrap ''invalid userOp'' er)) (\<lambda>op.
        replyOf (\<lambda>er. ErrInvalidParams (ErrWrap ''invalid entryPoint'' er)) (\<lambda>entryPointHex.
        let ep = HexToAddress L entryPointHex in
        if \<not> isAllowedEntryPoint (mCfg m) ep then RpcErr (ErrOpRejected (ErrText ''unsupported entry point''))
        else
        replyOf ErrInvalidParams (\<lambda>packed.
        replyOf (\<lambda>er. ErrInvalidParams (ErrWrap ''gas estimation failed'' er)) (\<lambda>est.
          Result (Some (JObj
            [(''preVerificationGas'', JStr (BigToHex (Some (estPreVerificationGas est)))),
             (''verificationGasLimit'', JStr (BigToHex (Some (estVerificationGasLimit est)))),
             (''callGasLimit'', JStr (BigToHex (Some (estCallGasLimit est))))])))
          (Estimate L (mEstimateGas m) packed))
          (FromRPC L op))
          (unmarshalString (params ! 1)))
          (unmarshalUserOp (params ! 0)))"

definition storedOpToRPC :: "ethlib \<Rightarrow> StoredOp \<Rightarrow> json" where
  "storedOpToRPC L op =
     (let verifGas = SetBytes (slice 0 16 (AccountGasLimits op));
          callGas = SetBytes (slice 16 32 (AccountGasLimits op));
          maxPrio = SetBytes (slice 0 16 (GasFees op));
          maxFee = SetBytes (slice 16 32 (GasFees op));
          result =
           [(''sender'', JStr (AddressHex L (Sender op))),
            (''nonce'', JStr (BigToHex (Some (Nonce op)))),
            (''callData'', JStr (BytesToHex (CallData op))),
            (''callGasLimit'', JStr (BigToHex (Some callGas))),
            (''verificationGasLimit'', JStr (BigToHex (Some verifGas))),
            (''preVerificationGas'', JStr (BigToHex (Some (PreVerificationGas op)))),
            (''maxFeePerGas'', JStr (BigToHex (Some maxFee))),
            (''maxPriorityFeePerGas'', JStr (BigToHex (Some maxPrio))),
            (''signature'', JStr (BytesToHex (Signature op)))];
          result = result @ (if length (InitCode op) \<ge> 20 then
            [(''factory'', JStr (AddressHex L (BytesToAddress L (slice 0 20 (InitCode op))))),
             (''factoryData'', JStr (BytesToHex (drop 20 (InitCode op))))] else []);
          result = result @ (if length (PaymasterAndData op) \<ge> 20 then
            [(''paymaster'', JStr (AddressHex L (BytesToAddress L (slice 0 20 (PaymasterAndData op))))),
             (''paymasterData'', JStr (BytesToHex (drop 20 (PaymasterAndData op))))] else []);
          result = result @ (case BundleTxHash op of None \<Rightarrow> []
            | Some tx \<Rightarrow> [(''transactionHash'', JStr (HashHex L tx))]);
          result = result @ (case BlockNumber op of None \<Rightarrow> []
            | Some n \<Rightarrow> [(''blockNumber'', JStr (BigToHex (Some (uint n))))])
      in JObj result)"

definition handleGetUserOperationByHash ::
    "ethlib \<Rightarrow> ('e, 'db) Methods \<Rightarrow> 'e \<Rightarrow> json list \<Rightarrow> 'db \<Rightarrow> reply" where
  "handleGetUserOperationByHash L m e params db =
     (if length params < 1 then RpcErr (ErrInvalidParams (ErrText ''expected [hash]''))
      else
        replyOf (\<lambda>er. ErrInvalidParams (ErrWrap ''invalid hash'' er)) (\<lambda>hashHex.
        (case rGetByHash (mRepo m) e (HexToHash L hashHex) db of
           Err er \<Rightarrow> Result None
         | Panic p \<Rightarrow> Panicked p
         | Ok op \<Rightarrow> Result (Some (storedOpToRPC L op))))
        (unmarshalString (params ! 0)))"

definition receiptToRPC :: "ethlib \<Rightarrow> StoredOp \<Rightarrow> json" where
  "receiptToRPC L op =
     (let receipt =
           [(''userOpHash'', JStr (HashHex L (Hash op))),
            (''sender'', JStr (AddressHex L (Sender op))),
            (''nonce'', JStr (BigToHex (Some (Nonce op)))),
            (''success'', JBool (OpStatus op = StatusConfirmed))];
          receipt = receipt @ (case ActualGasCost op of None \<Rightarrow> []
            | Some c \<Rightarrow> [(''actualGasCost'', JStr (BigToHex (Some c)))]);
          receipt = receipt @ (case BundleTxHash op of None \<Rightarrow> []
            | Some tx \<Rightarrow> [(''transactionHash'', JStr (HashHex L tx))]);
          receipt = receipt @ (case BlockNumber op of None \<Rightarrow> []
            | Some n \<Rightarrow> [(''blockNumber'', JStr (BigToHex (Some (uint n))))]);
          receipt = receipt @ (case RevertReason op of None \<Rightarrow> []
            | Some r \<Rightarrow> [(''revertReason'', JStr r)])
      in JObj receipt)"

definition handleGetUserOperationReceipt ::
    "ethlib \<Rightarrow> ('e, 'db) Methods \<Rightarrow> 'e \<Rightarrow> json list \<Rightarrow> 'db \<Rightarrow> reply" where
  "handleGetUserOperationReceipt L m e params db =
     (if length params < 1 then RpcErr (ErrInvalidParams (ErrText ''expected [hash]''))
      else
        replyOf (\<lambda>er. ErrInvalidParams (ErrWrap ''invalid hash'' er)) (\<lambda>hashHex.
        (case rGetConfirmedByHash (mRepo m) e (HexToHash L hashHex) db of
           Err er \<Rightarrow> Result None
         | Panic p \<Rightarrow> Panicked p
         | Ok op \<Rightarrow> Result (Some (receiptToRPC L op))))
        (unmarshalString (params ! 0)))"

definition handleSupportedEntryPoints :: "ethlib \<Rightarrow> MethodsConfig \<Rightarrow> reply" where
  "handleSupportedEntryPoints L cfg = Result (Some (JArr (map (\<lambda>ep. JStr (AddressHex L ep)) (mcEntryPoints cfg))))"

definition handleChainId :: "MethodsConfig \<Rightarrow> reply" where
  "handleChainId cfg = Result (Some (JStr (BigToHex (Some (uint (mcChainID cfg))))))"

definition parsePaymasterRequest :: "ethlib \<Rightarrow> ('e, 'db) Methods \<Rightarrow> json list \<Rightarrow> reply + PackedUserOp" where
  "parsePaymasterRequest L m params =
     (if length params < 2 then Inl (RpcErr (ErrInvalidParams (ErrText ''expected [userOp, entryPoint, chainId, context]'')))
      else
     (case unmarshalUserOp (params ! 0) of
        Err er \<Rightarrow> Inl (RpcErr (ErrInvalidParams (ErrWrap ''invalid userOp'' er)))
      | Panic p \<Rightarrow> Inl (Panicked p)
      | Ok op \<Rightarrow>
     (case unmarshalString (params ! 1) of
        Err er \<Rightarrow> Inl (RpcErr (ErrInvalidParams (ErrWrap ''invalid entryPoint'' er)))
      | Panic p \<Rightarrow> Inl (Panicked p)
      | Ok entryPointHex \<Rightarrow>
      let ep = HexToAddress L entryPointHex in
      if \<not> isAllowedEntryPoint (mCfg m) ep then Inl (RpcErr (ErrOpRejected (ErrText ''unsupported entry point'')))
      else
     (case FromRPC L op of
        Err er \<Rightarrow> Inl (RpcErr (ErrInvalidParams er))
      | Panic p \<Rightarrow> Inl (Panicked p)
      | Ok packed \<Rightarrow> Inr packed))))"

definition sponsorResultToRPC :: "ethlib \<Rightarrow> SponsorResult \<Rightarrow> json" where
  "sponsorResultToRPC L r = JObj
     [(''paymaster'', JStr (AddressHex L (srPaymaster r))),
      (''paymasterData'', JStr (BytesToHex (srPaymasterData r))),
      (''paymasterVerificationGasLimit'', JStr (BigToHex (Some (uint (srVerificationGasLimit r))))),
      (''paymasterPostOpGasLimit'', JStr (BigToHex (Some (uint (srPostOpGasLimit r)))))]"

definition handleGetPaymasterStubData :: "ethlib \<Rightarrow> ('e, 'db) Methods \<Rightarrow> int \<Rightarrow> json list \<Rightarrow> reply" where
  "handleGetPaymasterStubData L m unix params =
     (case parsePaymasterRequest L m params of
        Inl r \<Rightarrow> r
      | Inr op \<Rightarrow> Result (Some (sponsorResultToRPC L (GetStubData (mPaymaster m) unix))))"

text \<open>The context parameter is decoded at best effort: what could be decoded is used, errors are dropped.\<close>

definition sponsorContextFields :: "SponsorContext field list" where
  "sponsorContextFields = [stringField ''invite_code'' (\<lambda>s c. c\<lparr>InviteCode := s\<rparr>)]"

definition unmarshalSponsorContext :: "json list \<Rightarrow> SponsorContext" where
  "unmarshalSponsorContext params =
     (if length params \<ge> 4
      then fst (unmarshalStruct ''SponsorContext'' sponsorContextFields \<lparr>InviteCode = []\<rparr> (params ! 3))
      else \<lparr>InviteCode = []\<rparr>)"

definition handleGetPaymasterData ::
    "ethlib \<Rightarrow> ('e, 'db) Methods \<Rightarrow> dbenv \<Rightarrow> dbenv \<Rightarrow> int \<Rightarrow> json list \<Rightarrow> sponsorDb \<Rightarrow> reply \<times> sponsorDb" where
  "handleGetPaymasterData L m e1 e2 unix params sdb =
     (case parsePaymasterRequest L m params of
        Inl r \<Rightarrow> (r, sdb)
      | Inr op \<Rightarrow>
         let sc = unmarshalSponsorContext params;
             (r, sdb) = GetPaymasterData L (mCallContract m) (mSignHash m) (mPaymaster m) e1 e2 unix op (Some sc) sdb
         in (replyOf ErrOpRejected (\<lambda>r. Result (Some (sponsorResultToRPC L r))) r, sdb))"

section \<open>The server\<close>

text \<open>
  What the environment contributes to one request: the repository call, the two calls of the sponsor
  store and the time.
\<close>

record 'e reqenv =
  envRepo :: 'e
  envCheck :: dbenv
  envRedeem :: dbenv
  envUnix :: int

definition dispatch ::
    "ethlib \<Rightarrow> ('e, 'db) Methods \<Rightarrow> 'e reqenv \<Rightarrow> jsonrpcRequest \<Rightarrow> 'db \<times> sponsorDb \<Rightarrow> reply \<times> 'db \<times> sponsorDb" where
  "dispatch L m e req st =
     (let (db, sdb) = st; params = jrParams req; meth = jrMethod req in
      if meth = ''eth_sendUserOperation'' then
        (let (r, db) = handleSendUserOperation L m (envRepo e) params db in (r, db, sdb))
      else if meth = ''eth_estimateUserOperationGas'' then (handleEstimateUserOperationGas L m params, db, sdb)
      else if meth = ''eth_getUserOperationByHash'' then
        (handleGetUserOperationByHash L m (envRepo e) params db, db, sdb)
      else if meth = ''eth_getUserOperationReceipt'' then
        (handleGetUserOperationReceipt L m (envRepo e) params db, db, sdb)
      else if meth = ''eth_supportedEntryPoints'' then (handleSupportedEntryPoints L (mCfg m), db, sdb)
      else if meth = ''eth_chainId'' then (handleChainId (mCfg m), db, sdb)
      else if meth = ''pm_getPaymasterStubData'' then (handleGetPaymasterStubData L m (envUnix e) params, db, sdb)
      else if meth = ''pm_getPaymasterData'' then
        (let (r, sdb) = handleGetPaymasterData L m (envCheck e) (envRedeem e) (envUnix e) params sdb in (r, db, sdb))
      else (RpcErr (ErrMethodNotFound (ErrWrap ''method not found'' (ErrText meth))), db, sdb))"

record HttpRequest =
  reqMethod :: string
  reqPath :: string
  reqApiKey :: string
  reqBody :: "string + bytes"

text \<open>The bodies of responses; \<open>ErrorBody\<close> is the object with the text of an error as its member \<open>error\<close>.\<close>

datatype httpBody = RpcBody jsonrpcResponse | TextBody string | JsonBody json | ErrorBody error

record HttpResponse =
  httpStatus :: nat
  httpType :: string
  httpBody :: httpBody

datatype handled = Responded HttpResponse | HandlerPanic string

definition jsonType :: string where
  "jsonType = ''application/json''"

definition writeResult :: "json option \<Rightarrow> json option \<Rightarrow> HttpResponse" where
  "writeResult rid result =
     \<lparr>httpStatus = 200, httpType = jsonType,
      httpBody = RpcBody \<lparr>respId = rid, respResult = result, respError = None\<rparr>\<rparr>"

definition writeError :: "json option \<Rightarrow> RpcError \<Rightarrow> HttpResponse" where
  "writeError rid er =
     \<lparr>httpStatus = 200, httpType = jsonType,
      httpBody = RpcBody \<lparr>respId = rid, respResult = None, respError = Some er\<rparr>\<rparr>"

text \<open>Decoding the envelope: \<open>id\<close> takes any value, \<open>params\<close> an array or \<open>null\<close>.\<close>

fun storeParams :: "json \<Rightarrow> jsonrpcRequest \<Rightarrow> jsonrpcRequest option" where
  "storeParams (JArr xs) r = Some (r\<lparr>jrParams := xs\<rparr>)"
| "storeParams JNull r = Some (r\<lparr>jrParams := []\<rparr>)"
| "storeParams _ r = None"

definition requestFields :: "jsonrpcRequest field list" where
  "requestFields =
     [stringField ''jsonrpc'' (\<lambda>s r. r\<lparr>jrVersion := s\<rparr>),
      \<lparr>fName = ''id'', fType = ''json.RawMessage'', fStore = (\<lambda>v r. Some (r\<lparr>jrId := Some v\<rparr>))\<rparr>,
      stringField ''method'' (\<lambda>s r. r\<lparr>jrMethod := s\<rparr>),
      \<lparr>fName = ''params'', fType = ''[]json.RawMessage'', fStore = storeParams\<rparr>]"

definition unmarshalRequest :: "(bytes \<Rightarrow> string + json) \<Rightarrow> bytes \<Rightarrow> jsonrpcRequest res" where
  "unmarshalRequest parseJson body =
     (case parseJson body of
        Inl er \<Rightarrow> Err (ErrExt er)
      | Inr v \<Rightarrow>
         (case unmarshalStruct ''jsonrpcRequest'' requestFields
                 \<lparr>jrVersion = [], jrId = None, jrMethod = [], jrParams = []\<rparr> v of
            (req, None) \<Rightarrow> Ok req | (req, Some er) \<Rightarrow> Err er))"

definition handleRequest ::
    "ethlib \<Rightarrow> (bytes \<Rightarrow> string + json) \<Rightarrow> ('e, 'db) Methods \<Rightarrow> 'e reqenv \<Rightarrow> HttpRequest \<Rightarrow> 'db \<times> sponsorDb \<Rightarrow>
     handled \<times> 'db \<times> sponsorDb" where
  "handleRequest L parseJson m e r st =
     (if reqMethod r \<noteq> ''POST'' then (Responded (writeError None (ErrInvalidRequest (ErrText ''method must be POST''))), st)
      else
     (case reqBody r of
        Inl _ \<Rightarrow> (Responded (writeError None (ErrInvalidRequest (ErrText ''failed to read body''))), st)
      | Inr body \<Rightarrow>
     (case unmarshalRequest parseJson body of
        Err er \<Rightarrow> (Responded (writeError None (ErrInvalidRequest (ErrWrap ''invalid JSON'' er))), st)
      | Panic p \<Rightarrow> (HandlerPanic p, st)
      | Ok req \<Rightarrow>
      if jrVersion req \<noteq> ''2.0'' then
        (Responded (writeError (jrId req) (ErrInvalidRequest (ErrText ''jsonrpc must be \"2.0\"''))), st)
      else
     (case dispatch L m e req st of
        (RpcErr er, st) \<Rightarrow> (Responded (writeError (jrId req) er), st)
      | (Result result, st) \<Rightarrow> (Responded (writeResult (jrId req) result), st)
      | (Panicked p, st) \<Rightarrow> (HandlerPanic p, st)))))"

definition ErrCodeUnauthorized :: int where
  "ErrCodeUnauthorized = - 32001"

text \<open>\<open>subtle.ConstantTimeCompare\<close> is equality of the byte slices.\<close>

definition RequireAPIKey ::
    "string \<Rightarrow> (HttpRequest \<Rightarrow> 'st \<Rightarrow> handled \<times> 'st) \<Rightarrow> HttpRequest \<Rightarrow> 'st \<Rightarrow> handled \<times> 'st" where
  "RequireAPIKey apiKey next r st =
     (if apiKey = [] then next r st
      else if reqApiKey r \<noteq> apiKey then
        (Responded ((writeError None \<lparr>rpcCode = ErrCodeUnauthorized, rpcMessage = ErrText ''invalid or missing API key''\<rparr>)
           \<lparr>httpStatus := 401\<rparr>), st)
      else next r st)"

text \<open>The handler of \<open>run\<close> in \<open>cmd/bundler/main.go\<close>; the prover, when it runs, answers its own path.\<close>

definition httpHandler ::
    "(HttpRequest \<Rightarrow> handled) option \<Rightarrow> (HttpRequest \<Rightarrow> 'st \<Rightarrow> handled \<times> 'st) \<Rightarrow> HttpRequest \<Rightarrow> 'st \<Rightarrow> handled \<times> 'st" where
  "httpHandler proverHandler rpcHandler r st =
     (if reqPath r = ''/healthz'' then
        (Responded \<lparr>httpStatus = 200, httpType = jsonType, httpBody = TextBody ''{\"ok\":true}''\<rparr>, st)
      else if reqPath r = ''/v1/prove'' \<and> proverHandler \<noteq> None then (the proverHandler r, st)
      else rpcHandler r st)"

definition recoverMiddleware :: "(HttpRequest \<Rightarrow> 'st \<Rightarrow> handled \<times> 'st) \<Rightarrow> HttpRequest \<Rightarrow> 'st \<Rightarrow> HttpResponse \<times> 'st" where
  "recoverMiddleware next r st =
     (case next r st of
        (Responded resp, st) \<Rightarrow> (resp, st)
      | (HandlerPanic p, st) \<Rightarrow>
         (\<lparr>httpStatus = 500, httpType = ''text/plain; charset=utf-8'',
           httpBody = TextBody (''{\"error\":\"internal server error\"}'' @ [CHR 0x0A])\<rparr>, st))"

definition serve ::
    "ethlib \<Rightarrow> (bytes \<Rightarrow> string + json) \<Rightarrow> string \<Rightarrow> (HttpRequest \<Rightarrow> handled) option \<Rightarrow> ('e, 'db) Methods \<Rightarrow> 'e reqenv \<Rightarrow>
     HttpRequest \<Rightarrow> 'db \<times> sponsorDb \<Rightarrow> HttpResponse \<times> 'db \<times> sponsorDb" where
  "serve L parseJson apiKey proverHandler m e =
     recoverMiddleware (httpHandler proverHandler (RequireAPIKey apiKey (handleRequest L parseJson m e)))"

end
