(* ===== verification/RpcProps.thy ===== *)
theory RpcProps
  imports Rpc MempoolProps
begin

text \<open>
  Properties of the server: what is accepted, what is answered, and who may ask.
\<close>

section \<open>Reading back an operation\<close>

lemma into128_SetBytes: "length x = 16 \<Longrightarrow> into128 (Some (SetBytes x)) (replicate 16 0) = x"
proof -
  assume "length x = 16"
  moreover from this have "SetBytes x < 2 ^ 128" using SetBytes_less [of x] by simp
  ultimately have "SetBytes (into128 (Some (SetBytes x)) (replicate 16 0)) = SetBytes x"
    by (simp add: SetBytes_into128)
  with \<open>length x = 16\<close> show ?thesis by (simp add: SetBytes_inject)
qed

lemma PackBigInts_SetBytes:
  "length b = 32 \<Longrightarrow> PackBigInts (Some (SetBytes (slice 0 16 b))) (Some (SetBytes (slice 16 32 b))) = b"
proof -
  assume "length b = 32"
  moreover have "slice 0 16 b @ drop 16 b = b" by (simp add: slice_def)
  ultimately show ?thesis by (simp add: PackBigInts_halves into128_SetBytes) (simp add: slice_def)
qed

lemma folded [simp]:
  "foldName ''sender'' = ''SENDER''" "foldName ''nonce'' = ''NONCE''" "foldName ''factory'' = ''FACTORY''"
  "foldName ''factoryData'' = ''FACTORYDATA''" "foldName ''callData'' = ''CALLDATA''"
  "foldName ''callGasLimit'' = ''CALLGASLIMIT''" "foldName ''verificationGasLimit'' = ''VERIFICATIONGASLIMIT''"
  "foldName ''preVerificationGas'' = ''PREVERIFICATIONGAS''" "foldName ''maxFeePerGas'' = ''MAXFEEPERGAS''"
  "foldName ''maxPriorityFeePerGas'' = ''MAXPRIORITYFEEPERGAS''" "foldName ''paymaster'' = ''PAYMASTER''"
  "foldName ''paymasterData'' = ''PAYMASTERDATA''" "foldName ''signature'' = ''SIGNATURE''"
  "foldName ''transactionHash'' = ''TRANSACTIONHASH''" "foldName ''blockNumber'' = ''BLOCKNUMBER''"
  by code_simp+

lemma field_simps [simp]: "fName (stringField n p) = n" "fStore (stringField n p) = storeString p"
  by (simp_all add: stringField_def)

lemma userOp_field:
  "findField userOpFields ''sender'' = Some (stringField ''sender'' (\<lambda>s u. u\<lparr>rpc_Sender := s\<rparr>))"
  "findField userOpFields ''nonce'' = Some (stringField ''nonce'' (\<lambda>s u. u\<lparr>rpc_Nonce := s\<rparr>))"
  "findField userOpFields ''factory'' = Some (stringField ''factory'' (\<lambda>s u. u\<lparr>rpc_Factory := s\<rparr>))"
  "findField userOpFields ''factoryData'' = Some (stringField ''factoryData'' (\<lambda>s u. u\<lparr>rpc_FactoryData := s\<rparr>))"
  "findField userOpFields ''callData'' = Some (stringField ''callData'' (\<lambda>s u. u\<lparr>rpc_CallData := s\<rparr>))"
  "findField userOpFields ''callGasLimit'' = Some (stringField ''callGasLimit'' (\<lambda>s u. u\<lparr>rpc_CallGasLimit := s\<rparr>))"
  "findField userOpFields ''verificationGasLimit'' =
     Some (stringField ''verificationGasLimit'' (\<lambda>s u. u\<lparr>rpc_VerificationGasLimit := s\<rparr>))"
  "findField userOpFields ''preVerificationGas'' =
     Some (stringField ''preVerificationGas'' (\<lambda>s u. u\<lparr>rpc_PreVerificationGas := s\<rparr>))"
  "findField userOpFields ''maxFeePerGas'' = Some (stringField ''maxFeePerGas'' (\<lambda>s u. u\<lparr>rpc_MaxFeePerGas := s\<rparr>))"
  "findField userOpFields ''maxPriorityFeePerGas'' =
     Some (stringField ''maxPriorityFeePerGas'' (\<lambda>s u. u\<lparr>rpc_MaxPriorityFeePerGas := s\<rparr>))"
  "findField userOpFields ''paymaster'' = Some (stringField ''paymaster'' (\<lambda>s u. u\<lparr>rpc_Paymaster := s\<rparr>))"
  "findField userOpFields ''paymasterData'' = Some (stringField ''paymasterData'' (\<lambda>s u. u\<lparr>rpc_PaymasterData := s\<rparr>))"
  "findField userOpFields ''signature'' = Some (stringField ''signature'' (\<lambda>s u. u\<lparr>rpc_Signature := s\<rparr>))"
  "findField userOpFields ''transactionHash'' = None"
  "findField userOpFields ''blockNumber'' = None"
  by (simp_all add: findField_def userOpFields_def)

text \<open>The operation that decoding the answer of \<open>eth_getUserOperationByHash\<close> gives.\<close>

definition wireOp :: "ethlib \<Rightarrow> StoredOp \<Rightarrow> UserOperationRPC" where
  "wireOp L op =
     \<lparr>rpc_Sender = AddressHex L (Sender op), rpc_Nonce = BigToHex (Some (Nonce op)),
      rpc_Factory = (if length (InitCode op) \<ge> 20 then AddressHex L (BytesToAddress L (slice 0 20 (InitCode op))) else []),
      rpc_FactoryData = (if length (InitCode op) \<ge> 20 then BytesToHex (drop 20 (InitCode op)) else []),
      rpc_CallData = BytesToHex (CallData op),
      rpc_CallGasLimit = BigToHex (Some (SetBytes (slice 16 32 (AccountGasLimits op)))),
      rpc_VerificationGasLimit = BigToHex (Some (SetBytes (slice 0 16 (AccountGasLimits op)))),
      rpc_PreVerificationGas = BigToHex (Some (PreVerificationGas op)),
      rpc_MaxFeePerGas = BigToHex (Some (SetBytes (slice 16 32 (GasFees op)))),
      rpc_MaxPriorityFeePerGas = BigToHex (Some (SetBytes (slice 0 16 (GasFees op)))),
      rpc_Paymaster = (if length (PaymasterAndData op) \<ge> 20
        then AddressHex L (BytesToAddress L (slice 0 20 (PaymasterAndData op))) else []),
      rpc_PaymasterData = (if length (PaymasterAndData op) \<ge> 20 then BytesToHex (drop 20 (PaymasterAndData op)) else []),
      rpc_Signature = BytesToHex (Signature op)\<rparr>"

lemma decodeMembers_append:
  "decodeMembers str fs (xs @ ys) st e = (case decodeMembers str fs xs st e of (st', e') \<Rightarrow> decodeMembers str fs ys st' e')"
  by (induction xs arbitrary: st e) (auto split: option.splits)

lemma unmarshalUserOp_storedOpToRPC: "unmarshalUserOp (storedOpToRPC L op) = Ok (wireOp L op)"
  by (simp add: unmarshalUserOp_def unmarshalStruct_def storedOpToRPC_def Let_def decodeMembers_append userOp_field
      wireOp_def emptyUserOp_def split: option.split)

lemma FromRPC_wireOp:
  assumes L: "ethlib_ok L" and op: "wf_op op"
    and split: "InitCode op = [] \<or> 20 \<le> length (InitCode op)" "PaymasterAndData op = [] \<or> 20 \<le> length (PaymasterAndData op)"
  shows "FromRPC L (wireOp L op) = Ok (PackedUserOp.truncate op)"
proof -
  have a: "HexToAddress L (AddressHex L (BytesToAddress L (slice 0 20 b))) = slice 0 20 b" if "20 \<le> length b" for b
    using that L by (simp add: BytesToAddress_id HexToAddress_Hex)
  have j: "slice 0 20 b @ drop 20 b = b" for b :: bytes by (simp add: slice_def)
  show ?thesis
    using assms a [of "InitCode op"] a [of "PaymasterAndData op"]
    by (auto simp: FromRPC_def wireOp_def Let_def wf_op_def HexToAddress_Hex AddressHex_nonempty PackBigInts_SetBytes j
        PackedUserOp.truncate_def)
qed

lemma FromRPC_split:
  assumes "FromRPC L req = Ok p" "ethlib_ok L"
  shows "InitCode p = [] \<or> 20 \<le> length (InitCode p)" "PaymasterAndData p = [] \<or> 20 \<le> length (PaymasterAndData p)"
proof -
  have "if rpc_Factory req = [] then InitCode p = []
     else \<exists>d. checkedHex (rpc_FactoryData req) = Ok d \<and> InitCode p = HexToAddress L (rpc_Factory req) @ d"
    using assms by (rule FromRPC_OkE)
  then show "InitCode p = [] \<or> 20 \<le> length (InitCode p)"
    using assms(2) by (auto simp: length_HexToAddress split: if_splits)
  have "if rpc_Paymaster req = [] then PaymasterAndData p = []
     else \<exists>d. checkedHex (rpc_PaymasterData req) = Ok d \<and> PaymasterAndData p = HexToAddress L (rpc_Paymaster req) @ d"
    using assms by (rule FromRPC_OkE)
  then show "PaymasterAndData p = [] \<or> 20 \<le> length (PaymasterAndData p)"
    using assms(2) by (auto simp: length_HexToAddress split: if_splits)
qed

lemma freshOp_fields [simp]:
  "InitCode (freshOp now p h) = InitCode p" "PaymasterAndData (freshOp now p h) = PaymasterAndData p"
  "wf_op (freshOp now p h) = wf_op p"
  by (simp_all add: freshOp_def PackedUserOp.defs wf_op_def)

lemma fresh_roundtrip:
  assumes "ethlib_ok L" "FromRPC L req = Ok p"
  shows "bind_res (unmarshalUserOp (storedOpToRPC L (freshOp now p h))) (FromRPC L) = Ok p"
  using FromRPC_wireOp [OF assms(1), of "freshOp now p h"] FromRPC_split [OF assms(2,1)] FromRPC_wf [OF assms(2,1)]
  by (simp add: unmarshalUserOp_storedOpToRPC)

section \<open>Sending\<close>

text \<open>The checks a request has passed when it is accepted, and the entry point and operation it stands for.\<close>

definition sendChecked :: "ethlib \<Rightarrow> ('e, 'db) Methods \<Rightarrow> json list \<Rightarrow> PackedUserOp \<Rightarrow> address \<Rightarrow> bool" where
  "sendChecked L m params p ep \<longleftrightarrow> 2 \<le> length params \<and>
     (\<exists>req epHex. unmarshalUserOp (params ! 0) = Ok req \<and> unmarshalString (params ! 1) = Ok epHex \<and>
        ep = HexToAddress L epHex \<and> ep \<in> set (mcEntryPoints (mCfg m)) \<and> FromRPC L req = Ok p) \<and>
     length (Signature p) = 65 \<and> Validate L (mValidator m) p = Ok ()"

lemma handleSend_cases:
  obtains (rejected) "snd (handleSendUserOperation L m e params db) = db"
      "\<forall>r. fst (handleSendUserOperation L m e params db) \<noteq> Result r"
    | (checked) p ep where "sendChecked L m params p ep"
      "handleSendUserOperation L m e params db =
         (let h = ComputeUserOpHash L p ep (mcChainID (mCfg m)) in
          case rInsert (mRepo m) e p h db of
            (Err er, db) \<Rightarrow> (RpcErr (ErrOpRejected er), db)
          | (Panic q, db) \<Rightarrow> (Panicked q, db)
          | (Ok _, db) \<Rightarrow> (Result (Some (JStr (HashHex L h))), db))"
proof (cases "\<exists>p ep. sendChecked L m params p ep")
  case True
  then obtain p ep where c: "sendChecked L m params p ep" by blast
  then have "handleSendUserOperation L m e params db =
      (let h = ComputeUserOpHash L p ep (mcChainID (mCfg m)) in
          case rInsert (mRepo m) e p h db of
            (Err er, db) \<Rightarrow> (RpcErr (ErrOpRejected er), db)
          | (Panic q, db) \<Rightarrow> (Panicked q, db)
          | (Ok _, db) \<Rightarrow> (Result (Some (JStr (HashHex L h))), db))"
    by (auto simp: sendChecked_def handleSendUserOperation_def isAllowedEntryPoint_def)
  with c checked show ?thesis by blast
next
  case False
  then have "snd (handleSendUserOperation L m e params db) = db \<and>
      (\<forall>r. fst (handleSendUserOperation L m e params db) \<noteq> Result r)"
    by (auto simp: sendChecked_def handleSendUserOperation_def isAllowedEntryPoint_def Let_def split: res.splits)
  then show ?thesis by (intro rejected) simp_all
qed

lemma handleSend_refused:
  "mRepo m = sqliteRepo L \<Longrightarrow> \<forall>r. fst (handleSendUserOperation L m e params t) \<noteq> Result r \<Longrightarrow>
     snd (handleSendUserOperation L m e params t) = t"
proof (cases rule: handleSend_cases [of L m e params t])
  case (checked p ep)
  assume "mRepo m = sqliteRepo L" "\<forall>r. fst (handleSendUserOperation L m e params t) \<noteq> Result r"
  then show ?thesis
    using checked(2) by (auto simp: sqliteRepo_def Insert_def Let_def split: sum.splits if_splits)
qed

section \<open>A concrete server\<close>

definition sendOp :: PackedUserOp where
  "sendOp = \<lparr>Sender = replicate 20 17, Nonce = 5, InitCode = [], CallData = [1, 2],
     AccountGasLimits = PackBigInts (Some 150000) (Some 50000), PreVerificationGas = 48000,
     GasFees = PackBigInts (Some 1) (Some 2), PaymasterAndData = replicate 20 34, Signature = replicate 65 1\<rparr>"

definition sampleMethods :: "(dbenv, table) Methods" where
  "sampleMethods = \<lparr>mCfg = \<lparr>mcEntryPoints = [replicate 20 4], mcChainID = 1\<rparr>,
     mValidator = newValidator [replicate 20 34] 200000 60000, mRepo = sqliteRepo hexLib,
     mEstimateGas = (\<lambda>_. Ok 21000), mPaymaster = sampleService, mCallContract = yesNode, mSignHash = markSign\<rparr>"

definition sendParams :: "json list" where
  "sendParams = [storedOpToRPC hexLib (freshOp 0 sendOp (sampleHash 1)), JStr (AddressHex hexLib (replicate 20 4))]"

lemma sampleMethods_repo [simp]: "mRepo sampleMethods = sqliteRepo hexLib"
  by (simp add: sampleMethods_def)

lemma sendOp_fields [simp]: "length (Signature sendOp) = 65" "wf_op sendOp" "InitCode sendOp = []"
  "PaymasterAndData sendOp = replicate 20 34" "AccountGasLimits sendOp = PackBigInts (Some 150000) (Some 50000)"
  by (simp_all add: sendOp_def wf_op_def)

lemma sendOp_valid: "Validate hexLib (mValidator sampleMethods) sendOp = Ok ()"
proof -
  have "checkGasLimits (newValidator [replicate 20 34] 200000 60000) sendOp = Ok ()"
    by (simp add: checkGasLimits_Ok_iff verificationGasOf_def callGasOf_def SetBytes_into128)
  moreover have "checkPaymaster hexLib (newValidator [replicate 20 34] 200000 60000) sendOp = Ok ()"
    by (simp add: checkPaymaster_Ok_iff slice_exact BytesToAddress_id [OF hexLib_ok])
  ultimately show ?thesis by (simp add: Validate_def sampleMethods_def)
qed

lemma sendParams_checked: "sendChecked hexLib sampleMethods sendParams sendOp (replicate 20 4)"
proof -
  have "FromRPC hexLib (wireOp hexLib (freshOp 0 sendOp (sampleHash 1))) = Ok sendOp"
    using FromRPC_wireOp [OF hexLib_ok, of "freshOp 0 sendOp (sampleHash 1)"] by simp
  moreover have "HexToAddress hexLib (AddressHex hexLib (replicate 20 4)) = replicate 20 4"
    using HexToAddress_Hex [OF hexLib_ok, of "replicate 20 4"] by simp
  ultimately show ?thesis
    by (simp add: sendChecked_def sendParams_def unmarshalUserOp_storedOpToRPC sendOp_valid)
      (simp add: sampleMethods_def)
qed

lemma send_sample:
  "fst (handleSendUserOperation hexLib sampleMethods sampleEnv sendParams []) =
     Result (Some (JStr (HashHex hexLib (ComputeUserOpHash hexLib sendOp (replicate 20 4) 1))))"
proof -
  have c: "mcChainID (mCfg sampleMethods) = 1" by (simp add: sampleMethods_def)
  have "fst (Insert hexLib sampleEnv sendOp (ComputeUserOpHash hexLib sendOp (replicate 20 4) 1) []) = Ok ()"
    by (rule Insert_progress [OF hexLib_ok]) simp_all
  then have "\<exists>t'. Insert hexLib sampleEnv sendOp (ComputeUserOpHash hexLib sendOp (replicate 20 4) 1) [] = (Ok (), t')"
    by (simp add: prod_eq_iff)
  with sendParams_checked c show ?thesis
    by (auto simp: sendChecked_def handleSendUserOperation_def isAllowedEntryPoint_def sqliteRepo_def Let_def)
qed

text \<open>
C5: an operation that \<open>eth_sendUserOperation\<close> accepts has passed every check (a configured entry point,
decodable fields, a 65-byte signature, the policy of the validator) and is stored, pending, under the
hash that is returned; asking for that hash answers an operation that decodes to exactly the one
accepted. A refused request changes nothing.
\<close>

theorem send_accepts_checked_operation:
  assumes L: "ethlib_ok L" and t: "table_inv L t" and m: "mRepo m = sqliteRepo L" and e: "quiet e'"
  shows "case handleSendUserOperation L m e params t of
      (Result r, t') \<Rightarrow> \<exists>p ep h. sendChecked L m params p ep \<and> h = ComputeUserOpHash L p ep (mcChainID (mCfg m)) \<and>
        r = Some (JStr (HashHex L h)) \<and> table_inv L t' \<and>
        tableView L t' = (tableView L t)(h \<mapsto> freshOp (clock e) p h) \<and>
        handleGetUserOperationByHash L m e' [JStr (HashHex L h)] t' =
          Result (Some (storedOpToRPC L (freshOp (clock e) p h))) \<and>
        bind_res (unmarshalUserOp (storedOpToRPC L (freshOp (clock e) p h))) (FromRPC L) = Ok p
    | (_, t') \<Rightarrow> t' = t"
proof (cases "\<exists>r. fst (handleSendUserOperation L m e params t) = Result r")
  case False
  then have "snd (handleSendUserOperation L m e params t) = t" using handleSend_refused [OF m] by blast
  with False show ?thesis by (auto split: prod.splits reply.splits)
next
  case True
  show ?thesis
  proof (cases rule: handleSend_cases [of L m e params t])
    case (checked p ep)
    let ?h = "ComputeUserOpHash L p ep (mcChainID (mCfg m))"
    let ?t' = "snd (handleSendUserOperation L m e params t)"
    have i: "Insert L e p ?h t = (Ok (), ?t')"
      and r: "fst (handleSendUserOperation L m e params t) = Result (Some (JStr (HashHex L ?h)))"
      using True checked(2) m by (auto simp: sqliteRepo_def Let_def split: prod.splits res.splits)
    obtain req where req: "FromRPC L req = Ok p" using checked(1) by (auto simp: sendChecked_def)
    from Insert_ok [OF L t FromRPC_wf [OF req L] _ i]
    have v: "table_inv L ?t'" "tableView L ?t' = (tableView L t)(?h \<mapsto> freshOp (clock e) p ?h)" by simp_all
    have "GetByHash L e' ?h ?t' = Ok (freshOp (clock e) p ?h)"
      using GetByHash_view [OF L v(1) e, of ?h] v(2) by simp
    then have "handleGetUserOperationByHash L m e' [JStr (HashHex L ?h)] ?t' =
        Result (Some (storedOpToRPC L (freshOp (clock e) p ?h)))"
      using L m by (simp add: handleGetUserOperationByHash_def replyOf_def sqliteRepo_def HexToHash_Hex)
    with checked(1) r v fresh_roundtrip [OF L req] show ?thesis
      by (cases "handleSendUserOperation L m e params t") (auto intro!: exI [of _ p] exI [of _ ep])
  qed (use True in auto)
qed

theorem send_accepts_checked_operation_witness:
  "\<exists>h t'. handleSendUserOperation hexLib sampleMethods sampleEnv sendParams [] = (Result (Some (JStr (HashHex hexLib h))), t') \<and>
     table_inv hexLib t' \<and>
     (\<exists>p. tableView hexLib t' h = Some (freshOp 1000 p h) \<and> Validate hexLib (mValidator sampleMethods) p = Ok ())"
proof -
  obtain t' where "handleSendUserOperation hexLib sampleMethods sampleEnv sendParams [] =
      (Result (Some (JStr (HashHex hexLib (ComputeUserOpHash hexLib sendOp (replicate 20 4) 1)))), t')"
    using send_sample by (metis eq_fst_iff)
  with send_accepts_checked_operation [OF hexLib_ok empty_table(1) sampleMethods_repo sampleEnv_quiet(1), where e = sampleEnv and params = sendParams]
  show ?thesis by (auto simp: sendChecked_def)
qed

section \<open>The effects of a request\<close>

lemma dispatch_cases:
  obtains (reads) "snd (dispatch L m e req st) = st"
    | (send) "dispatch L m e req st = (let (r, db) = handleSendUserOperation L m (envRepo e) (jrParams req) (fst st) in (r, db, snd st))"
    | (sponsor) "dispatch L m e req st =
        (let (r, sdb) = handleGetPaymasterData L m (envCheck e) (envRedeem e) (envUnix e) (jrParams req) (snd st) in (r, fst st, sdb))"
proof -
  consider "jrMethod req = ''eth_sendUserOperation''" | "jrMethod req = ''pm_getPaymasterData''"
    | "jrMethod req \<noteq> ''eth_sendUserOperation''" "jrMethod req \<noteq> ''pm_getPaymasterData''" by blast
  then show ?thesis
  proof cases
    case 1
    then show ?thesis by (intro send) (simp add: dispatch_def case_prod_beta Let_def)
  next
    case 2
    then show ?thesis by (intro sponsor) (simp add: dispatch_def case_prod_beta Let_def)
  next
    case 3
    then show ?thesis by (intro reads) (simp add: dispatch_def case_prod_beta Let_def)
  qed
qed

text \<open>A change of the mempool by a request: one new pending operation that passed the checks.\<close>

definition accepts :: "ethlib \<Rightarrow> ('e, 'db) Methods \<Rightarrow> int \<Rightarrow> table \<Rightarrow> table \<Rightarrow> bool" where
  "accepts L m now t t' \<longleftrightarrow> (\<exists>params p ep h. sendChecked L m params p ep \<and>
     h = ComputeUserOpHash L p ep (mcChainID (mCfg m)) \<and> tableView L t h = None \<and>
     tableView L t' = (tableView L t)(h \<mapsto> freshOp now p h))"

definition grantsCode :: "ethlib \<Rightarrow> sponsorDb \<Rightarrow> sponsorDb \<Rightarrow> bool" where
  "grantsCode L db db' \<longleftrightarrow> (\<exists>c a. length a = 20 \<and> a \<notin> whitelist (inviteView L db) \<and> inviteView L db c = Some None \<and>
     inviteView L db' = (inviteView L db)(c \<mapsto> Some a))"

definition requestEffect :: "ethlib \<Rightarrow> ('e, 'db) Methods \<Rightarrow> int \<Rightarrow> table \<times> sponsorDb \<Rightarrow> table \<times> sponsorDb \<Rightarrow> bool" where
  "requestEffect L m now st st' \<longleftrightarrow> table_inv L (fst st') \<and> sponsor_inv L (snd st') \<and>
     (st' = st \<or> snd st' = snd st \<and> accepts L m now (fst st) (fst st') \<or>
      fst st' = fst st \<and> grantsCode L (snd st) (snd st'))"

lemma requestEffect_refl [simp]: "table_inv L t \<Longrightarrow> sponsor_inv L sdb \<Longrightarrow> requestEffect L m now (t, sdb) (t, sdb)"
  by (simp add: requestEffect_def)

lemma handleSend_effect:
  assumes L: "ethlib_ok L" and t: "table_inv L t" and s: "sponsor_inv L sdb" and m: "mRepo m = sqliteRepo L"
  shows "requestEffect L m (clock e) (t, sdb) (snd (handleSendUserOperation L m e params t), sdb)"
proof (cases "\<exists>r. fst (handleSendUserOperation L m e params t) = Result r")
  case False
  then show ?thesis using handleSend_refused [OF m, of e params t] t s by simp
next
  case True
  show ?thesis
  proof (cases rule: handleSend_cases [of L m e params t])
    case (checked p ep)
    let ?h = "ComputeUserOpHash L p ep (mcChainID (mCfg m))"
    have i: "Insert L e p ?h t = (Ok (), snd (handleSendUserOperation L m e params t))"
      using True checked(2) m by (auto simp: sqliteRepo_def Let_def split: prod.splits res.splits)
    obtain req where "FromRPC L req = Ok p" using checked(1) by (auto simp: sendChecked_def)
    then have "wf_op p" using FromRPC_wf L by blast
    from Insert_ok [OF L t this _ i] checked(1) s show ?thesis
      by (auto simp: requestEffect_def accepts_def)
  qed (use True in auto)
qed

lemma parsePaymasterRequest_wf:
  assumes "parsePaymasterRequest L m params = Inr op" "ethlib_ok L" shows "wf_op op"
proof -
  obtain req where "FromRPC L req = Ok op"
    using assms(1) by (auto simp: parsePaymasterRequest_def Let_def split: if_splits res.splits)
  then show ?thesis using FromRPC_wf assms(2) by blast
qed

lemma handleGetPaymasterData_effect:
  assumes L: "ethlib_ok L" and t: "table_inv L t" and s: "sponsor_inv L sdb"
  shows "requestEffect L m now (t, sdb) (t, snd (handleGetPaymasterData L m e1 e2 unix params sdb))"
proof (cases "parsePaymasterRequest L m params")
  case (Inl r)
  then show ?thesis using t s by (simp add: handleGetPaymasterData_def)
next
  case (Inr op)
  let ?sc = "Some (unmarshalSponsorContext params)"
  have a: "length (Sender op) = 20" using parsePaymasterRequest_wf [OF Inr L] by (simp add: wf_op_def)
  obtain r sdb' where g: "GetPaymasterData L (mCallContract m) (mSignHash m) (mPaymaster m) e1 e2 unix op ?sc sdb = (r, sdb')"
    by (metis surj_pair)
  then obtain q where "checkSponsorAccess L (mPaymaster m) e1 e2 (Sender op) ?sc sdb = (q, sdb')"
    using GetPaymasterData_split by blast
  from checkSponsorAccess_outcome [OF L s a this] a t
  have "requestEffect L m now (t, sdb) (t, sdb')" by (auto simp: requestEffect_def grantsCode_def)
  with Inr g show ?thesis by (simp add: handleGetPaymasterData_def)
qed

lemma dispatch_effect:
  assumes L: "ethlib_ok L" and st: "table_inv L (fst st)" "sponsor_inv L (snd st)" and m: "mRepo m = sqliteRepo L"
  shows "requestEffect L m (clock (envRepo e)) st (snd (dispatch L m e req st))"
proof (cases rule: dispatch_cases [of L m e req st])
  case reads
  with st show ?thesis by (cases st) simp
next
  case send
  then show ?thesis using handleSend_effect [OF L st m] by (cases st) (simp add: case_prod_beta Let_def)
next
  case sponsor
  then show ?thesis using handleGetPaymasterData_effect [OF L st] by (cases st) (simp add: case_prod_beta Let_def)
qed

lemma handleRequest_effect:
  assumes "ethlib_ok L" "table_inv L (fst st)" "sponsor_inv L (snd st)" "mRepo m = sqliteRepo L"
  shows "requestEffect L m (clock (envRepo e)) st (snd (handleRequest L parseJson m e r st))"
proof -
  have same: "requestEffect L m (clock (envRepo e)) st st" using assms by (cases st) simp
  have "snd (handleRequest L parseJson m e r st) = st \<or>
      (\<exists>req. snd (handleRequest L parseJson m e r st) = snd (dispatch L m e req st))"
    by (auto simp: handleRequest_def split: sum.split res.split prod.split reply.split) (metis snd_conv)+
  then show ?thesis using dispatch_effect [OF assms] same by metis
qed

text \<open>
C6: whatever a request contains, whatever the node and the database answer and whether a handler fails or
panics, it is answered, the invariants of the mempool and of the sponsor tables hold, and at most one thing has
happened: one new operation that passed every check is pending, or one free invite code has passed to one
sender. Without the configured key nothing changes, and the answer is 401 outside the health check and the prover.
\<close>

theorem request_effects:
  assumes "ethlib_ok L" "table_inv L (fst st)" "sponsor_inv L (snd st)" "mRepo m = sqliteRepo L"
    and "serve L parseJson apiKey prover m e r st = (resp, st')"
  shows "requestEffect L m (clock (envRepo e)) st st' \<and>
    (apiKey \<noteq> [] \<longrightarrow> reqApiKey r \<noteq> apiKey \<longrightarrow>
       st' = st \<and> (reqPath r \<notin> {''/healthz'', ''/v1/prove''} \<longrightarrow> httpStatus resp = 401))"
proof -
  have same: "requestEffect L m (clock (envRepo e)) st st" using assms by (cases st) simp
  have st': "st' = snd (httpHandler prover (RequireAPIKey apiKey (handleRequest L parseJson m e)) r st)"
    using assms(5) by (auto simp: serve_def recoverMiddleware_def split: prod.splits handled.splits)
  have "requestEffect L m (clock (envRepo e)) st st'"
    using handleRequest_effect [OF assms(1-4)] same by (simp add: st' httpHandler_def RequireAPIKey_def)
  moreover have "st' = st" if "apiKey \<noteq> []" "reqApiKey r \<noteq> apiKey"
    using that by (simp add: st' httpHandler_def RequireAPIKey_def)
  moreover have "httpStatus resp = 401"
    if "apiKey \<noteq> []" "reqApiKey r \<noteq> apiKey" "reqPath r \<notin> {''/healthz'', ''/v1/prove''}"
    using that assms(5) by (simp add: serve_def recoverMiddleware_def httpHandler_def RequireAPIKey_def) auto
  ultimately show ?thesis by blast
qed

definition postRequest :: HttpRequest where
  "postRequest = \<lparr>reqMethod = ''POST'', reqPath = ''/'', reqApiKey = ''wrong'', reqBody = Inr []\<rparr>"

theorem request_effects_witness:
  "snd (serve hexLib (\<lambda>_. Inr JNull) ''key'' None sampleMethods
      \<lparr>envRepo = sampleEnv, envCheck = calmEnv, envRedeem = calmEnv, envUnix = 0\<rparr> postRequest (table1, oneCode)) = (table1, oneCode) \<and>
   httpStatus (fst (serve hexLib (\<lambda>_. Inr JNull) ''key'' None sampleMethods
      \<lparr>envRepo = sampleEnv, envCheck = calmEnv, envRedeem = calmEnv, envUnix = 0\<rparr> postRequest (table1, oneCode))) = 401"
  using request_effects [OF hexLib_ok, of "(table1, oneCode)" sampleMethods "\<lambda>_. Inr JNull" "''key''" None
      "\<lparr>envRepo = sampleEnv, envCheck = calmEnv, envRedeem = calmEnv, envUnix = 0\<rparr>" postRequest]
  by (simp add: table1_view postRequest_def prod_eq_iff)

lemma unknown_hash_has_empty_response:
  assumes "ethlib_ok L" "table_inv L t" "quiet e" "mRepo m = sqliteRepo L" "tableView L t (HexToHash L s) = None"
  shows "handleGetUserOperationByHash L m e [JStr s] t = Result None \<and>
    httpBody (writeResult rid None) = RpcBody \<lparr>respId = rid, respResult = None, respError = None\<rparr>"
  using GetByHash_view [OF assms(1-3), of "HexToHash L s"] assms
  by (simp add: handleGetUserOperationByHash_def replyOf_def sqliteRepo_def length_HexToHash writeResult_def)

end
