(* ===== verification/BigFloat.thy ===== *)
theory BigFloat
  imports GoLib
begin

text \<open>
  The part of \<open>big.Float\<close> (\<open>math/big\<close>) that the sources use: \<open>SetInt\<close>, \<open>Quo\<close> and \<open>Text\<close> in format \<open>'f'\<close>. A finite
  value is \<open>mantissa * 2 ^ exponent\<close> with the precision of the variable; results are rounded to the nearest
  value of that precision, ties to even.
\<close>

function bitLen :: "int \<Rightarrow> nat" where
  "bitLen n = (if n \<le> 0 then 0 else Suc (bitLen (n div 2)))"
  by pat_completeness auto
termination
  by (relation "measure nat") auto

declare bitLen.simps [simp del]

record bigFloat =
  fPrec :: nat
  fMant :: int
  fExp :: int

text \<open>\<open>a div b\<close> rounded to the nearest integer, ties to even.\<close>

definition roundQuot :: "int \<Rightarrow> int \<Rightarrow> int" where
  "roundQuot a b =
     (let q = a div b; r = a mod b in if 2 * r < b \<or> (2 * r = b \<and> even q) then q else q + 1)"

definition scale2 :: "int \<Rightarrow> int \<Rightarrow> int" where
  "scale2 x e = (if 0 \<le> e then x * 2 ^ nat e else x)"

text \<open>\<open>z.SetInt(x)\<close> for a fresh \<open>z\<close> is exact.\<close>

definition SetInt :: "int \<Rightarrow> bigFloat" where
  "SetInt x = \<lparr>fPrec = max (bitLen \<bar>x\<bar>) 64, fMant = x, fExp = 0\<rparr>"

text \<open>The binary logarithm of a positive fraction, rounded down.\<close>

definition floorLog2 :: "int \<Rightarrow> int \<Rightarrow> int" where
  "floorLog2 a b =
     (let k = int (bitLen a) - int (bitLen b) in if scale2 b k \<le> scale2 a (- k) then k else k - 1)"

text \<open>\<open>x.Quo(x, y)\<close> for \<open>y \<noteq> 0\<close>, rounded to the precision of \<open>x\<close>.\<close>

definition Quo :: "bigFloat \<Rightarrow> bigFloat \<Rightarrow> bigFloat" where
  "Quo x y =
     (if fMant x = 0 then x\<lparr>fExp := 0\<rparr>
      else
        let a = scale2 \<bar>fMant x\<bar> (fExp x - fExp y);
            b = scale2 \<bar>fMant y\<bar> (fExp y - fExp x);
            s = int (fPrec x) - 1 - floorLog2 a b;
            m = roundQuot (scale2 a s) (scale2 b (- s))
        in x\<lparr>fMant := (if (fMant x < 0) = (fMant y < 0) then m else - m), fExp := - s\<rparr>)"

text \<open>
  \<open>x.Text('f', n)\<close> for \<open>n > 0\<close>: the exact decimal expansion, rounded to \<open>n\<close> decimals.
\<close>

definition decimals :: "nat \<Rightarrow> bigFloat \<Rightarrow> int" where
  "decimals n x = roundQuot (scale2 (\<bar>fMant x\<bar> * 10 ^ n) (fExp x)) (scale2 1 (- fExp x))"

definition padDigits :: "nat \<Rightarrow> string \<Rightarrow> string" where
  "padDigits n s = replicate (n - length s) (CHR ''0'') @ s"

definition TextF :: "nat \<Rightarrow> bigFloat \<Rightarrow> string" where
  "TextF n x =
     (let d = decimals n x
      in (if fMant x < 0 then ''-'' else []) @ Text 10 (d div 10 ^ n) @ ''.'' @ padDigits n (Text 10 (d mod 10 ^ n)))"

section \<open>Rounding\<close>

lemma roundQuot_nearest:
  assumes "0 < b"
  shows "2 * \<bar>roundQuot a b * b - a\<bar> \<le> b"
proof -
  let ?q = "a div b" and ?r = "a mod b"
  have a: "a = ?q * b + ?r" by simp
  have r: "0 \<le> ?r" "?r < b" using assms by simp_all
  show ?thesis
  proof (cases "2 * ?r < b \<or> (2 * ?r = b \<and> even ?q)")
    case True
    then have "roundQuot a b * b - a = - ?r" by (simp add: roundQuot_def minus_mod_eq_div_mult [symmetric])
    then show ?thesis using True r by auto
  next
    case False
    then have "roundQuot a b = ?q + 1" by (simp add: roundQuot_def Let_def)
    then have "roundQuot a b * b = ?q * b + b" by (simp add: distrib_right)
    then have "roundQuot a b * b - a = b - ?r" using a by linarith
    then show ?thesis using False r by auto
  qed
qed

lemma roundQuot_nonneg: "0 \<le> a \<Longrightarrow> 0 < b \<Longrightarrow> 0 \<le> roundQuot a b"
  by (simp add: roundQuot_def Let_def pos_imp_zdiv_nonneg_iff)

lemma bitLen_bounds: "0 < n \<Longrightarrow> 2 ^ (bitLen n - 1) \<le> n \<and> n < 2 ^ bitLen n"
proof (induction n rule: bitLen.induct)
  case (1 n)
  show ?case
  proof (cases "n = 1")
    case True
    then show ?thesis by (simp add: bitLen.simps)
  next
    case False
    with "1.prems" have pos: "0 < n div 2" by simp
    with 1 have IH: "2 ^ (bitLen (n div 2) - 1) \<le> n div 2" "n div 2 < 2 ^ bitLen (n div 2)" by simp_all
    have "bitLen (n div 2) \<noteq> 0" using pos by (simp add: bitLen.simps [of "n div 2"])
    then obtain k where k: "bitLen (n div 2) = Suc k" using not0_implies_Suc by blast
    have "bitLen n = Suc (Suc k)" using "1.prems" k by (simp add: bitLen.simps [of n])
    then have p: "bitLen n - 1 = Suc k" "(2::int) ^ Suc k = 2 * 2 ^ k" "(2::int) ^ Suc (Suc k) = 4 * 2 ^ k" by simp_all
    have "n = 2 * (n div 2) + n mod 2" "0 \<le> n mod 2" "n mod 2 < 2" by simp_all
    with IH show ?thesis
      unfolding k \<open>bitLen n = Suc (Suc k)\<close> p(2,3) diff_Suc_1 by linarith
  qed
qed

section \<open>Quotients by a power of ten\<close>

lemma bitLen_ether: "bitLen (10 ^ 18) = 60"
  by code_simp

lemma floorLog2_ether: "floorLog2 w (10 ^ 18) \<le> int (bitLen w) - 60"
  unfolding floorLog2_def bitLen_ether by (simp add: Let_def)

lemma two_roundings:
  fixes w m d P :: int
  assumes "0 < P" "10 ^ 18 < 2 * P" "2 * \<bar>m * 10 ^ 18 - w * P\<bar> \<le> 10 ^ 18" "2 * \<bar>d * P - m * 10 ^ 6\<bar> \<le> P"
  shows "\<bar>d * 10 ^ 12 - w\<bar> \<le> 5 * 10 ^ 11"
proof -
  define u v where "u = d * P - m * 10 ^ 6" and "v = m * 10 ^ 18 - w * P"
  have "(d * 10 ^ 12 - w) * P = u * 1000000000000 + v" by (simp add: u_def v_def algebra_simps)
  moreover have "2 * \<bar>u\<bar> \<le> P" "2 * \<bar>v\<bar> \<le> 1000000000000000000" using assms(3,4) by (simp_all add: u_def v_def)
  ultimately have "2 * \<bar>(d * 10 ^ 12 - w) * P\<bar> \<le> P * 1000000000000 + 1000000000000000000"
    by linarith
  also have "\<dots> < P * 1000000000002" using assms(2) by simp
  finally have "P * (2 * \<bar>d * 10 ^ 12 - w\<bar>) < P * 1000000000002"
    using assms(1) by (simp add: abs_mult mult.commute mult.left_commute)
  then have "2 * \<bar>d * 10 ^ 12 - w\<bar> < 1000000000002" using assms(1) by (simp only: mult_less_cancel_left_pos)
  then show ?thesis by simp
qed

text \<open>
  The quotient of an integer by \<open>10 ^ 18\<close> has so many bits that printing it with six decimals gives a nearest
  such number to the exact quotient.
\<close>

lemma ether_decimals:
  assumes "0 \<le> w"
  shows "\<bar>decimals 6 (Quo (SetInt w) (SetInt (10 ^ 18))) * 10 ^ 12 - w\<bar> \<le> 5 * 10 ^ 11"
proof (cases "w = 0")
  case True
  then show ?thesis by (simp add: Quo_def SetInt_def decimals_def scale2_def roundQuot_def)
next
  case False
  with assms have pos: "0 < w" by simp
  define s where "s = nat (int (max (bitLen w) 64) - 1 - floorLog2 w (10 ^ 18))"
  have s: "59 \<le> s" "int (max (bitLen w) 64) - 1 - floorLog2 w (10 ^ 18) = int s"
    using floorLog2_ether [of w] by (auto simp: s_def)
  let ?D = "10 ^ 18 :: int" and ?m = "roundQuot (w * 2 ^ s) (10 ^ 18)"
  have m: "2 * \<bar>?m * ?D - w * 2 ^ s\<bar> \<le> ?D" by (rule roundQuot_nearest) simp
  have m0: "0 \<le> ?m" by (rule roundQuot_nonneg) (use pos in simp_all)
  let ?d = "roundQuot (?m * 10 ^ 6) (2 ^ s)"
  have d: "2 * \<bar>?d * 2 ^ s - ?m * 10 ^ 6\<bar> \<le> 2 ^ s" by (rule roundQuot_nearest) simp
  have "Quo (SetInt w) (SetInt ?D) = \<lparr>fPrec = max (bitLen w) 64, fMant = ?m, fExp = - int s\<rparr>"
    using pos s(2) by (simp add: Quo_def SetInt_def scale2_def Let_def)
  moreover have "s \<noteq> 0" using s(1) by simp
  ultimately have dec: "decimals 6 (Quo (SetInt w) (SetInt ?D)) = ?d"
    using m0 by (simp add: decimals_def scale2_def)
  have big: "?D < 2 * 2 ^ s"
  proof -
    have "(2::int) ^ 59 \<le> 2 ^ s" using s(1) by (rule power_increasing) simp
    then show ?thesis by simp
  qed
  have "\<bar>?d * 10 ^ 12 - w\<bar> \<le> 5 * 10 ^ 11" by (rule two_roundings [OF _ big m d]) simp
  then show ?thesis unfolding dec .
qed

end
