(* ===== verification/Keystore.thy ===== *)
theory Keystore
  imports Config BigFloat BundlingSpec
begin

text \<open>
  \<open>internal/signer/keystore.go\<close>: the hot key and its nonce. The node is a record of the answers it gives
  during one call; the key of go-ethereum's \<open>keystore\<close> with \<open>types.SignTx\<close> and
  \<open>crypto.Sign\<close> is a record of functions. The state of the signer is its pending nonce, a
  \<open>uint64\<close>; the mutex makes every call one step. A header without base fee has \<open>None\<close>.
\<close>

record DynamicFeeTx =
  txChainID :: int
  txNonce :: uint64
  txGasTipCap :: int
  txGasFeeCap :: int
  txGas :: uint64
  txTo :: address
  txData :: bytes

record SignedTx =
  signedTx :: DynamicFeeTx
  signedHash :: hash

record Key =
  keyAddress :: address
  SignTx :: "DynamicFeeTx \<Rightarrow> string + SignedTx"
  cryptoSign :: "bytes \<Rightarrow> string + bytes"

record NodeClient =
  BalanceAt :: "address \<Rightarrow> nodeError + int"
  PendingNonceAt :: "address \<Rightarrow> nodeError + uint64"
  SuggestGasTipCap :: "nodeError + int"
  HeaderBaseFee :: "nodeError + int option"
  SendTransaction :: "SignedTx \<Rightarrow> nodeError option"

record BundlerSigner =
  signerKey :: Key
  signerChainID :: int
  pendingNonce :: uint64

definition warnThreshold :: int where
  "warnThreshold = 50000000000000000 * 1"

definition criticalThreshold :: int where
  "criticalThreshold = 10000000000000000 * 1"

definition LoadKey ::
    "ethlib \<Rightarrow> os \<Rightarrow> (bytes \<Rightarrow> string \<Rightarrow> string + Key) \<Rightarrow> string \<Rightarrow> address option \<Rightarrow> uint64 \<Rightarrow> BundlerSigner res" where
  "LoadKey L os DecryptKey keystorePath expectedAddress chainID =
     (case ReadFile os keystorePath of
        Inl m \<Rightarrow> Err (ErrWrap ''read keystore'' (ErrExt m))
      | Inr encrypted \<Rightarrow>
      let password = Getenv os ''BUNDLER_KEYSTORE_PASSWORD'' in
      if password = [] then Err (ErrText ''BUNDLER_KEYSTORE_PASSWORD not set'')
      else
     (case DecryptKey encrypted password of
        Inl m \<Rightarrow> Err (ErrWrap ''keystore decrypt failed'' (ErrExt m))
      | Inr key \<Rightarrow>
         (case expectedAddress of
            Some a \<Rightarrow>
              if keyAddress key \<noteq> a
              then Err (ErrFmt ''keystore address %s != expected %s''
                     [FStr (AddressHex L (keyAddress key)), FStr (AddressHex L a)])
              else Ok \<lparr>signerKey = key, signerChainID = uint chainID, pendingNonce = 0\<rparr>
          | None \<Rightarrow> Ok \<lparr>signerKey = key, signerChainID = uint chainID, pendingNonce = 0\<rparr>)))"

definition signerAddress :: "BundlerSigner \<Rightarrow> address" where
  "signerAddress s = keyAddress (signerKey s)"

definition InitNonce :: "NodeClient \<Rightarrow> BundlerSigner \<Rightarrow> unit res \<times> BundlerSigner" where
  "InitNonce client s =
     (case PendingNonceAt client (signerAddress s) of
        Inl er \<Rightarrow> (Err (ErrWrap ''fetch pending nonce'' (nodeErr er)), s)
      | Inr n \<Rightarrow> (Ok (), s\<lparr>pendingNonce := n\<rparr>))"

definition weiToEthString :: "int \<Rightarrow> string" where
  "weiToEthString wei =
     (let eth = SetInt wei;
          divisor = SetInt (10 ^ 18);
          eth = Quo eth divisor
      in TextF 6 eth)"

definition checkBalance :: "NodeClient \<Rightarrow> BundlerSigner \<Rightarrow> unit res" where
  "checkBalance client s =
     (case BalanceAt client (signerAddress s) of
        Inl er \<Rightarrow> Err (ErrWrap ''fetch balance'' (nodeErr er))
      | Inr balance \<Rightarrow>
         if balance < criticalThreshold
         then Err (ErrFmt ''bundler balance %s ETH below critical threshold 0.01 ETH'' [FStr (weiToEthString balance)])
         else Ok ())"

definition isNonceTooLow :: "nodeError \<Rightarrow> bool" where
  "isNonceTooLow er =
     (let msg = ToLower (neText er) in contains msg ''nonce too low'' \<or> contains msg ''already known'')"

definition bundleTx :: "BundlerSigner \<Rightarrow> address \<Rightarrow> bytes \<Rightarrow> uint64 \<Rightarrow> int \<Rightarrow> int \<Rightarrow> DynamicFeeTx" where
  "bundleTx s to data gasLimit gasTipCap baseFee =
     (let gasFeeCap = baseFee * 2; gasFeeCap = gasFeeCap + gasTipCap
      in \<lparr>txChainID = signerChainID s, txNonce = pendingNonce s, txGasTipCap = gasTipCap,
          txGasFeeCap = gasFeeCap, txGas = gasLimit, txTo = to, txData = data\<rparr>)"

definition signAndSubmit ::
    "NodeClient \<Rightarrow> address \<Rightarrow> bytes \<Rightarrow> uint64 \<Rightarrow> BundlerSigner \<Rightarrow> hash res \<times> BundlerSigner" where
  "signAndSubmit client to data gasLimit s =
     (case SuggestGasTipCap client of
        Inl er \<Rightarrow> (Err (ErrWrap ''suggest gas tip'' (nodeErr er)), s)
      | Inr gasTipCap \<Rightarrow>
     (case HeaderBaseFee client of
        Inl er \<Rightarrow> (Err (ErrWrap ''fetch latest header'' (nodeErr er)), s)
      | Inr None \<Rightarrow> (Panic ''runtime error: invalid memory address or nil pointer dereference'', s)
      | Inr (Some baseFee) \<Rightarrow>
     (case SignTx (signerKey s) (bundleTx s to data gasLimit gasTipCap baseFee) of
        Inl m \<Rightarrow> (Err (ErrWrap ''sign tx'' (ErrExt m)), s)
      | Inr stx \<Rightarrow>
     (case SendTransaction client stx of
        Some er \<Rightarrow>
          (Err (ErrWrap ''send tx'' (nodeErr er)),
           if isNonceTooLow er then
             (case PendingNonceAt client (signerAddress s) of Inr n \<Rightarrow> s\<lparr>pendingNonce := n\<rparr> | Inl _ \<Rightarrow> s)
           else s)
      | None \<Rightarrow> (Ok (signedHash stx), s\<lparr>pendingNonce := pendingNonce s + 1\<rparr>)))))"

text \<open>\<open>sig[64] += 27\<close> on a byte; \<open>crypto.Sign\<close> returns 65 bytes.\<close>

definition ethSign :: "(bytes \<Rightarrow> string + bytes) \<Rightarrow> bytes \<Rightarrow> bytes res" where
  "ethSign sign h =
     (case sign h of
        Inl m \<Rightarrow> Err (ErrExt m)
      | Inr sig \<Rightarrow>
         if 64 < length sig then Ok (sig[64 := sig ! 64 + 27])
         else Panic ''runtime error: index out of range'')"

definition SignHash :: "BundlerSigner \<Rightarrow> bytes \<Rightarrow> bytes res" where
  "SignHash s h = ethSign (cryptoSign (signerKey s)) h"

text \<open>The signer as the bundling loop sees it during one tick, which submits at most once.\<close>

definition asSigner :: "NodeClient \<Rightarrow> BundlerSigner \<Rightarrow> Signer" where
  "asSigner client s =
     \<lparr>SignerAddress = signerAddress s, CheckBalance = checkBalance client s,
      SignAndSubmit = (\<lambda>to data gas. fst (signAndSubmit client to data gas s))\<rparr>"

section \<open>Sequences of submissions\<close>

text \<open>
  What the key library promises: signing keeps the transaction, and a transaction hash has 32 bytes;
  \<open>crypto.Sign\<close> returns 65 bytes with a recovery id of 0 or 1 at the end.
\<close>

definition key_ok :: "Key \<Rightarrow> bool" where
  "key_ok k \<longleftrightarrow>
     (\<forall>tx stx. SignTx k tx = Inr stx \<longrightarrow> signedTx stx = tx \<and> length (signedHash stx) = 32) \<and>
     (\<forall>h sig. cryptoSign k h = Inr sig \<longrightarrow> length sig = 65 \<and> sig ! 64 \<in> {0, 1})"

record submission =
  subClient :: NodeClient
  subTo :: address
  subData :: bytes
  subGas :: uint64

definition submit :: "submission \<Rightarrow> BundlerSigner \<Rightarrow> hash res \<times> BundlerSigner" where
  "submit c s = signAndSubmit (subClient c) (subTo c) (subData c) (subGas c) s"

text \<open>The transaction a submission builds, and the ones the node has taken.\<close>

definition built :: "submission \<Rightarrow> BundlerSigner \<Rightarrow> SignedTx option" where
  "built c s =
     (case SuggestGasTipCap (subClient c) of Inl _ \<Rightarrow> None
      | Inr tip \<Rightarrow>
         (case HeaderBaseFee (subClient c) of
            Inr (Some base) \<Rightarrow>
              (case SignTx (signerKey s) (bundleTx s (subTo c) (subData c) (subGas c) tip base) of
                 Inl _ \<Rightarrow> None | Inr stx \<Rightarrow> Some stx)
          | _ \<Rightarrow> None))"

definition taken :: "submission \<Rightarrow> BundlerSigner \<Rightarrow> SignedTx list" where
  "taken c s =
     (case built c s of None \<Rightarrow> []
      | Some stx \<Rightarrow> if SendTransaction (subClient c) stx = None then [stx] else [])"

fun submitAll :: "submission list \<Rightarrow> BundlerSigner \<Rightarrow> SignedTx list \<times> BundlerSigner" where
  "submitAll [] s = ([], s)"
| "submitAll (c # cs) s =
     (let (txs, s') = submitAll cs (snd (submit c s)) in (taken c s @ txs, s'))"

text \<open>The nonce a submission resynchronises to: the node refused its nonce and answered the pending one.\<close>

definition resyncs :: "submission \<Rightarrow> BundlerSigner \<Rightarrow> uint64 option" where
  "resyncs c s =
     (case built c s of None \<Rightarrow> None
      | Some stx \<Rightarrow>
         (case SendTransaction (subClient c) stx of None \<Rightarrow> None
          | Some er \<Rightarrow>
              if isNonceTooLow er
              then (case PendingNonceAt (subClient c) (signerAddress s) of Inr n \<Rightarrow> Some n | Inl _ \<Rightarrow> None)
              else None))"

fun noResync :: "submission list \<Rightarrow> BundlerSigner \<Rightarrow> bool" where
  "noResync [] s = True"
| "noResync (c # cs) s = (resyncs c s = None \<and> noResync cs (snd (submit c s)))"

lemma submit_cases:
  obtains (accepted) stx where "built c s = Some stx" "taken c s = [stx]" "resyncs c s = None" "submit c s = (Ok (signedHash stx), s\<lparr>pendingNonce := pendingNonce s + 1\<rparr>)"
    | (resynced) n where "taken c s = []" "resyncs c s = Some n"
        "\<not> is_ok (fst (submit c s))" "snd (submit c s) = s\<lparr>pendingNonce := n\<rparr>"
    | (refused) "taken c s = []" "resyncs c s = None" "\<not> is_ok (fst (submit c s))" "snd (submit c s) = s"
proof (cases "built c s")
  case None
  then have "taken c s = []" "resyncs c s = None" "\<not> is_ok (fst (submit c s)) \<and> snd (submit c s) = s"
    by (auto simp: taken_def resyncs_def built_def submit_def signAndSubmit_def split: sum.splits option.splits)
  then show ?thesis by (intro refused) simp_all
next
  case (Some stx)
  show ?thesis
  proof (cases "SendTransaction (subClient c) stx")
    case None
    with Some show ?thesis
      by (intro accepted) (auto simp: taken_def resyncs_def built_def submit_def signAndSubmit_def split: sum.splits option.splits)
  next
    case (Some er)
    from \<open>built c s = Some stx\<close> Some have t: "taken c s = []" by (simp add: taken_def)
    have f: "\<not> is_ok (fst (submit c s))" and n: "snd (submit c s) = (if isNonceTooLow er then
        (case PendingNonceAt (subClient c) (signerAddress s) of Inr n \<Rightarrow> s\<lparr>pendingNonce := n\<rparr> | Inl _ \<Rightarrow> s) else s)"
      using \<open>built c s = Some stx\<close> Some
      by (auto simp: built_def submit_def signAndSubmit_def split: sum.splits option.splits)
    have r: "resyncs c s = (if isNonceTooLow er then
        (case PendingNonceAt (subClient c) (signerAddress s) of Inr n \<Rightarrow> Some n | Inl _ \<Rightarrow> None) else None)"
      using \<open>built c s = Some stx\<close> Some by (simp add: resyncs_def)
    show ?thesis
    proof (cases "resyncs c s")
      case None
      with t f n r show ?thesis by (intro refused) (auto split: sum.splits if_splits)
    next
      case (Some m)
      with t f n r show ?thesis by (intro resynced [of m]) (auto split: sum.splits if_splits)
    qed
  qed
qed

lemma built_key: "key_ok (signerKey s) \<Longrightarrow> built c s = Some stx \<Longrightarrow>
    \<exists>tip base. signedTx stx = bundleTx s (subTo c) (subData c) (subGas c) tip base \<and> length (signedHash stx) = 32"
  by (fastforce simp: built_def key_ok_def split: sum.splits option.splits)

lemma submit_keeps [simp]: "signerKey (snd (submit c s)) = signerKey s" "signerChainID (snd (submit c s)) = signerChainID s"
  by (cases rule: submit_cases [of c s]; simp)+

lemma asSigner_wf:
  assumes "key_ok (signerKey s)" shows "wf_signer (asSigner client s)"
proof -
  have "length tx = 32" if "fst (signAndSubmit client to d g s) = Ok tx" for to d g tx
  proof -
    define c where "c = \<lparr>subClient = client, subTo = to, subData = d, subGas = g\<rparr>"
    with that have "fst (submit c s) = Ok tx" by (simp add: submit_def)
    then show ?thesis
      using built_key [OF assms] by (cases rule: submit_cases [of c s]) auto
  qed
  then show ?thesis by (simp add: wf_signer_def asSigner_def)
qed

lemma SignHash_recovery_id:
  assumes "key_ok (signerKey s)" "SignHash s h = Ok sig"
  shows "length sig = 65 \<and> sig ! 64 \<in> {27, 28}"
proof -
  obtain raw where raw: "cryptoSign (signerKey s) h = Inr raw" "sig = raw[64 := raw ! 64 + 27]"
    using assms(2) by (auto simp: SignHash_def ethSign_def split: sum.splits if_splits)
  then have "length raw = 65" "raw ! 64 = 0 \<or> raw ! 64 = 1" using assms(1) by (auto simp: key_ok_def)
  with raw(2) show ?thesis by auto
qed

text \<open>Sequences in parts, what every transaction taken is, and the nonces of a part without resynchronisation.\<close>

lemma submitAll_append:
  "submitAll (cs @ cs') s =
     (fst (submitAll cs s) @ fst (submitAll cs' (snd (submitAll cs s))), snd (submitAll cs' (snd (submitAll cs s))))"
  by (induction cs arbitrary: s) (simp_all add: case_prod_beta)

lemma submitAll_keeps [simp]:
  "signerKey (snd (submitAll cs s)) = signerKey s" "signerChainID (snd (submitAll cs s)) = signerChainID s"
  by (induction cs arbitrary: s) (simp_all add: case_prod_beta)

definition callOf :: "BundlerSigner \<Rightarrow> submission \<Rightarrow> SignedTx \<Rightarrow> bool" where
  "callOf s c t \<longleftrightarrow> (\<exists>nonce tip base. signedTx t =
     \<lparr>txChainID = signerChainID s, txNonce = nonce, txGasTipCap = tip, txGasFeeCap = 2 * base + tip,
      txGas = subGas c, txTo = subTo c, txData = subData c\<rparr>)"

lemma taken_callOf: "key_ok (signerKey s) \<Longrightarrow> t \<in> set (taken c s) \<Longrightarrow> callOf s c t"
  using built_key [of s c] by (cases rule: submit_cases [of c s]) (auto simp: callOf_def bundleTx_def)

lemma submitAll_callOf:
  "key_ok (signerKey s) \<Longrightarrow> t \<in> set (fst (submitAll cs s)) \<Longrightarrow> \<exists>c \<in> set cs. callOf s c t"
proof (induction cs arbitrary: s)
  case (Cons c cs)
  have same: "callOf (snd (submit c s)) = callOf s" by (simp add: callOf_def fun_eq_iff)
  from Cons.prems(2) consider "t \<in> set (taken c s)" | "t \<in> set (fst (submitAll cs (snd (submit c s))))"
    by (auto simp: case_prod_beta)
  then show ?case
    by cases (use taken_callOf [OF Cons.prems(1)] Cons.IH [of "snd (submit c s)"] Cons.prems(1) same in auto)
qed simp

lemma consecutive_nonces:
  "key_ok (signerKey s) \<Longrightarrow> noResync cs s \<Longrightarrow> submitAll cs s = (txs, s') \<Longrightarrow>
     map (\<lambda>t. txNonce (signedTx t)) txs = map (\<lambda>i. pendingNonce s + of_nat i) [0..<length txs] \<and>
     pendingNonce s' = pendingNonce s + of_nat (length txs)"
proof (induction cs arbitrary: s txs)
  case (Cons c cs)
  obtain txs1 where rest: "submitAll cs (snd (submit c s)) = (txs1, s')" and txs: "txs = taken c s @ txs1"
    using Cons.prems(3) by (auto split: prod.splits)
  note IH = Cons.IH [OF _ _ rest]
  show ?case
  proof (cases rule: submit_cases [of c s])
    case (accepted stx)
    obtain tip base where b: "signedTx stx = bundleTx s (subTo c) (subData c) (subGas c) tip base"
      using built_key [OF Cons.prems(1) accepted(1)] by blast
    have "map (\<lambda>i. pendingNonce s + of_nat i) [0..<Suc (length txs1)] =
        pendingNonce s # map (\<lambda>i. pendingNonce s + 1 + of_nat i) [0..<length txs1]"
      by (simp add: upt_conv_Cons map_Suc_upt [symmetric] add.assoc del: upt_Suc)
    with IH Cons.prems accepted b show ?thesis
      by (simp add: txs bundleTx_def ac_simps del: upt_Suc)
  next
    case (resynced n)
    with Cons.prems show ?thesis by simp
  next
    case refused
    with IH Cons.prems show ?thesis by (simp add: txs)
  qed
qed simp

section \<open>Properties\<close>

text \<open>
C17: however many submissions fail, from the start and again from every resynchronisation with the node on,
the transactions the node takes from this signer carry consecutive nonces, none skipped and none reused, until the
next resynchronisation; the first nonce is the pending one, or the one the node answered after it had refused
a nonce. Every transaction is a call of its submission for this chain with a fee cap of
twice the base fee plus the tip.
\<close>

theorem submissions_take_consecutive_nonces:
  assumes key: "key_ok (signerKey s)" and run: "submitAll (before @ after) s = (txs, s')"
    and since: "noResync after (snd (submitAll before s))"
    and first: "(before = [] \<and> first = pendingNonce s) \<or>
      (\<exists>cs c. before = cs @ [c] \<and> resyncs c (snd (submitAll cs s)) = Some first)"
  shows "(\<exists>late. txs = fst (submitAll before s) @ late \<and>
      map (\<lambda>t. txNonce (signedTx t)) late = map (\<lambda>i. first + of_nat i) [0..<length late] \<and>
      pendingNonce s' = first + of_nat (length late)) \<and>
    (\<forall>t \<in> set txs. \<exists>c \<in> set (before @ after). \<exists>nonce tip base. signedTx t =
       \<lparr>txChainID = signerChainID s, txNonce = nonce, txGasTipCap = tip, txGasFeeCap = 2 * base + tip,
        txGas = subGas c, txTo = subTo c, txData = subData c\<rparr>)"
proof
  let ?s = "snd (submitAll before s)"
  have "pendingNonce ?s = first"
    using first
  proof
    assume "\<exists>cs c. before = cs @ [c] \<and> resyncs c (snd (submitAll cs s)) = Some first"
    then obtain cs c where c: "before = cs @ [c]" "resyncs c (snd (submitAll cs s)) = Some first" by blast
    then show ?thesis
      by (cases rule: submit_cases [of c "snd (submitAll cs s)"]) (auto simp: submitAll_append case_prod_beta)
  qed simp
  moreover have "submitAll after ?s = (fst (submitAll after ?s), s')" using run by (simp add: submitAll_append prod_eq_iff)
  ultimately show "\<exists>late. txs = fst (submitAll before s) @ late \<and>
      map (\<lambda>t. txNonce (signedTx t)) late = map (\<lambda>i. first + of_nat i) [0..<length late] \<and>
      pendingNonce s' = first + of_nat (length late)"
    using consecutive_nonces [OF _ since, of "fst (submitAll after ?s)" s'] key run by (auto simp: submitAll_append)
  show "\<forall>t \<in> set txs. \<exists>c \<in> set (before @ after). \<exists>nonce tip base. signedTx t =
       \<lparr>txChainID = signerChainID s, txNonce = nonce, txGasTipCap = tip, txGasFeeCap = 2 * base + tip,
        txGas = subGas c, txTo = subTo c, txData = subData c\<rparr>"
    using submitAll_callOf [OF key, of _ "before @ after"] run by (simp add: callOf_def)
qed

definition flakyNode :: "bool \<Rightarrow> NodeClient" where
  "flakyNode up = \<lparr>BalanceAt = (\<lambda>_. Inr (10 ^ 18)), PendingNonceAt = (\<lambda>_. Inr 5), SuggestGasTipCap = Inr 2,
     HeaderBaseFee = Inr (Some 10),
     SendTransaction = (\<lambda>_. if up then None else Some \<lparr>neText = ''timeout'', neIsNotFound = False\<rparr>)\<rparr>"

text \<open>A node that refuses the nonce and answers that 9 is the next one.\<close>

definition aheadNode :: NodeClient where
  "aheadNode = (flakyNode False)\<lparr>PendingNonceAt := (\<lambda>_. Inr 9),
     SendTransaction := (\<lambda>_. Some \<lparr>neText = ''nonce too low'', neIsNotFound = False\<rparr>)\<rparr>"

definition plainKey :: Key where
  "plainKey = \<lparr>keyAddress = replicate 20 7, SignTx = (\<lambda>tx. Inr \<lparr>signedTx = tx, signedHash = replicate 32 1\<rparr>),
     cryptoSign = (\<lambda>h. Inr (replicate 65 0))\<rparr>"

definition callVia :: "NodeClient \<Rightarrow> submission" where
  "callVia node = \<lparr>subClient = node, subTo = replicate 20 4, subData = [1], subGas = 100\<rparr>"

definition flakyCalls :: "submission list" where
  "flakyCalls = map (\<lambda>up. callVia (flakyNode up)) [True, False, True]"

definition refusedCall :: submission where
  "refusedCall = callVia aheadNode"

lemma plainKey_ok [simp]: "key_ok plainKey"
  by (simp add: key_ok_def plainKey_def)

lemmas send_defs = callVia_def flakyNode_def aheadNode_def flakyCalls_def refusedCall_def plainKey_def
  resyncs_def taken_def built_def submit_def signAndSubmit_def bundleTx_def

lemma sample_nonce_errors: "\<not> isNonceTooLow \<lparr>neText = ''timeout'', neIsNotFound = False\<rparr>"
    "isNonceTooLow \<lparr>neText = ''nonce too low'', neIsNotFound = False\<rparr>"
  by code_simp+

theorem submissions_take_consecutive_nonces_witness:
  "map (\<lambda>t. txNonce (signedTx t)) (fst (submitAll flakyCalls \<lparr>signerKey = plainKey, signerChainID = 1, pendingNonce = 5\<rparr>)) = [5, 6] \<and>
   map (\<lambda>t. txNonce (signedTx t)) (fst (submitAll (refusedCall # flakyCalls) \<lparr>signerKey = plainKey, signerChainID = 1, pendingNonce = 5\<rparr>)) = [9, 10]"
proof -
  let ?s = "\<lparr>signerKey = plainKey, signerChainID = 1, pendingNonce = 5\<rparr>"
  have n: "noResync flakyCalls ?s" "noResync flakyCalls (snd (submitAll [refusedCall] ?s))"
    "length (fst (submitAll flakyCalls ?s)) = 2" "length (fst (submitAll flakyCalls (snd (submitAll [refusedCall] ?s)))) = 2"
    by (simp_all add: send_defs sample_nonce_errors)
  have r: "resyncs refusedCall (snd (submitAll [] ?s)) = Some 9" "fst (submitAll [refusedCall] ?s) = []"
    by (simp_all add: send_defs sample_nonce_errors)
  obtain txs s' where cold: "submitAll ([] @ flakyCalls) ?s = (txs, s')" by (metis surj_pair)
  obtain txs' s'' where synced: "submitAll ([refusedCall] @ flakyCalls) ?s = (txs', s'')" by (metis surj_pair)
  have two: "length txs = 2" "length txs' = 2" using cold synced n r by (simp_all add: submitAll_append)
  have [simp]: "[0..<2] = [0, 1]" by (simp add: numeral_2_eq_2)
  show ?thesis
    using submissions_take_consecutive_nonces [OF _ cold, of 5] submissions_take_consecutive_nonces [OF _ synced, of 9]
      n r cold synced two by (auto simp: submitAll_append)
qed

section \<open>Printed balances\<close>

text \<open>A balance is printed in ether to the nearest sixth decimal: the rounding to binary before is never visible.\<close>

theorem balance_printed_to_nearest:
  assumes "0 \<le> w"
  shows "\<exists>d. weiToEthString w = Text 10 (d div 10 ^ 6) @ ''.'' @ padDigits 6 (Text 10 (d mod 10 ^ 6)) \<and>
    \<bar>d * 10 ^ 12 - w\<bar> \<le> 5 * 10 ^ 11"
proof -
  let ?x = "Quo (SetInt w) (SetInt (10 ^ 18))"
  have "\<not> fMant ?x < 0" using assms
    by (auto simp: Quo_def SetInt_def scale2_def Let_def not_less intro!: roundQuot_nonneg)
  then show ?thesis
    using ether_decimals [OF assms] by (intro exI [of _ "decimals 6 ?x"]) (simp add: weiToEthString_def TextF_def Let_def)
qed

text \<open>
  So a balance a little below the critical threshold is refused with the text of the threshold itself:
  \<open>0.010000 ETH below critical threshold 0.01 ETH\<close>. The other values are those of \<open>TestWeiToEthString\<close>.
\<close>

lemma printed_balances:
  "weiToEthString (criticalThreshold - 1) = ''0.010000''" "weiToEthString warnThreshold = ''0.050000''"
  "weiToEthString (10 ^ 18) = ''1.000000''" "weiToEthString 0 = ''0.000000''"
  by code_simp+

end
