(* ===== verification/Startup.thy ===== *)
theory Startup
  imports RpcProps Keystore BundlingProps
begin

text \<open>
  \<open>run\<close> of \<open>cmd/bundler/main.go\<close> up to the start of its goroutines, with \<open>Open\<close> of the mempool and
  \<open>Open\<close> of the sponsor store: the order of the steps and how the components are built from the
  configuration. Dialling the node and the failures of the set-up statements are parameters. The
  goroutines themselves are the steps of \<open>Lifecycle\<close> and the requests of \<open>Rpc\<close>.
\<close>

section \<open>Opening the database\<close>

text \<open>The four set-up steps are opening, the two pragmas and the schema, which keeps existing rows.\<close>

definition OpenRepo :: "dbenv \<Rightarrow> unit res" where
  "OpenRepo e =
     (case fault e 0 of Some x \<Rightarrow> Err (ErrWrap ''open sqlite'' (ErrExt x)) | None \<Rightarrow>
     (case fault e 1 of Some x \<Rightarrow> Err (ErrWrap ''set WAL mode'' (ErrExt x)) | None \<Rightarrow>
     (case fault e 2 of Some x \<Rightarrow> Err (ErrWrap ''enable foreign keys'' (ErrExt x)) | None \<Rightarrow>
     (case fault e 3 of Some x \<Rightarrow> Err (ErrWrap ''apply schema'' (ErrExt x)) | None \<Rightarrow> Ok ()))))"

definition OpenSponsor :: "dbenv \<Rightarrow> unit res" where
  "OpenSponsor e = wrap_err ''migrate sponsor tables'' (stmt e 0)"

section \<open>The components\<close>

text \<open>A connection to the node, as each component uses it.\<close>

record Connection =
  connBundle :: BundleClient
  connNode :: NodeClient
  connEstimate :: "CallMsg \<Rightarrow> uint64 res"
  connCall :: "address \<Rightarrow> bytes \<Rightarrow> nodeError + bytes"

record Bundler =
  bMethods :: "(dbenv, table) Methods"
  bSigner :: BundlerSigner
  bLoop :: BundlingLoop
  bWatcher :: ReceiptWatcher
  bPruner :: Pruner
  bApiKey :: string
  bListen :: string

definition first :: "'a list \<Rightarrow> 'a res" where
  "first xs = (case xs of [] \<Rightarrow> Panic ''runtime error: index out of range'' | x # _ \<Rightarrow> Ok x)"

definition buildBundler :: "ethlib \<Rightarrow> BundlerConfig \<Rightarrow> Connection \<Rightarrow> BundlerSigner \<Rightarrow> address \<Rightarrow> address \<Rightarrow> Bundler" where
  "buildBundler L cfg conn s ep pm =
     (let v = newValidator (AllowedPaymasters cfg) (MaxVerificationGas cfg) (MaxCallGas cfg);
          service = newPaymaster (SponsorGating cfg) pm (ChainID cfg);
          tickInterval = wrap64 (TickIntervalMs cfg * 1000000)
      in
      \<lparr>bMethods = NewMethods \<lparr>mcEntryPoints = EntryPoints cfg, mcChainID = ChainID cfg\<rparr>
         v (sqliteRepo L) (connEstimate conn) service (connCall conn) (SignHash s),
       bSigner = s,
       bLoop = NewLoop ep (MaxBundleSize cfg) tickInterval,
       bWatcher = NewWatcher ep (5 * 1000000000),
       bPruner = NewPruner (PendingTtlMs cfg) (RetentionMs cfg),
       bApiKey = ProverAPIKey cfg, bListen = ListenAddr cfg\<rparr>)"

lemmas build_defs = buildBundler_def NewMethods_def NewLoop_def NewWatcher_def NewPruner_def newPaymaster_def

text \<open>
  \<open>run\<close>: the path of the configuration, then the steps in the order of the code. \<open>dial\<close> is
  \<open>ethclient.Dial\<close>; \<open>eo\<close>, \<open>es\<close> and \<open>ep\<close> are the environments of opening, of the
  reconciliation and of the sponsor tables.
\<close>

definition resolvePath :: "os \<Rightarrow> string \<Rightarrow> string" where
  "resolvePath os configPath =
     (let configPath = (if configPath = [] then Getenv os ''BUNDLER_CONFIG'' else configPath)
      in if configPath = [] then ''./bundler.toml'' else configPath)"

definition connect :: "(string \<Rightarrow> string + Connection) \<Rightarrow> string \<Rightarrow> Connection res" where
  "connect dial url = (case dial url of Inl x \<Rightarrow> Err (ErrWrap ''connect to node'' (ErrExt x)) | Inr c \<Rightarrow> Ok c)"

definition buildLogger :: "os \<Rightarrow> unit res" where
  "buildLogger os =
     (let dev = (Getenv os ''BUNDLER_DEV'' = ''1'') in
      if dev then (case ZapBuild os DevelopmentConfig of Some x \<Rightarrow> Err (ErrExt x) | None \<Rightarrow> Ok ())
      else
        let lvl = Getenv os ''BUNDLER_LOG_LEVEL'';
            cfg = ProductionConfig
              (if lvl = ''debug'' then DebugLevel
               else if lvl = ''warn'' then WarnLevel
               else if lvl = ''error'' then ErrorLevel
               else InfoLevel)
        in (case ZapBuild os cfg of Some x \<Rightarrow> Err (ErrExt x) | None \<Rightarrow> Ok ()))"

text \<open>Steps 1 to 6 and the choice of the entry point; none of them touches the rows of the database.\<close>

definition prepare ::
    "ethlib \<Rightarrow> (bytes \<Rightarrow> string + BundlerConfig) \<Rightarrow> (string \<Rightarrow> string + Connection) \<Rightarrow> (bytes \<Rightarrow> string \<Rightarrow> string + Key) \<Rightarrow>
     os \<Rightarrow> dbenv \<Rightarrow> string \<Rightarrow> (BundlerConfig \<times> Connection \<times> BundlerSigner \<times> address) res" where
  "prepare L unmarshal dial DecryptKey os eo configPath =
     bind_res (wrap_err ''load config'' (Load unmarshal os (resolvePath os configPath))) (\<lambda>cfg.
     bind_res (wrap_err ''build logger'' (buildLogger os)) (\<lambda>_.
     bind_res (wrap_err ''open database'' (OpenRepo eo)) (\<lambda>_.
     bind_res (connect dial (RpcURL cfg)) (\<lambda>conn.
     bind_res (wrap_err ''load signer''
       (LoadKey L os DecryptKey (ExpandPath os (KeystorePath cfg)) (ExpectedAddress cfg) (ChainID cfg))) (\<lambda>s.
     bind_res (wrap_err ''balance check'' (checkBalance (connNode conn) s)) (\<lambda>_.
     bind_res (first (EntryPoints cfg)) (\<lambda>ep. Ok (cfg, conn, s, ep))))))))"

text \<open>Steps 8 and 9.\<close>

definition assemble ::
    "ethlib \<Rightarrow> dbenv \<Rightarrow> BundlerConfig \<Rightarrow> Connection \<Rightarrow> BundlerSigner \<Rightarrow> address \<Rightarrow> Bundler res" where
  "assemble L esp cfg conn s ep =
     (let (r, s) = InitNonce (connNode conn) s in
      bind_res (wrap_err ''init nonce'' r) (\<lambda>_.
      bind_res (if SponsorGating cfg then wrap_err ''init sponsor store'' (OpenSponsor esp) else Ok ()) (\<lambda>_.
      bind_res (first (AllowedPaymasters cfg)) (\<lambda>pm.
      Ok (buildBundler L cfg conn s ep pm)))))"

definition run ::
    "ethlib \<Rightarrow> (bytes \<Rightarrow> string + BundlerConfig) \<Rightarrow> (string \<Rightarrow> string + Connection) \<Rightarrow> (bytes \<Rightarrow> string \<Rightarrow> string + Key) \<Rightarrow>
     os \<Rightarrow> ((hash \<times> StoredOp list) list \<Rightarrow> (hash \<times> StoredOp list) list) \<Rightarrow> dbenv \<Rightarrow> (nat \<Rightarrow> dbenv) \<Rightarrow> dbenv \<Rightarrow> string \<Rightarrow> table \<Rightarrow>
     Bundler res \<times> table" where
  "run L unmarshal dial DecryptKey os order eo es esp configPath t =
     (case prepare L unmarshal dial DecryptKey os eo configPath of
        Err er \<Rightarrow> (Err er, t)
      | Panic m \<Rightarrow> (Panic m, t)
      | Ok (cfg, conn, s, ep) \<Rightarrow>
         (let (r, t) = Reconcile L (sqliteRepo L) (connBundle conn) ep order es t
          in (bind_res (wrap_err ''reconcile'' r) (\<lambda>_. assemble L esp cfg conn s ep), t)))"

text \<open>
  \<open>main\<close>: the exit status and the error on standard error, for the result of \<open>run\<close>, which returns \<open>nil\<close> after the
  signal; a panic ends the process with status 2.
\<close>

definition bundlerMain :: "unit res \<Rightarrow> nat \<times> error option" where
  "bundlerMain r =
     (case r of
        Ok _ \<Rightarrow> (0, None)
      | Err er \<Rightarrow> (1, Some (ErrWrap ''bundler'' er))
      | Panic m \<Rightarrow> (2, Some (ErrText m)))"

section \<open>What a successful start guarantees\<close>

lemma Reconcile_Ok:
  assumes L: "ethlib_ok L" and t: "table_inv L t" and o: "isOrder order"
    and r: "Reconcile L (sqliteRepo L) client ep order es t = (Ok (), t')"
  shows "table_inv L t' \<and> (\<forall>h op. tableView L t' h = Some op \<longrightarrow> OpStatus op \<noteq> StatusBundling)"
proof -
  obtain n t1 where reset: "ResetBundlingToPending (es 0) t = (Ok n, t1)"
    using r by (auto simp: Reconcile_def sqliteRepo_def split: prod.splits res.splits)
  obtain qs where got: "rGetByStatus (sqliteRepo L) (es 1) StatusSubmitted t1 = Ok qs"
    using r reset by (auto simp: Reconcile_def sqliteRepo_def split: res.splits)
  note v = ResetBundlingToPending_ok [OF L t reset]
  then have t1: "table_inv L t1" by simp
  have b1: "OpStatus op \<noteq> StatusBundling" if "tableView L t1 h = Some op" for h op
    using that v by (cases "tableView L t h") (auto dest: arg_cong [of _ _ OpStatus] split: if_splits)
  have t': "t' = (if qs = [] then t1 else snd (settleEach L (sqliteRepo L) client ep es 2 (order (groupByTx qs [])) t1))"
    using r got reset by (auto simp: Reconcile_def sqliteRepo_def)
  show ?thesis
  proof (cases "qs = []")
    case False
    let ?t = "snd (settleEach L (sqliteRepo L) client ep es 2 (order (groupByTx qs [])) t1)"
    note safe = repository.settle_safe [OF sqlite_repository [OF L] t1 got o, of L client ep es 2]
    have "OpStatus op \<noteq> StatusBundling" if "tableView L ?t h = Some op" for h op
      using safe [THEN conjunct2, rule_format, of h] b1 [of h op] that by auto
    with safe False t' show ?thesis by simp
  qed (use t' t1 b1 in simp)
qed

lemma first_Ok: "first xs = Ok x \<longleftrightarrow> xs \<noteq> [] \<and> hd xs = x"
  by (cases xs) (auto simp: first_def)

lemma LoadKey_Ok:
  "LoadKey L os dec path ex c = Ok s \<Longrightarrow> (\<forall>a. ex = Some a \<longrightarrow> signerAddress s = a) \<and> signerChainID s = uint c"
  by (auto simp: LoadKey_def signerAddress_def Let_def split: sum.splits if_splits option.splits)

lemma InitNonce_Ok:
  "InitNonce client s = (Ok (), s') \<Longrightarrow> PendingNonceAt client (signerAddress s') = Inr (pendingNonce s') \<and>
     signerAddress s' = signerAddress s \<and> signerChainID s' = signerChainID s"
  by (auto simp: InitNonce_def signerAddress_def split: sum.splits)

text \<open>The steps of a successful start.\<close>

lemma run_Ok:
  assumes r: "run L unmarshal dial DecryptKey os order eo es esp configPath t = (Ok b, t')"
  obtains cfg conn s s' ep pm where "Load unmarshal os (resolvePath os configPath) = Ok cfg" "dial (RpcURL cfg) = Inr conn"
    "LoadKey L os DecryptKey (ExpandPath os (KeystorePath cfg)) (ExpectedAddress cfg) (ChainID cfg) = Ok s"
    "checkBalance (connNode conn) s = Ok ()" "first (EntryPoints cfg) = Ok ep"
    "Reconcile L (sqliteRepo L) (connBundle conn) ep order es t = (Ok (), t')"
    "InitNonce (connNode conn) s = (Ok (), s')" "first (AllowedPaymasters cfg) = Ok pm" "b = buildBundler L cfg conn s' ep pm"
proof -
  obtain cfg conn s ep where prep: "prepare L unmarshal dial DecryptKey os eo configPath = Ok (cfg, conn, s, ep)"
    and go: "(let (r, t) = Reconcile L (sqliteRepo L) (connBundle conn) ep order es t
       in (bind_res (wrap_err ''reconcile'' r) (\<lambda>_. assemble L esp cfg conn s ep), t)) = (Ok b, t')"
    using r by (auto simp: run_def split: res.splits)
  have steps: "Load unmarshal os (resolvePath os configPath) = Ok cfg" "dial (RpcURL cfg) = Inr conn"
      "LoadKey L os DecryptKey (ExpandPath os (KeystorePath cfg)) (ExpectedAddress cfg) (ChainID cfg) = Ok s"
      "checkBalance (connNode conn) s = Ok ()" "first (EntryPoints cfg) = Ok ep"
    using prep by (auto simp: prepare_def connect_def split: sum.splits)
  have rec: "Reconcile L (sqliteRepo L) (connBundle conn) ep order es t = (Ok (), t')"
    and as: "assemble L esp cfg conn s ep = Ok b" using go by (auto simp: Let_def split: prod.splits)
  obtain s' pm where "InitNonce (connNode conn) s = (Ok (), s')"
      "first (AllowedPaymasters cfg) = Ok pm" "b = buildBundler L cfg conn s' ep pm"
    using as by (auto simp: assemble_def split: prod.splits)
  with steps rec show ?thesis by (rule that)
qed

text \<open>
C10: when the program starts successfully, on any database it was left with, no operation is in status
bundling any more; the loop and the watcher work on a configured entry point, the service signs for a
paymaster that the validator accepts, on the chain of the configuration; and the key is the expected
one, with at least the critical balance and the nonce the node expects next.
\<close>

theorem startup_ready:
  assumes L: "ethlib_ok L" and t: "table_inv L t" and o: "isOrder order"
    and r: "run L unmarshal dial DecryptKey os order eo es esp configPath t = (Ok b, t')"
  shows "table_inv L t' \<and> (\<forall>h op. tableView L t' h = Some op \<longrightarrow> OpStatus op \<noteq> StatusBundling) \<and>
    entryPoint (bLoop b) \<in> set (mcEntryPoints (mCfg (bMethods b))) \<and> watchEntryPoint (bWatcher b) = entryPoint (bLoop b) \<and>
    paymasterAddress (mPaymaster (bMethods b)) \<in> allowedPaymasters (mValidator (bMethods b)) \<and>
    chainID (mPaymaster (bMethods b)) = mcChainID (mCfg (bMethods b)) \<and>
    signerChainID (bSigner b) = uint (mcChainID (mCfg (bMethods b))) \<and>
    (\<exists>cfg conn balance. Load unmarshal os (resolvePath os configPath) = Ok cfg \<and> dial (RpcURL cfg) = Inr conn \<and>
       (\<forall>a. ExpectedAddress cfg = Some a \<longrightarrow> signerAddress (bSigner b) = a) \<and>
       BalanceAt (connNode conn) (signerAddress (bSigner b)) = Inr balance \<and> 10 ^ 16 \<le> balance \<and>
       PendingNonceAt (connNode conn) (signerAddress (bSigner b)) = Inr (pendingNonce (bSigner b)))"
proof -
  obtain cfg conn s s' ep pm where steps: "Load unmarshal os (resolvePath os configPath) = Ok cfg" "dial (RpcURL cfg) = Inr conn"
      "LoadKey L os DecryptKey (ExpandPath os (KeystorePath cfg)) (ExpectedAddress cfg) (ChainID cfg) = Ok s"
      "checkBalance (connNode conn) s = Ok ()" "first (EntryPoints cfg) = Ok ep"
    and rec: "Reconcile L (sqliteRepo L) (connBundle conn) ep order es t = (Ok (), t')"
    and nonce: "InitNonce (connNode conn) s = (Ok (), s')" and pm: "first (AllowedPaymasters cfg) = Ok pm"
    and b: "b = buildBundler L cfg conn s' ep pm" by (rule run_Ok [OF r])
  obtain balance where "BalanceAt (connNode conn) (signerAddress s) = Inr balance" "10 ^ 16 \<le> balance"
    using steps(4) by (auto simp: checkBalance_def criticalThreshold_def split: sum.splits if_splits)
  then show ?thesis
    using Reconcile_Ok [OF L t o rec] steps pm InitNonce_Ok [OF nonce] LoadKey_Ok [OF steps(3)]
    by (auto simp: b build_defs first_Ok Let_def)
qed

definition sampleConnection :: Connection where
  "sampleConnection = \<lparr>connBundle = minedClient, connNode = flakyNode True, connEstimate = (\<lambda>_. Ok 21000), connCall = yesNode\<rparr>"

definition startOs :: os where
  "startOs = \<lparr>ReadFile = (\<lambda>_. Inr []), Getenv = (\<lambda>v. if v = ''BUNDLER_KEYSTORE_PASSWORD'' then ''secret'' else []),
     UserHomeDir = Inr ''/root'', ZapBuild = (\<lambda>_. None)\<rparr>"

lemma Reconcile_empty: "Reconcile L (sqliteRepo L) client ep rev (\<lambda>_. calmEnv) [] = (Ok (), [])"
  by (simp add: Reconcile_def sqliteRepo_def ResetBundlingToPending_def GetByStatus_def execUpdate_def execSelect_def
      constraintsOk_def scanOps_def calmEnv_def)

definition startConfig :: BundlerConfig where
  "startConfig = applyEnvOverrides startOs (applyDefaults sampleFile)"

definition startSigner :: BundlerSigner where
  "startSigner = \<lparr>signerKey = plainKey, signerChainID = uint (ChainID startConfig), pendingNonce = 5\<rparr>"

lemma start_load: "Load (\<lambda>_. Inr sampleFile) startOs (resolvePath startOs []) = Ok startConfig"
proof -
  have "validate startConfig = Ok ()"
    by (simp add: startConfig_def validate_Ok_iff applyEnvOverrides_eq applyDefaults_fields) (simp add: sampleFile_def startOs_def)
  then show ?thesis by (simp add: Load_def Let_def startConfig_def) (simp add: startOs_def)
qed

lemma startConfig_fields [simp]: "EntryPoints startConfig = [replicate 20 4]" "AllowedPaymasters startConfig = [replicate 20 34]"
  "ExpectedAddress startConfig = None" "SponsorGating startConfig = False" "TickIntervalMs startConfig = 12000"
  by (simp_all add: startConfig_def applyEnvOverrides_eq applyDefaults_fields) (simp_all add: sampleFile_def)

lemma start_prepared:
  assumes "checkBalance (connNode conn) (startSigner\<lparr>pendingNonce := 0\<rparr>) = Ok ()"
  shows "prepare hexLib (\<lambda>_. Inr sampleFile) (\<lambda>_. Inr conn) (\<lambda>_ _. Inr plainKey) startOs calmEnv [] =
     Ok (startConfig, conn, startSigner\<lparr>pendingNonce := 0\<rparr>, replicate 20 4)"
proof -
  have "LoadKey hexLib startOs (\<lambda>_ _. Inr plainKey) path None (ChainID startConfig) = Ok (startSigner\<lparr>pendingNonce := 0\<rparr>)" for path
    by (simp add: LoadKey_def startOs_def startSigner_def)
  then show ?thesis
    by (simp add: prepare_def start_load connect_def first_def OpenRepo_def calmEnv_def assms)
      (simp add: buildLogger_def startOs_def)
qed

lemma sample_start:
  "run hexLib (\<lambda>_. Inr sampleFile) (\<lambda>_. Inr sampleConnection) (\<lambda>_ _. Inr plainKey) startOs rev calmEnv (\<lambda>_. calmEnv) calmEnv [] [] =
     (Ok (buildBundler hexLib startConfig sampleConnection startSigner (replicate 20 4) (replicate 20 34)), [])"
proof -
  have "checkBalance (connNode sampleConnection) s = Ok ()" for s
    by (simp add: checkBalance_def criticalThreshold_def sampleConnection_def flakyNode_def)
  then show ?thesis
    by (simp add: run_def start_prepared Reconcile_empty assemble_def InitNonce_def first_def)
      (simp add: sampleConnection_def flakyNode_def startSigner_def)
qed

theorem startup_ready_witness:
  "\<exists>b. run hexLib (\<lambda>_. Inr sampleFile) (\<lambda>_. Inr sampleConnection) (\<lambda>_ _. Inr plainKey) startOs rev calmEnv (\<lambda>_. calmEnv) calmEnv [] [] =
       (Ok b, []) \<and> entryPoint (bLoop b) = replicate 20 4 \<and>
     entryPoint (bLoop b) \<in> set (mcEntryPoints (mCfg (bMethods b))) \<and> pendingNonce (bSigner b) = 5"
  using startup_ready [OF hexLib_ok empty_table(1) isOrder_rev sample_start] sample_start
  by (simp add: build_defs startSigner_def Let_def)

end
