(* ===== verification/GoText.thy ===== *)
theory GoText
  imports GoLib
begin

text \<open>
  More of Go's standard library, used by the command-line client and the prover: \<open>TrimSpace\<close>, \<open>TrimSuffix\<close>
  and \<open>SplitN\<close> of \<open>strings\<close>, \<open>SetString\<close> of \<open>math/big\<close> with base 0, and \<open>RawURLEncoding\<close> of \<open>encoding/base64\<close>.
\<close>

section \<open>Package strings\<close>

text \<open>The characters of \<open>unicode.IsSpace\<close>, in UTF-8.\<close>

definition spaces :: "string list" where
  "spaces =
     [[CHR 0x09], [CHR 0x0A], [CHR 0x0B], [CHR 0x0C], [CHR 0x0D], [CHR 0x20],
      [CHR 0xC2, CHR 0x85], [CHR 0xC2, CHR 0xA0], [CHR 0xE1, CHR 0x9A, CHR 0x80],
      [CHR 0xE2, CHR 0x80, CHR 0x80], [CHR 0xE2, CHR 0x80, CHR 0x81], [CHR 0xE2, CHR 0x80, CHR 0x82],
      [CHR 0xE2, CHR 0x80, CHR 0x83], [CHR 0xE2, CHR 0x80, CHR 0x84], [CHR 0xE2, CHR 0x80, CHR 0x85],
      [CHR 0xE2, CHR 0x80, CHR 0x86], [CHR 0xE2, CHR 0x80, CHR 0x87], [CHR 0xE2, CHR 0x80, CHR 0x88],
      [CHR 0xE2, CHR 0x80, CHR 0x89], [CHR 0xE2, CHR 0x80, CHR 0x8A], [CHR 0xE2, CHR 0x80, CHR 0xA8],
      [CHR 0xE2, CHR 0x80, CHR 0xA9], [CHR 0xE2, CHR 0x80, CHR 0xAF], [CHR 0xE2, CHR 0x81, CHR 0x9F],
      [CHR 0xE3, CHR 0x80, CHR 0x80]]"

definition leading :: "string list \<Rightarrow> string \<Rightarrow> string option" where
  "leading ps s = find (\<lambda>p. p \<noteq> [] \<and> hasPrefix s p) ps"

function trimLeading :: "string list \<Rightarrow> string \<Rightarrow> string" where
  "trimLeading ps s = (case leading ps s of None \<Rightarrow> s | Some p \<Rightarrow> trimLeading ps (drop (length p) s))"
  by pat_completeness auto
termination
proof (relation "measure (\<lambda>(ps, s). length s)", simp, simp)
  fix ps :: "string list" and s p assume "leading ps s = Some p"
  then have "p \<noteq> []" "hasPrefix s p" by (auto simp: leading_def find_Some_iff)
  then show "length s - length p < length s" by (cases s) (auto simp: hasPrefix_def)
qed

declare trimLeading.simps [simp del]

definition TrimSpace :: "string \<Rightarrow> string" where
  "TrimSpace s = rev (trimLeading (map rev spaces) (rev (trimLeading spaces s)))"

definition hasSuffix :: "string \<Rightarrow> string \<Rightarrow> bool" where
  "hasSuffix s p = (length p \<le> length s \<and> drop (length s - length p) s = p)"

definition TrimSuffix :: "string \<Rightarrow> string \<Rightarrow> string" where
  "TrimSuffix s p = (if hasSuffix s p then take (length s - length p) s else s)"

text \<open>\<open>SplitN(s, sep, n)\<close> with a separator of one character and \<open>n > 0\<close>.\<close>

fun splitN :: "string \<Rightarrow> char \<Rightarrow> nat \<Rightarrow> string list" where
  "splitN s c 0 = []"
| "splitN s c (Suc 0) = [s]"
| "splitN s c (Suc (Suc n)) =
     (if c \<in> set s then takeWhile (\<lambda>x. x \<noteq> c) s # splitN (tl (dropWhile (\<lambda>x. x \<noteq> c) s)) c (Suc n)
      else [s])"

text \<open>\<open>Join\<close>.\<close>

fun joinStrings :: "string \<Rightarrow> string list \<Rightarrow> string" where
  "joinStrings sep [] = []"
| "joinStrings sep [s] = s"
| "joinStrings sep (s # t # r) = s @ sep @ joinStrings sep (t # r)"

section \<open>Package math/big: base 0\<close>

text \<open>
  With base 0 the prefix of the text selects the base (\<open>0b\<close>, \<open>0o\<close>, \<open>0x\<close> in either case, a bare \<open>0\<close> for octal,
  decimal otherwise), and underscores may stand between digits and after the prefix. As in
  \<open>nat.scan\<close>, \<open>prev\<close> is the class of the previous character: \<open>0\<close> a digit, \<open>_\<close> a separator, \<open>.\<close> anything
  else; the result has the class, whether a separator was misplaced, the number of digits, the
  value and the rest of the text.
\<close>

fun scanSep :: "int \<Rightarrow> char \<Rightarrow> bool \<Rightarrow> nat \<Rightarrow> int \<Rightarrow> string \<Rightarrow> char \<times> bool \<times> nat \<times> int \<times> string" where
  "scanSep b prev inval count acc [] = (prev, inval, count, acc, [])"
| "scanSep b prev inval count acc (c # cs) =
     (if c = CHR ''_'' then scanSep b c (inval \<or> prev \<noteq> CHR ''0'') count acc cs
      else
        (case digitVal c of
           Some d \<Rightarrow> if d < b then scanSep b (CHR ''0'') inval (Suc count) (acc * b + d) cs
                     else (prev, inval, count, acc, c # cs)
         | None \<Rightarrow> (prev, inval, count, acc, c # cs)))"

definition scanNat0 :: "string \<Rightarrow> int option" where
  "scanNat0 s =
     (let (b, octal, prev, count, rest) =
        (case s of
           c # cs \<Rightarrow>
             if c \<noteq> CHR ''0'' then (10, False, CHR ''.'', 0, s)
             else (case cs of
                 [] \<Rightarrow> (10, False, CHR ''0'', 1, [])
               | d # ds \<Rightarrow>
                   if d = CHR ''b'' \<or> d = CHR ''B'' then (2, False, CHR ''0'', 0, ds)
                   else if d = CHR ''o'' \<or> d = CHR ''O'' then (8, False, CHR ''0'', 0, ds)
                   else if d = CHR ''x'' \<or> d = CHR ''X'' then (16, False, CHR ''0'', 0, ds)
                   else (8, True, CHR ''0'', 0, cs))
         | [] \<Rightarrow> (10, False, CHR ''.'', 0, []));
          (prev, inval, count, n, rest) = scanSep b prev False count 0 rest
      in if inval \<or> prev = CHR ''_'' \<or> count = 0 \<and> \<not> octal \<or> rest \<noteq> [] then None else Some n)"

fun SetString0 :: "string \<Rightarrow> int option" where
  "SetString0 [] = None"
| "SetString0 (c # cs) =
     (if c = CHR ''-'' then map_option uminus (scanNat0 cs)
      else if c = CHR ''+'' then scanNat0 cs
      else scanNat0 (c # cs))"

section \<open>Package encoding/base64\<close>

definition sextet :: "char \<Rightarrow> int option" where
  "sextet c = (let k = of_char c :: int in
     if 65 \<le> k \<and> k \<le> 90 then Some (k - 65)
     else if 97 \<le> k \<and> k \<le> 122 then Some (k - 71)
     else if 48 \<le> k \<and> k \<le> 57 then Some (k + 4)
     else if c = CHR ''-'' then Some 62
     else if c = CHR ''_'' then Some 63
     else None)"

definition isNewline :: "char \<Rightarrow> bool" where
  "isNewline c = (c = CHR 0x0A \<or> c = CHR 0x0D)"

fun sextetBytes :: "int list \<Rightarrow> bytes" where
  "sextetBytes (a # b # c # d # r) =
     [word_of_int (a * 4 + b div 16), word_of_int (b * 16 + c div 4), word_of_int (c * 64 + d)] @ sextetBytes r"
| "sextetBytes [a, b, c] = [word_of_int (a * 4 + b div 16), word_of_int (b * 16 + c div 4)]"
| "sextetBytes [a, b] = [word_of_int (a * 4 + b div 16)]"
| "sextetBytes _ = []"

definition corruptInput :: "nat \<Rightarrow> error" where
  "corruptInput k = ErrFmt ''illegal base64 data at input byte %d'' [FInt (int k)]"

text \<open>
  \<open>RawURLEncoding.DecodeString\<close>: line breaks are skipped, the first other character outside the alphabet
  is the error, and a last group of one character is incomplete; unused bits are ignored.
\<close>

definition base64Decode :: "string \<Rightarrow> bytes res" where
  "base64Decode s =
     (let cs = filter (\<lambda>c. \<not> isNewline c) s in
      case find (\<lambda>i. \<not> isNewline (s ! i) \<and> sextet (s ! i) = None) [0..<length s] of
        Some i \<Rightarrow> Err (corruptInput i)
      | None \<Rightarrow>
          if length cs mod 4 = 1 then Err (corruptInput (length s - 1))
          else Ok (sextetBytes (map (\<lambda>c. the (sextet c)) cs)))"

section \<open>Digits\<close>

definition digits :: "string \<Rightarrow> bool" where
  "digits s \<longleftrightarrow> (\<forall>c \<in> set s. \<exists>d. digitVal c = Some d \<and> d < 10)"

lemma digit_cases: "digitVal c = Some d \<Longrightarrow> d < 10 \<Longrightarrow> 48 \<le> (of_char c :: int) \<and> (of_char c :: int) \<le> 57"
  by (auto simp: digitVal_def Let_def split: if_splits)

lemma digitVal_nonneg: "digitVal c = Some d \<Longrightarrow> 0 \<le> d"
  by (auto simp: digitVal_def Let_def split: if_splits)

text \<open>The value of a decimal text.\<close>

definition decimal :: "string \<Rightarrow> int" where
  "decimal s = foldl (\<lambda>a c. a * 10 + the (digitVal c)) 0 s"

lemma scanDigits_decimal:
  "digits s \<Longrightarrow> scanDigits 10 acc s = Some (foldl (\<lambda>a c. a * 10 + the (digitVal c)) acc s)"
  by (induction s arbitrary: acc) (auto simp: digits_def)

lemma SetString_decimal: "digits s \<Longrightarrow> s \<noteq> [] \<Longrightarrow> SetString 10 s = Some (decimal s)"
  by (cases s) (auto simp: scanNat_def scanDigits_decimal decimal_def digits_def digitVal_signs)

lemma decimal_append: "digits t \<Longrightarrow> decimal (s @ t) = decimal s * 10 ^ length t + decimal t"
proof (induction t rule: rev_induct)
  case (snoc c t)
  then have "decimal (s @ t) = decimal s * 10 ^ length t + decimal t" by (simp add: digits_def)
  then show ?case by (simp add: decimal_def algebra_simps)
qed (simp add: decimal_def)

lemma digit_graphic:
  assumes "digits s" "c \<in> set s"
  shows "48 \<le> (of_char c :: int)" "(of_char c :: int) \<le> 57"
  using assms digit_cases by (auto simp: digits_def)

lemma digits_simps [simp]:
  "digits []" "digits (c # s) \<longleftrightarrow> (\<exists>d. digitVal c = Some d \<and> d < 10) \<and> digits s" "digits (s @ t) \<longleftrightarrow> digits s \<and> digits t"
  by (auto simp: digits_def)

lemma digits_take: "digits s \<Longrightarrow> digits (take n s)"
  by (auto simp: digits_def dest: in_set_takeD)

lemma digits_drop: "digits s \<Longrightarrow> digits (drop n s)"
  by (auto simp: digits_def dest: in_set_dropD)

lemma digits_zeros [simp]: "digits (replicate n (CHR ''0''))"
  by (auto simp: digits_def digitVal_def)

lemma decimal_zeros [simp]: "decimal (replicate n (CHR ''0'')) = 0"
  by (induction n) (simp_all add: decimal_def digitVal_def)

lemma decimal_bounds: "digits s \<Longrightarrow> 0 \<le> decimal s \<and> decimal s < 10 ^ length s"
proof (induction s rule: rev_induct)
  case (snoc c s)
  then obtain d where d: "digitVal c = Some d" "d < 10" by auto
  then have "0 \<le> d" using digitVal_nonneg by blast
  with d snoc show ?case by (auto simp: decimal_def)
qed (simp add: decimal_def)

text \<open>The first digits of a decimal text are its value without the last ones.\<close>

lemma decimal_take: "digits s \<Longrightarrow> n \<le> length s \<Longrightarrow> decimal (take n s) = decimal s div 10 ^ (length s - n)"
proof -
  assume s: "digits s" "n \<le> length s"
  have "decimal s = decimal (take n s @ drop n s)" by simp
  also have "\<dots> = decimal (take n s) * 10 ^ (length s - n) + decimal (drop n s)"
    using s by (subst decimal_append) (simp_all add: digits_drop)
  finally show ?thesis using decimal_bounds [OF digits_drop [OF s(1), of n]] by simp
qed

section \<open>Trimming\<close>

text \<open>A text whose first and last characters are graphic ASCII ones has no space around it.\<close>

definition graphic :: "char \<Rightarrow> bool" where
  "graphic c \<longleftrightarrow> 33 \<le> (of_char c :: int) \<and> (of_char c :: int) \<le> 126"

lemma spaces_not_graphic: "\<forall>p \<in> set spaces. p \<noteq> [] \<and> \<not> graphic (hd p) \<and> \<not> graphic (last p)"
  by code_simp

lemma leading_graphic:
  assumes "graphic c" "\<forall>p \<in> set ps. p \<noteq> [] \<and> \<not> graphic (hd p)"
  shows "leading ps (c # s) = None"
proof -
  have "\<not> hasPrefix (c # s) p" if "p \<in> set ps" for p
  proof
    assume "hasPrefix (c # s) p"
    then have "hd p = c" using that assms(2) by (cases p) (auto simp: hasPrefix_def)
    then show False using that assms by auto
  qed
  then show ?thesis by (auto simp: leading_def find_None_iff)
qed

lemma TrimSpace_graphic:
  assumes "s \<noteq> []" "graphic (hd s)" "graphic (last s)"
  shows "TrimSpace s = s"
proof -
  obtain c cs where c: "s = c # cs" using assms(1) by (cases s) auto
  obtain d ds where d: "rev s = d # ds" using assms(1) by (cases "rev s") auto
  have "last s = d" using d by (metis last_rev list.sel(1) rev_rev_ident hd_rev)
  then have "leading (map rev spaces) (rev s) = None"
    using assms(3) spaces_not_graphic unfolding d by (intro leading_graphic) (auto simp: hd_rev)
  moreover have "leading spaces s = None"
    using assms(2) spaces_not_graphic unfolding c by (intro leading_graphic) auto
  ultimately show ?thesis by (simp add: TrimSpace_def trimLeading.simps)
qed

lemma TrimSuffix_append [simp]: "TrimSuffix (s @ p) p = s"
  by (simp add: TrimSuffix_def hasSuffix_def)

lemma TrimSuffix_other: "s \<noteq> [] \<Longrightarrow> p \<noteq> [] \<Longrightarrow> last s \<noteq> last p \<Longrightarrow> TrimSuffix s p = s"
  by (auto simp: TrimSuffix_def hasSuffix_def) (metis last_drop length_0_conv diff_less le_zero_eq not_le length_greater_0_conv)

end
