(* ===== verification/Prover.thy ===== *)
theory Prover
  imports Rpc GoText
begin

text \<open>
  \<open>internal/prover\<close> (\<open>prover.go\<close>, \<open>http.go\<close>, \<open>handler.go\<close>): the service that turns a JWT into a zero-knowledge
  proof. It computes the inputs of a circuit, writes them to a file, and runs \<open>nargo\<close> and \<open>bb\<close>. The
  network, the file system, the two programs and the JSON parser are parameters; what is done to the
  file system is recorded in a trace. The directory of the circuit is a clean path, so that
  \<open>filepath.Join\<close> is concatenation with slashes.
\<close>

unbundle bit_operations_syntax

section \<open>Witness encoding\<close>

definition MaxDataLength :: nat where
  "MaxDataLength = 1024"

definition BoundedVecMaxLen :: nat where
  "BoundedVecMaxLen = 128"

text \<open>The loop of \<open>splitBigIntToLimbs\<close>: the low bits of the rest, then the rest shifted.\<close>

primrec splitLimbs :: "nat \<Rightarrow> nat \<Rightarrow> int \<Rightarrow> string list" where
  "splitLimbs chunkBits 0 tmp = []"
| "splitLimbs chunkBits (Suc k) tmp =
     (let mask = push_bit chunkBits 1 - 1; limb = tmp AND mask
      in Text 10 limb # splitLimbs chunkBits k (drop_bit chunkBits tmp))"

definition splitBigIntToLimbs :: "int \<Rightarrow> nat \<Rightarrow> nat \<Rightarrow> string list" where
  "splitBigIntToLimbs n chunkBits numChunks = splitLimbs chunkBits numChunks n"

definition joinInts :: "int list \<Rightarrow> string" where
  "joinInts vals = joinStrings '', '' (map (Text 10) vals)"

definition joinQuoted :: "string list \<Rightarrow> string" where
  "joinQuoted vals = joinStrings '', '' (map (\<lambda>v. [CHR 0x22] @ v @ [CHR 0x22]) vals)"

definition newline :: string where
  "newline = [CHR 0x0A]"

text \<open>\<open>storage[i] = int(c)\<close> for every byte of the value: an index at the bound panics.\<close>

definition fillInts :: "nat \<Rightarrow> bytes \<Rightarrow> int list res" where
  "fillInts n bs =
     (if length bs > n then Panic ''runtime error: index out of range''
      else Ok (map uint bs @ replicate (n - length bs) 0))"

definition writeBoundedVec :: "string \<Rightarrow> string \<Rightarrow> string \<Rightarrow> nat \<Rightarrow> string res" where
  "writeBoundedVec b name value maxLen =
     bind_res (fillInts maxLen (stringBytes value)) (\<lambda>storage.
       Ok (b @ ''['' @ name @ '']'' @ newline @
           ''storage = ['' @ joinInts storage @ '']'' @ newline @
           ''len = '' @ Text 10 (int (length value)) @ newline @ newline))"

record proverData =
  DataStorage :: "int list"
  DataLen :: nat
  Base64DecodeOffset :: nat
  ModulusLimbs :: "string list"
  RedcLimbs :: "string list"
  SigLimbs :: "string list"
  Iss :: string
  Sub :: string
  Exp :: uint64
  Aud :: string
  Azp :: string
  SessionPub :: "int list"

definition proverToml :: "proverData \<Rightarrow> string res" where
  "proverToml d =
     (let b = ''base64_decode_offset = '' @ Text 10 (int (Base64DecodeOffset d)) @ newline @
              ''expected_exp = '' @ Text 10 (uint (Exp d)) @ newline @
              ''redc_params_limbs = ['' @ joinQuoted (RedcLimbs d) @ '']'' @ newline @
              ''signature_limbs = ['' @ joinQuoted (SigLimbs d) @ '']'' @ newline @
              ''pubkey_modulus_limbs = ['' @ joinQuoted (ModulusLimbs d) @ '']'' @ newline @
              ''_session_pub = ['' @ joinInts (SessionPub d) @ '']'' @ newline @ newline @
              ''[data]'' @ newline @
              ''storage = ['' @ joinInts (DataStorage d) @ '']'' @ newline @
              ''len = '' @ Text 10 (int (DataLen d)) @ newline @ newline
      in bind_res (writeBoundedVec b ''expected_iss'' (Iss d) BoundedVecMaxLen) (\<lambda>b.
         bind_res (writeBoundedVec b ''expected_sub'' (Sub d) BoundedVecMaxLen) (\<lambda>b.
         bind_res (writeBoundedVec b ''expected_aud'' (Aud d) BoundedVecMaxLen) (\<lambda>b.
         writeBoundedVec b ''expected_azp'' (Azp d) BoundedVecMaxLen))))"

section \<open>The world of the service\<close>

datatype fileEvent = WriteText string string | MakeDir string | RunProgram string "string list" | Remove string | RemoveAll string

text \<open>
  \<open>pwGet k\<close> is the answer to the request with number \<open>k\<close>: an error, or the status and the body, whose reading
  may fail. A program that fails gives its error and its output.
\<close>

record proverWorld =
  pwGet :: "nat \<Rightarrow> string \<Rightarrow> string + nat \<times> (string + bytes)"
  pwParse :: "bytes \<Rightarrow> string + json"
  pwRandom :: bytes
  pwWrite :: "string \<Rightarrow> string \<Rightarrow> string option"
  pwMkdirAll :: "string \<Rightarrow> string option"
  pwRun :: "string \<Rightarrow> string list \<Rightarrow> (string \<times> string) option"
  pwReadFile :: "string \<Rightarrow> string + bytes"
  pwLookPath :: "string \<Rightarrow> string option"
  pwHomeDir :: "string option"
  pwStat :: "string \<Rightarrow> bool"
  pwToolchain :: "string option"
  pwMkdirTemp :: "string + string"

definition failing :: "string option \<Rightarrow> unit res" where
  "failing e = (case e of Some m \<Rightarrow> Err (ErrExt m) | None \<Rightarrow> Ok ())"

definition answered :: "string + 'a \<Rightarrow> 'a res" where
  "answered r = (case r of Inl m \<Rightarrow> Err (ErrExt m) | Inr x \<Rightarrow> Ok x)"

definition joinPath :: "string list \<Rightarrow> string" where
  "joinPath ps = joinStrings ''/'' ps"

section \<open>Keys of the issuer\<close>

text \<open>A \<open>map[string]interface{}\<close>: \<open>null\<close> is the empty map, a later member replaces an earlier one.\<close>

definition unmarshalMap :: "json \<Rightarrow> (string \<rightharpoonup> json) res" where
  "unmarshalMap v =
     (case v of
        JNull \<Rightarrow> Ok Map.empty
      | JObj ms \<Rightarrow> Ok (map_of (rev ms))
      | _ \<Rightarrow> Err (valueError v ''map[string]interface {}''))"

definition httpGetJSON :: "proverWorld \<Rightarrow> nat \<Rightarrow> string \<Rightarrow> (string \<rightharpoonup> json) res" where
  "httpGetJSON W k url =
     (case pwGet W k url of
        Inl e \<Rightarrow> Err (ErrExt e)
      | Inr (status, body) \<Rightarrow>
         if status \<noteq> 200 then Err (ErrFmt ''HTTP %d from %s'' [FInt (int status), FStr url])
         else bind_res (answered body) (\<lambda>b. bind_res (answered (pwParse W b)) unmarshalMap))"

text \<open>The assertion \<open>x.(string)\<close> whose failure leaves the empty string.\<close>

definition stringOf :: "json option \<Rightarrow> string" where
  "stringOf v = (case v of Some (JStr s) \<Rightarrow> s | _ \<Rightarrow> [])"

record rsaKey =
  rsaN :: int
  rsaE :: int

definition parseJWK :: "(string \<rightharpoonup> json) \<Rightarrow> rsaKey res" where
  "parseJWK key =
     (let nB64 = stringOf (key ''n''); eB64 = stringOf (key ''e'') in
      if nB64 = [] \<or> eB64 = [] then Err (ErrText ''missing n or e in JWK'')
      else
        bind_res (wrap_err ''decode JWK n'' (base64Decode nB64)) (\<lambda>nBytes.
        bind_res (wrap_err ''decode JWK e'' (base64Decode eB64)) (\<lambda>eBytes.
          Ok \<lparr>rsaN = SetBytes nBytes, rsaE = Int64 (SetBytes eBytes)\<rparr>)))"

fun findKey :: "string \<Rightarrow> json list \<Rightarrow> rsaKey res" where
  "findKey headerKid [] = Err (ErrFmt ''no matching RSA key found for kid=%s'' [FStr headerKid])"
| "findKey headerKid (k # ks) =
     (case k of
        JObj ms \<Rightarrow>
          (let key = map_of (rev ms) in
           if stringOf (key ''kid'') = headerKid \<and> stringOf (key ''kty'') = ''RSA'' then parseJWK key
           else findKey headerKid ks)
      | _ \<Rightarrow> findKey headerKid ks)"

definition headerFields :: "(string \<times> string) field list" where
  "headerFields = [stringField ''kid'' (\<lambda>s (k, a). (s, a)), stringField ''alg'' (\<lambda>s (k, a). (k, s))]"

text \<open>Decoding a text into a struct without a name.\<close>

definition unmarshalText :: "proverWorld \<Rightarrow> string \<Rightarrow> 'st field list \<Rightarrow> 'st \<Rightarrow> bytes \<Rightarrow> 'st res" where
  "unmarshalText W ty fs zero text =
     bind_res (answered (pwParse W text)) (\<lambda>v.
       case (case v of
               JNull \<Rightarrow> (zero, None)
             | JObj ms \<Rightarrow> decodeMembers [] fs ms zero None
             | _ \<Rightarrow> (zero, Some (valueError v ty))) of
         (st, None) \<Rightarrow> Ok st | (st, Some er) \<Rightarrow> Err er)"

definition fetchJWKSPublicKey :: "proverWorld \<Rightarrow> string \<Rightarrow> string \<Rightarrow> rsaKey res" where
  "fetchJWKSPublicKey W issuer headerB64 =
     bind_res (wrap_err ''decode header'' (base64Decode headerB64)) (\<lambda>headerJSON.
     bind_res (wrap_err ''parse header'' (unmarshalText W ''struct { Kid, Alg string }'' headerFields ([], []) headerJSON))
       (\<lambda>(headerKid, headerAlg).
     if headerAlg \<noteq> ''RS256'' then Err (ErrFmt ''unsupported algorithm: %s (need RS256)'' [FStr headerAlg])
     else
       let discoveryURL = TrimSuffix issuer ''/'' @ ''/.well-known/openid-configuration'' in
       bind_res (wrap_err ''fetch OIDC config'' (httpGetJSON W 0 discoveryURL)) (\<lambda>oidcConfig.
       case oidcConfig ''jwks_uri'' of
         Some (JStr jwksURI) \<Rightarrow>
           bind_res (wrap_err ''fetch JWKS'' (httpGetJSON W 1 jwksURI)) (\<lambda>jwksData.
             case jwksData ''keys'' of
               Some (JArr keys) \<Rightarrow> findKey headerKid keys
             | _ \<Rightarrow> Err (ErrText ''no keys in JWKS''))
       | _ \<Rightarrow> Err (ErrText ''no jwks_uri in OIDC config''))))"

section \<open>The service\<close>

record Service =
  circuitDir :: string
  nargoPath :: string
  bbPath :: string

definition findBin :: "proverWorld \<Rightarrow> string \<Rightarrow> string \<Rightarrow> string res" where
  "findBin W name fallback0 =
     (case pwLookPath W name of
        Some p \<Rightarrow> Ok p
      | None \<Rightarrow>
         let fallback = (if hasPrefix fallback0 ''~/''
               then (case pwHomeDir W of Some home \<Rightarrow> home @ drop 1 fallback0 | None \<Rightarrow> fallback0)
               else fallback0)
         in if pwStat W fallback then Ok fallback
            else Err (ErrFmt ''%s not found on PATH or at %s'' [FStr name, FStr fallback]))"

text \<open>\<open>JWTNargoToml\<close>, \<open>JWTMainNr\<close> and \<open>JWTCircuit\<close> are files of the circuits module.\<close>

record circuitFiles =
  JWTNargoToml :: string
  JWTMainNr :: string
  JWTCircuit :: string

definition extractCircuit :: "proverWorld \<Rightarrow> circuitFiles \<Rightarrow> string res" where
  "extractCircuit W C =
     bind_res (answered (pwMkdirTemp W)) (\<lambda>dir.
     bind_res (failing (pwWrite W (joinPath [dir, ''Nargo.toml'']) (JWTNargoToml C))) (\<lambda>_.
     let srcDir = joinPath [dir, ''src''] in
     bind_res (failing (pwMkdirAll W srcDir)) (\<lambda>_.
     bind_res (failing (pwWrite W (joinPath [srcDir, ''main.nr'']) (JWTMainNr C))) (\<lambda>_.
     let targetDir = joinPath [dir, ''target''] in
     bind_res (failing (pwMkdirAll W targetDir)) (\<lambda>_.
     bind_res (failing (pwWrite W (joinPath [targetDir, ''jwt_auth.json'']) (JWTCircuit C))) (\<lambda>_.
     Ok dir))))))"

definition newProver :: "proverWorld \<Rightarrow> circuitFiles \<Rightarrow> Service res" where
  "newProver W C =
     bind_res (findBin W ''nargo'' ''~/.nargo/bin/nargo'') (\<lambda>nargo.
     bind_res (findBin W ''bb'' ''~/.bb/bb'') (\<lambda>bb.
     bind_res (wrap_err ''toolchain check'' (failing (pwToolchain W))) (\<lambda>_.
     bind_res (wrap_err ''extract circuit'' (extractCircuit W C)) (\<lambda>dir.
     Ok \<lparr>circuitDir = dir, nargoPath = nargo, bbPath = bb\<rparr>))))"

definition closeProver :: "Service \<Rightarrow> fileEvent list" where
  "closeProver s = (if circuitDir s \<noteq> [] then [RemoveAll (circuitDir s)] else [])"

type_synonym 'a fio = "fileEvent list \<Rightarrow> 'a res \<times> fileEvent list"

definition bind_f :: "'a fio \<Rightarrow> ('a \<Rightarrow> 'b fio) \<Rightarrow> 'b fio" where
  "bind_f m f tr =
     (case m tr of (Ok x, tr') \<Rightarrow> f x tr' | (Err e, tr') \<Rightarrow> (Err e, tr') | (Panic p, tr') \<Rightarrow> (Panic p, tr'))"

definition perform :: "fileEvent \<Rightarrow> 'a res \<Rightarrow> 'a fio" where
  "perform e r tr = (r, tr @ [e])"

definition runCmd :: "proverWorld \<Rightarrow> Service \<Rightarrow> string \<Rightarrow> string list \<Rightarrow> unit fio" where
  "runCmd W s name args =
     (let binPath = (if name = ''nargo'' then nargoPath s else if name = ''bb'' then bbPath s else name)
      in perform (RunProgram binPath args)
        (case pwRun W binPath args of
           Some (e, out) \<Rightarrow> Err (ErrFmt (''%s %s: %s'' @ newline @ ''%s'')
              [FStr name, FStr (joinStrings '' '' args), FStr e, FStr out])
         | None \<Rightarrow> Ok ()))"

definition cleanupRequest :: "Service \<Rightarrow> string \<Rightarrow> string \<Rightarrow> string \<Rightarrow> fileEvent list" where
  "cleanupRequest s proverName witnessName proofDir =
     [Remove (joinPath [circuitDir s, proverName @ ''.toml'']),
      Remove (joinPath [circuitDir s, ''target'', witnessName @ ''.gz'']),
      RemoveAll (joinPath [circuitDir s, ''target'', proofDir])]"

text \<open>\<open>rand.Read\<close> fills the eight bytes of \<open>pwRandom\<close>.\<close>

definition randomID :: "proverWorld \<Rightarrow> string" where
  "randomID W = hexEncode (pwRandom W)"

text \<open>A deferred call runs when the function returns, with an error, or by a panic.\<close>

definition deferring :: "fileEvent list \<Rightarrow> 'a fio \<Rightarrow> 'a fio" where
  "deferring es m tr = (case m tr of (r, tr') \<Rightarrow> (r, tr' @ es))"

definition writeProverToml :: "proverWorld \<Rightarrow> string \<Rightarrow> proverData \<Rightarrow> unit fio" where
  "writeProverToml W path d tr =
     (case proverToml d of
        Ok text \<Rightarrow> perform (WriteText path text) (failing (pwWrite W path text)) tr
      | Err e \<Rightarrow> (Err e, tr)
      | Panic m \<Rightarrow> (Panic m, tr))"

definition wrap_f :: "string \<Rightarrow> 'a fio \<Rightarrow> 'a fio" where
  "wrap_f p m tr = (case m tr of (r, tr') \<Rightarrow> (wrap_err p r, tr'))"

definition pure_f :: "'a res \<Rightarrow> 'a fio" where
  "pure_f r tr = (r, tr)"

record claims =
  clIss :: string
  clSub :: string
  clAud :: string
  clAzp :: string
  clExp :: uint64

text \<open>A number is a \<open>uint64\<close> when it is a decimal numeral below the bound.\<close>

fun storeUint64 :: "(uint64 \<Rightarrow> 'st \<Rightarrow> 'st) \<Rightarrow> json \<Rightarrow> 'st \<Rightarrow> 'st option" where
  "storeUint64 put (JNum s) st =
     (case scanNat 10 s of
        Some n \<Rightarrow> if n < 2 ^ 64 then Some (put (word_of_int n) st) else None
      | None \<Rightarrow> None)"
| "storeUint64 put JNull st = Some st"
| "storeUint64 put _ st = None"

definition claimFields :: "claims field list" where
  "claimFields =
     [stringField ''iss'' (\<lambda>s c. c\<lparr>clIss := s\<rparr>),
      stringField ''sub'' (\<lambda>s c. c\<lparr>clSub := s\<rparr>),
      stringField ''aud'' (\<lambda>s c. c\<lparr>clAud := s\<rparr>),
      stringField ''azp'' (\<lambda>s c. c\<lparr>clAzp := s\<rparr>),
      \<lparr>fName = ''exp'', fType = ''uint64'', fStore = storeUint64 (\<lambda>n c. c\<lparr>clExp := n\<rparr>)\<rparr>]"

record ProveResult =
  resProof :: bytes
  resSub :: string
  resIss :: string
  resExp :: uint64
  resAud :: string
  resAzp :: string
  resModulus :: bytes
  resSessionPub :: bytes

text \<open>The parameter of the Barrett reduction in the circuit.\<close>

definition redcParam :: "int \<Rightarrow> int" where
  "redcParam modulus = push_bit (2 * 2048 + 4) 1 div modulus"

text \<open>Steps 1 to 3 of \<open>Prove\<close>: the claims, the key, and the inputs of the circuit. \<open>big.Int.Div\<close> panics on a zero modulus.\<close>

definition circuitInputs :: "proverWorld \<Rightarrow> string \<Rightarrow> bytes \<Rightarrow> (claims \<times> int \<times> proverData) res" where
  "circuitInputs W jwt sessionPub =
     (let parts = splitN jwt (CHR ''.'') 3 in
      if length parts \<noteq> 3 then Err (ErrText ''invalid JWT: expected 3 parts'')
      else
        let signingInput = parts ! 0 @ ''.'' @ parts ! 1 in
        bind_res (wrap_err ''decode JWT payload'' (base64Decode (parts ! 1))) (\<lambda>payloadJSON.
        bind_res (wrap_err ''parse JWT claims'' (unmarshalText W ''struct { Iss, Sub, Aud, Azp string; Exp uint64 }'' claimFields
            \<lparr>clIss = [], clSub = [], clAud = [], clAzp = [], clExp = 0\<rparr> payloadJSON)) (\<lambda>c.
        bind_res (wrap_err ''decode JWT signature'' (base64Decode (parts ! 2))) (\<lambda>sigBytes.
        bind_res (wrap_err ''fetch JWKS'' (fetchJWKSPublicKey W (clIss c) (parts ! 0))) (\<lambda>pubKey.
        let modulus = rsaN pubKey in
        if modulus = 0 then Panic ''division by zero''
        else
          let redc = redcParam modulus;
              sigBigInt = SetBytes sigBytes;
              dataBytes = stringBytes signingInput
          in if length dataBytes > MaxDataLength
             then Err (ErrFmt ''signed data too long: %d > %d'' [FInt (int (length dataBytes)), FInt (int MaxDataLength)])
             else
               bind_res (fillInts MaxDataLength dataBytes) (\<lambda>dataStorage.
               bind_res (fillInts 33 sessionPub) (\<lambda>pubInts.
               Ok (c, modulus,
                 \<lparr>DataStorage = dataStorage, DataLen = length dataBytes, Base64DecodeOffset = length (parts ! 0) + 1,
                  ModulusLimbs = splitBigIntToLimbs modulus 120 18, RedcLimbs = splitBigIntToLimbs redc 120 18,
                  SigLimbs = splitBigIntToLimbs sigBigInt 120 18,
                  Iss = clIss c, Sub = clSub c, Exp = clExp c, Aud = clAud c, Azp = clAzp c, SessionPub = pubInts\<rparr>))))))))"

text \<open>Steps 5 to 7: the input file, the witness, the proof.\<close>

definition runProof :: "proverWorld \<Rightarrow> Service \<Rightarrow> string \<Rightarrow> claims \<Rightarrow> int \<Rightarrow> bytes \<Rightarrow> proverData \<Rightarrow> ProveResult fio" where
  "runProof W s reqID c modulus sessionPub d =
     (let proverName = ''Prover_'' @ reqID;
          witnessName = reqID @ ''_witness'';
          proofDir = reqID @ ''_proof'';
          proverPath = joinPath [circuitDir s, proverName @ ''.toml''];
          proofPath = joinPath [circuitDir s, ''target'', proofDir]
      in
      bind_f (wrap_f ''write Prover.toml'' (writeProverToml W proverPath d)) (\<lambda>_.
      bind_f (wrap_f ''nargo execute'' (runCmd W s ''nargo'' [''execute'', ''-p'', proverName, witnessName])) (\<lambda>_.
      bind_f (wrap_f ''create proof dir'' (perform (MakeDir proofPath) (failing (pwMkdirAll W proofPath)))) (\<lambda>_.
      bind_f (wrap_f ''bb prove'' (runCmd W s ''bb''
          [''prove'', ''-b'', ''target/jwt_auth.json'', ''-w'', ''target/'' @ witnessName @ ''.gz'',
           ''-o'', ''target/'' @ proofDir, ''--write_vk''])) (\<lambda>_.
      pure_f (wrap_err ''read proof'' (bind_res (answered (pwReadFile W (joinPath [circuitDir s, ''target'', proofDir, ''proof''])))
        (\<lambda>proofBytes. Ok \<lparr>resProof = proofBytes, resSub = clSub c, resIss = clIss c, resExp = clExp c, resAud = clAud c,
           resAzp = clAzp c, resModulus = Bytes modulus, resSessionPub = sessionPub\<rparr>))))))))"

definition Prove :: "proverWorld \<Rightarrow> Service \<Rightarrow> string \<Rightarrow> bytes \<Rightarrow> ProveResult fio" where
  "Prove W s jwt sessionPub =
     (if length sessionPub \<noteq> 33 then pure_f (Err (ErrText ''session_pub must be 33 bytes (compressed secp256k1)''))
      else
      bind_f (pure_f (circuitInputs W jwt sessionPub)) (\<lambda>(c, modulus, d).
      let reqID = randomID W;
          proverName = ''Prover_'' @ reqID;
          witnessName = reqID @ ''_witness'';
          proofDir = reqID @ ''_proof''
      in deferring (cleanupRequest s proverName witnessName proofDir) (runProof W s reqID c modulus sessionPub d)))"

section \<open>The handler\<close>

definition writeJSONError :: "nat \<Rightarrow> error \<Rightarrow> HttpResponse" where
  "writeJSONError status msg = \<lparr>httpStatus = status, httpType = jsonType, httpBody = ErrorBody msg\<rparr>"

definition trimHexPrefix :: "string \<Rightarrow> string" where
  "trimHexPrefix s = (if length s \<ge> 2 \<and> take 2 s = ''0x'' then drop 2 s else s)"

definition proveFields :: "(string \<times> string) field list" where
  "proveFields = [stringField ''jwt'' (\<lambda>s (j, p). (s, p)), stringField ''session_pub'' (\<lambda>s (j, p). (j, s))]"

definition unmarshalProveRequest :: "proverWorld \<Rightarrow> bytes \<Rightarrow> (string \<times> string) res" where
  "unmarshalProveRequest W body =
     bind_res (answered (pwParse W body)) (\<lambda>v.
       case unmarshalStruct ''prover.proveHTTPRequest'' proveFields ([], []) v of
         (st, None) \<Rightarrow> Ok st | (st, Some er) \<Rightarrow> Err er)"

definition checkedDecode :: "string \<Rightarrow> bytes res" where
  "checkedDecode s = (case hexDecode s of (b, None) \<Rightarrow> Ok b | (b, Some e) \<Rightarrow> Err e)"

definition proveResponse :: "ProveResult \<Rightarrow> json" where
  "proveResponse r =
     JObj [(''proof'', JStr (hexEncode (resProof r))), (''sub'', JStr (resSub r)), (''iss'', JStr (resIss r)),
           (''exp'', JNum (Text 10 (uint (resExp r)))), (''aud'', JStr (resAud r)), (''azp'', JStr (resAzp r)),
           (''jwks_modulus'', JStr (hexEncode (resModulus r))), (''session_pub'', JStr (hexEncode (resSessionPub r)))]"

definition proveHandler :: "proverWorld \<Rightarrow> Service \<Rightarrow> string \<Rightarrow> HttpRequest \<Rightarrow> handled \<times> fileEvent list" where
  "proveHandler W s apiKey r =
     (if reqMethod r \<noteq> ''POST'' then (Responded (writeJSONError 405 (ErrText ''POST required'')), [])
      else if apiKey \<noteq> [] \<and> reqApiKey r \<noteq> apiKey
      then (Responded (writeJSONError 401 (ErrText ''invalid or missing API key'')), [])
      else
     (case reqBody r of
        Inl _ \<Rightarrow> (Responded (writeJSONError 400 (ErrText ''failed to read body'')), [])
      | Inr body \<Rightarrow>
     (case unmarshalProveRequest W body of
        Err e \<Rightarrow> (Responded (writeJSONError 400 (ErrWrap ''invalid JSON'' e)), [])
      | Panic p \<Rightarrow> (HandlerPanic p, [])
      | Ok (jwt, pub) \<Rightarrow>
     (case checkedDecode (trimHexPrefix pub) of
        Err e \<Rightarrow> (Responded (writeJSONError 400 (ErrWrap ''invalid session_pub hex'' e)), [])
      | Panic p \<Rightarrow> (HandlerPanic p, [])
      | Ok sessionPub \<Rightarrow>
     (case Prove W s jwt sessionPub [] of
        (Err e, tr) \<Rightarrow> (Responded (writeJSONError 500 (ErrWrap ''proof generation failed'' e)), tr)
      | (Panic p, tr) \<Rightarrow> (HandlerPanic p, tr)
      | (Ok result, tr) \<Rightarrow>
          (Responded \<lparr>httpStatus = 200, httpType = jsonType, httpBody = JsonBody (proveResponse result)\<rparr>, tr))))))"

end
