(* ===== verification/Daemon.thy ===== *)
theory Daemon
  imports Lifecycle Startup Prover
begin

text \<open>
  The goroutines that \<open>run\<close> of \<open>cmd/bundler\<close> starts: \<open>Run\<close> of the bundling loop (\<open>loop.go\<close>), of the
  receipt watcher (\<open>watcher.go\<close>) and of the pruner (\<open>prune.go\<close>), and the start of the prover. Each is a
  \<open>select\<close> over the cancelled context and a ticker. A run is a function of the list of wake-ups that
  the \<open>select\<close> receives, each with what the node, the signer and the database answer during it. A panic
  in a goroutine ends the process. Then: how the process ends, and that everything the program does is a sequence of
  steps of \<open>Lifecycle\<close>.
\<close>

section \<open>Tickers and the select loop\<close>

definition NewTicker :: "int \<Rightarrow> unit res" where
  "NewTicker d = (if d \<le> 0 then Panic ''non-positive interval for NewTicker'' else Ok ())"

datatype 'w wake = Done | Ticked 'w

datatype goroutine = Waiting | Returned | Crashed string

text \<open>
  \<open>Done\<close> is the cancelled context; when it and the ticker are both ready, either may be received. An error of
  the work is only logged; when the wake-ups are used up the goroutine waits for the next one.
\<close>

fun selectLoop :: "('w \<Rightarrow> 's \<Rightarrow> unit res \<times> 's) \<Rightarrow> 'w wake list \<Rightarrow> 's \<Rightarrow> goroutine \<times> 's" where
  "selectLoop work [] s = (Waiting, s)"
| "selectLoop work (Done # ws) s = (Returned, s)"
| "selectLoop work (Ticked w # ws) s =
     (case work w s of
        (Ok _, s) \<Rightarrow> selectLoop work ws s
      | (Err _, s) \<Rightarrow> selectLoop work ws s
      | (Panic m, s) \<Rightarrow> (Crashed m, s))"

definition tickerLoop :: "int \<Rightarrow> ('w \<Rightarrow> 's \<Rightarrow> unit res \<times> 's) \<Rightarrow> 'w wake list \<Rightarrow> 's \<Rightarrow> goroutine \<times> 's" where
  "tickerLoop d work ws s =
     (case NewTicker d of Ok _ \<Rightarrow> selectLoop work ws s | Err _ \<Rightarrow> (Returned, s) | Panic m \<Rightarrow> (Crashed m, s))"

section \<open>The goroutines\<close>

record 'e loopWake =
  lwSigner :: Signer
  lwClient :: BundleClient
  lwEnvs :: "nat \<Rightarrow> 'e"
  lwNow :: int

definition tickWork :: "ethlib \<Rightarrow> ('e, 'db) Repository \<Rightarrow> BundlingLoop \<Rightarrow> 'e loopWake \<Rightarrow> 'db \<Rightarrow> unit res \<times> 'db" where
  "tickWork L R l w = Tick L R (lwSigner w) (lwClient w) l (lwEnvs w) (lwNow w)"

definition loopRun :: "ethlib \<Rightarrow> ('e, 'db) Repository \<Rightarrow> BundlingLoop \<Rightarrow> 'e loopWake wake list \<Rightarrow> 'db \<Rightarrow> goroutine \<times> 'db" where
  "loopRun L R l = tickerLoop (tick l) (tickWork L R l)"

record 'e watchWake =
  wwClient :: BundleClient
  wwOrder :: "(hash \<times> StoredOp list) list \<Rightarrow> (hash \<times> StoredOp list) list"
  wwEnvs :: "nat \<Rightarrow> 'e"

definition pollWork :: "ethlib \<Rightarrow> ('e, 'db) Repository \<Rightarrow> ReceiptWatcher \<Rightarrow> 'e watchWake \<Rightarrow> 'db \<Rightarrow> unit res \<times> 'db" where
  "pollWork L R v w = Poll L R (wwClient w) (watchEntryPoint v) (wwOrder w) (wwEnvs w)"

definition watcherRun :: "ethlib \<Rightarrow> ('e, 'db) Repository \<Rightarrow> ReceiptWatcher \<Rightarrow> 'e watchWake wake list \<Rightarrow> 'db \<Rightarrow> goroutine \<times> 'db" where
  "watcherRun L R v = tickerLoop (interval v) (pollWork L R v)"

record 'e pruneWake =
  prNow1 :: int
  prEnv1 :: 'e
  prNow2 :: int
  prEnv2 :: 'e

definition pruneWork :: "('e, 'db) Repository \<Rightarrow> Pruner \<Rightarrow> 'e pruneWake \<Rightarrow> 'db \<Rightarrow> unit res \<times> 'db" where
  "pruneWork R p w db = (Ok (), prunerTick R p (prNow1 w) (prEnv1 w) (prNow2 w) (prEnv2 w) db)"

definition prunerRun :: "('e, 'db) Repository \<Rightarrow> Pruner \<Rightarrow> 'e pruneWake wake list \<Rightarrow> 'db \<Rightarrow> goroutine \<times> 'db" where
  "prunerRun R p = tickerLoop (5 * 60 * 1000000000) (pruneWork R p)"

text \<open>The prover is optional: when its set-up fails, the endpoint is not served.\<close>

definition startProver :: "proverWorld \<Rightarrow> circuitFiles \<Rightarrow> string \<Rightarrow> (HttpRequest \<Rightarrow> handled) option" where
  "startProver W C apiKey =
     (case newProver W C of Ok s \<Rightarrow> Some (\<lambda>r. fst (proveHandler W s apiKey r)) | _ \<Rightarrow> None)"

section \<open>The end of the process\<close>

text \<open>
  What \<open>run\<close> does when everything is started: the server goroutine only logs an error of \<open>ListenAndServe\<close>, a panic of a
  goroutine ends the process, and after the signal the HTTP server is shut down, without looking at the result, and \<open>nil\<close> is returned.
  \<open>None\<close> is a process that still runs when the events are used up.
\<close>

datatype processEvent = ListenError string | GoroutinePanic string | Signalled

fun awaitShutdown :: "processEvent list \<Rightarrow> unit res option" where
  "awaitShutdown [] = None"
| "awaitShutdown (ListenError _ # es) = awaitShutdown es"
| "awaitShutdown (GoroutinePanic m # es) = Some (Panic m)"
| "awaitShutdown (Signalled # es) = Some (Ok ())"

definition bundlerProcess :: "Bundler res \<Rightarrow> processEvent list \<Rightarrow> (nat \<times> error option) option" where
  "bundlerProcess r es =
     (case r of
        Ok b \<Rightarrow> map_option bundlerMain (awaitShutdown es)
      | Err er \<Rightarrow> Some (bundlerMain (Err er))
      | Panic m \<Rightarrow> Some (bundlerMain (Panic m)))"

text \<open>
  The process succeeds exactly when it was started and got the signal before any panic; an address that is in use
  does not make it fail, it then runs on without its server.
\<close>

theorem process_succeeds_iff:
  "bundlerProcess r es = Some (0, None) \<longleftrightarrow> is_ok r \<and> (\<exists>ms rest. es = map ListenError ms @ Signalled # rest)"
proof -
  have "awaitShutdown es = Some (Ok ()) \<longleftrightarrow> (\<exists>ms rest. es = map ListenError ms @ Signalled # rest)"
  proof (induction es rule: awaitShutdown.induct)
    case (2 m es)
    have "(\<exists>ms rest. ListenError m # es = map ListenError ms @ Signalled # rest) \<longleftrightarrow>
        (\<exists>ms rest. es = map ListenError ms @ Signalled # rest)" (is "?l \<longleftrightarrow> ?r")
    proof
      assume ?l
      then obtain ms rest where eq: "ListenError m # es = map ListenError ms @ Signalled # rest" by blast
      then show ?r by (cases ms) auto
    next
      assume ?r
      then obtain ms rest where "es = map ListenError ms @ Signalled # rest" by blast
      then have "ListenError m # es = map ListenError (m # ms) @ Signalled # rest" by simp
      then show ?l by blast
    qed
    with 2 show ?case by simp
  next
    case (3 m es)
    then show ?case by (auto simp: Cons_eq_append_conv map_eq_Cons_conv)
  next
    case (4 es)
    have "Signalled # es = map ListenError [] @ Signalled # es" by simp
    then show ?case by (auto simp del: list.map)
  qed simp
  moreover have "awaitShutdown es \<noteq> Some (Err er)" for er
    by (induction es rule: awaitShutdown.induct) simp_all
  ultimately show ?thesis
    by (cases r; cases "awaitShutdown es") (auto simp: bundlerProcess_def bundlerMain_def split: res.split)
qed

section \<open>What a select loop keeps\<close>

text \<open>
  The contract of the work of a goroutine: it keeps an invariant; without a panic it goes from rest to
  rest, and in any case to a state that can be reached.
\<close>

definition panics :: "'a res \<Rightarrow> bool" where
  "panics r \<longleftrightarrow> (\<exists>m. r = Panic m)"

lemma panics_simps [simp]: "\<not> panics (Ok x)" "\<not> panics (Err e)" "panics (Panic m)"
  by (simp_all add: panics_def)

locale worker =
  fixes work :: "'w \<Rightarrow> 's \<Rightarrow> unit res \<times> 's"
    and ok :: "'w \<Rightarrow> bool"
    and inv :: "'s \<Rightarrow> bool"
    and rests :: "'s \<Rightarrow> 's \<Rightarrow> bool"
    and reaches :: "'s \<Rightarrow> 's \<Rightarrow> bool"
  assumes work_inv: "inv s \<Longrightarrow> ok w \<Longrightarrow> inv (snd (work w s))"
    and work_reaches: "inv s \<Longrightarrow> ok w \<Longrightarrow> reaches s (snd (work w s))"
    and work_rests: "inv s \<Longrightarrow> ok w \<Longrightarrow> \<not> panics (fst (work w s)) \<Longrightarrow> rests s (snd (work w s))"
    and stays: "reaches s s"
    and follows: "rests s s' \<Longrightarrow> reaches s' s'' \<Longrightarrow> reaches s s''"
begin

lemma select_reaches:
  assumes "inv s" "\<forall>w. Ticked w \<in> set ws \<longrightarrow> ok w"
  shows "inv (snd (selectLoop work ws s)) \<and> reaches s (snd (selectLoop work ws s))"
  using assms
proof (induction ws arbitrary: s)
  case (Cons a ws)
  show ?case
  proof (cases a)
    case (Ticked w)
    then have w: "ok w" "inv s" using Cons.prems by simp_all
    obtain r s' where r: "work w s = (r, s')" by (metis surj_pair)
    have one: "inv s'" "reaches s s'" "\<not> panics r \<Longrightarrow> rests s s'"
      using work_inv [OF w(2,1)] work_reaches [OF w(2,1)] work_rests [OF w(2,1)] r by simp_all
    then have "inv (snd (selectLoop work ws s')) \<and> reaches s' (snd (selectLoop work ws s'))"
      using Cons by simp
    with one r Ticked show ?thesis by (cases r) (auto intro: follows)
  qed (use Cons.prems in \<open>simp add: stays\<close>)
qed (simp add: stays)

lemma select_returns:
  assumes "inv s" "\<forall>w \<in> set ws. ok w" "\<forall>w \<in> set ws. \<forall>s. inv s \<longrightarrow> \<not> panics (fst (work w s))"
  shows "selectLoop work (map Ticked ws @ Done # rest) s = (Returned, fold (\<lambda>w s. snd (work w s)) ws s)"
  using assms
proof (induction ws arbitrary: s)
  case (Cons w ws)
  obtain r s' where r: "work w s = (r, s')" by (metis surj_pair)
  have "inv s'" using work_inv [of s w] Cons.prems r by simp
  moreover have "\<not> panics r" using Cons.prems r by (metis fst_conv list.set_intros(1))
  ultimately show ?case using Cons r by (cases r) auto
qed simp

end

section \<open>The goroutines as steps of the running bundler\<close>

abbreviation steps :: "ethlib \<Rightarrow> ('e, 'db) Repository \<Rightarrow> BundlingLoop \<Rightarrow> 'db sys \<Rightarrow> 'db sys \<Rightarrow> bool" where
  "steps L R l \<equiv> (anyStep L R l)\<^sup>*\<^sup>*"

lemma one_step: "step L R l a s s' \<Longrightarrow> steps L R l s s'"
  by (intro r_into_rtranclp anyStepI)

lemma settle_updates_steps:
  "watchAt s = WUpdating us gs \<Longrightarrow>
    steps L R l s (s\<lparr>sdb := snd (updateEach R es k us (sdb s)), watchAt := WUpdating [] gs\<rparr>)"
proof (induction us arbitrary: s k)
  case (Cons u us)
  obtain h st x where u: "u = (h, st, x)" by (metis prod_cases3)
  let ?s1 = "s\<lparr>sdb := snd (rUpdateStatus R (es k) h st x (sdb s)), watchAt := WUpdating us gs\<rparr>"
  have "steps L R l s ?s1" using Cons.prems by (auto simp: u intro: one_step step.Settle)
  also have "steps L R l ?s1 (?s1\<lparr>sdb := snd (updateEach R es (Suc k) us (sdb ?s1)), watchAt := WUpdating [] gs\<rparr>)"
    by (rule Cons.IH) simp
  finally show ?case by (simp add: u)
next
  case Nil
  then show ?case by (cases s) simp
qed

text \<open>Parsing a receipt has no error result: it succeeds or panics.\<close>

lemma parseLog_no_Err: "parseLog L ep log m \<noteq> Err e"
  by (auto simp: parseLog_def parseRevertReason_def goSlice_def Let_def split: option.splits)

lemma ParseHandleOpsReceipt_no_Err [simp]: "ParseHandleOpsReceipt L rc ep \<noteq> Err e"
proof -
  have "parseLogs L ep logs m \<noteq> Err e" for logs m
  proof (induction logs arbitrary: m)
    case (Cons log logs)
    then show ?case using parseLog_no_Err [of L ep log m] by (cases "parseLog L ep log m") auto
  qed simp
  then show ?thesis by (simp add: ParseHandleOpsReceipt_def)
qed

lemma settleUpdates_no_Err [simp]: "settleUpdates L client ep g \<noteq> Err e"
proof -
  have "bind_res (ParseHandleOpsReceipt L rc ep) (\<lambda>m. Ok (f m)) \<noteq> Err e" for rc and f :: "outcomes \<Rightarrow> statusUpdate list"
    by (cases "ParseHandleOpsReceipt L rc ep") simp_all
  then show ?thesis by (simp add: settleUpdates_def split: sum.split)
qed

lemma settleEach_no_Err: "fst (settleEach L R client ep es k gs db) \<noteq> Err e"
  by (induction gs arbitrary: k db) (auto simp: settleEach_Cons split: res.split)

lemma settleEach_steps:
  assumes "watchAt s = WGroups gs"
  shows "\<exists>s'. steps L R l s s' \<and> sdb s' = snd (settleEach L R client (entryPoint l) es k gs (sdb s)) \<and> loopAt s' = loopAt s \<and>
    (\<not> panics (fst (settleEach L R client (entryPoint l) es k gs (sdb s))) \<longrightarrow> watchAt s' = WIdle)"
  using assms
proof (induction gs arbitrary: s k)
  case Nil
  then have "steps L R l s (s\<lparr>watchAt := WIdle\<rparr>)" by (rule one_step [OF step.PollDone])
  then show ?case by (intro exI [of _ "s\<lparr>watchAt := WIdle\<rparr>"]) simp
next
  case (Cons g gs)
  show ?case
  proof (cases "settleUpdates L client (entryPoint l) g")
    case (Ok us)
    let ?db = "snd (updateEach R es k us (sdb s))"
    let ?s1 = "s\<lparr>watchAt := WUpdating us gs\<rparr>" and ?s2 = "s\<lparr>sdb := ?db, watchAt := WUpdating [] gs\<rparr>"
    let ?s3 = "s\<lparr>sdb := ?db, watchAt := WGroups gs\<rparr>"
    have "steps L R l s ?s1" by (rule one_step [OF step.ReadReceipt [OF Cons.prems Ok]])
    also have "steps L R l ?s1 ?s2" using settle_updates_steps [of ?s1 us gs L R l es k] by simp
    also have "steps L R l ?s2 ?s3" using step.NextTx [of ?s2 gs L R l] by (intro one_step) simp
    finally have "steps L R l s ?s3" .
    moreover obtain s' where "steps L R l ?s3 s'"
      "sdb s' = snd (settleEach L R client (entryPoint l) es (fst (updateEach R es k us (sdb s))) gs ?db)" "loopAt s' = loopAt s"
      "\<not> panics (fst (settleEach L R client (entryPoint l) es (fst (updateEach R es k us (sdb s))) gs ?db)) \<longrightarrow> watchAt s' = WIdle"
      using Cons.IH [of ?s3 "fst (updateEach R es k us (sdb s))"] by auto
    ultimately show ?thesis by (intro exI [of _ s']) (simp add: settleEach_Cons Ok)
  next
    case (Err er)
    then show ?thesis by simp
  next
    case (Panic m)
    then show ?thesis by (intro exI [of _ s]) (simp add: settleEach_Cons)
  qed
qed

lemma Poll_steps:
  assumes s: "watchAt s = WIdle" and o: "isOrder order"
  shows "\<exists>s'. steps L R l s s' \<and> sdb s' = snd (Poll L R client (entryPoint l) order es (sdb s)) \<and> loopAt s' = loopAt s \<and>
    (\<not> panics (fst (Poll L R client (entryPoint l) order es (sdb s))) \<longrightarrow> watchAt s' = WIdle)"
proof (cases "\<exists>qs. rGetByStatus R (es 0) StatusSubmitted (sdb s) = Ok qs \<and> qs \<noteq> []")
  case True
  then obtain qs where qs: "rGetByStatus R (es 0) StatusSubmitted (sdb s) = Ok qs" "qs \<noteq> []" by blast
  let ?s1 = "s\<lparr>watchAt := WGroups (order (groupByTx qs []))\<rparr>"
  have "steps L R l s ?s1" by (rule one_step [OF step.PollFetch [OF s qs(1) o]])
  moreover obtain s' where "steps L R l ?s1 s'" "loopAt s' = loopAt s"
    "sdb s' = snd (settleEach L R client (entryPoint l) es 1 (order (groupByTx qs [])) (sdb s))"
    "\<not> panics (fst (settleEach L R client (entryPoint l) es 1 (order (groupByTx qs [])) (sdb s))) \<longrightarrow> watchAt s' = WIdle"
    using settleEach_steps [of ?s1 "order (groupByTx qs [])" L R l client es 1] by auto
  ultimately show ?thesis using qs by (intro exI [of _ s']) (auto simp: Poll_def)
next
  case False
  then have "snd (Poll L R client (entryPoint l) order es (sdb s)) = sdb s"
    by (auto simp: Poll_def split: res.split)
  then show ?thesis using s by (intro exI [of _ s]) simp
qed

lemma prune_steps: "steps L R l s (s\<lparr>sdb := prunerTick R p n1 e1 n2 e2 (sdb s)\<rparr>)"
proof -
  let ?s1 = "s\<lparr>sdb := snd (rMarkTtlExpired R e1 (wrap64 (n1 - pendingTtlMs p)) (sdb s))\<rparr>"
  have "steps L R l s ?s1" by (rule one_step [OF step.Expire])
  also have "steps L R l ?s1 (?s1\<lparr>sdb := snd (rPruneHistory R e2 (wrap64 (n2 - retentionMs p)) (sdb ?s1))\<rparr>)"
    by (rule one_step [OF step.Prune])
  finally show ?thesis by (simp add: prunerTick_def case_prod_beta Let_def)
qed

text \<open>
  A change of the database that the running bundler can make, from a phase of the loop and the watcher in which
  the goroutine is at rest: back to that phase, or, after a panic, with the watcher in the middle of a poll.
\<close>

definition idleSteps ::
    "ethlib \<Rightarrow> ('e, 'db) Repository \<Rightarrow> BundlingLoop \<Rightarrow> (LoopPhase \<Rightarrow> WatchPhase \<Rightarrow> bool) \<Rightarrow> 'db \<Rightarrow> 'db \<Rightarrow> bool" where
  "idleSteps L R l rest t t' \<longleftrightarrow>
     (\<forall>lp wp. rest lp wp \<longrightarrow> steps L R l \<lparr>sdb = t, loopAt = lp, watchAt = wp\<rparr> \<lparr>sdb = t', loopAt = lp, watchAt = wp\<rparr>)"

definition someSteps ::
    "ethlib \<Rightarrow> ('e, 'db) Repository \<Rightarrow> BundlingLoop \<Rightarrow> (LoopPhase \<Rightarrow> WatchPhase \<Rightarrow> bool) \<Rightarrow> 'db \<Rightarrow> 'db \<Rightarrow> bool" where
  "someSteps L R l rest t t' \<longleftrightarrow>
     (\<forall>lp wp. rest lp wp \<longrightarrow> (\<exists>wp'. steps L R l \<lparr>sdb = t, loopAt = lp, watchAt = wp\<rparr> \<lparr>sdb = t', loopAt = lp, watchAt = wp'\<rparr>))"

lemma idle_some: "idleSteps L R l rest t t' \<Longrightarrow> someSteps L R l rest t t'"
  unfolding idleSteps_def someSteps_def by blast

lemma some_refl: "someSteps L R l rest t t"
  unfolding someSteps_def by blast

lemma idle_then_some: "idleSteps L R l rest t t' \<Longrightarrow> someSteps L R l rest t' t'' \<Longrightarrow> someSteps L R l rest t t''"
  unfolding idleSteps_def someSteps_def by (meson rtranclp_trans)

lemma loop_worker:
  assumes L: "ethlib_ok L"
  shows "worker (tickWork L (sqliteRepo L) l) (\<lambda>w. wf_signer (lwSigner w)) (table_inv L)
    (idleSteps L (sqliteRepo L) l (\<lambda>lp wp. lp = LIdle)) (someSteps L (sqliteRepo L) l (\<lambda>lp wp. lp = LIdle))"
proof
  fix t and w :: "dbenv loopWake" assume t: "table_inv L t" and w: "wf_signer (lwSigner w)"
  note R = sqlite_repository [OF L]
  show "table_inv L (snd (tickWork L (sqliteRepo L) l w t))"
    using repository.Tick_safe [OF R t w] by (simp add: tickWork_def)
  have "steps L (sqliteRepo L) l \<lparr>sdb = t, loopAt = LIdle, watchAt = wp\<rparr>
      \<lparr>sdb = snd (tickWork L (sqliteRepo L) l w t), loopAt = LIdle, watchAt = wp\<rparr>" for wp
    using repository.Tick_is_steps [OF R, of "\<lparr>sdb = t, loopAt = LIdle, watchAt = wp\<rparr>" "lwSigner w"] t w
    by (simp add: tickWork_def)
  then show "idleSteps L (sqliteRepo L) l (\<lambda>lp wp. lp = LIdle) t (snd (tickWork L (sqliteRepo L) l w t))"
    "someSteps L (sqliteRepo L) l (\<lambda>lp wp. lp = LIdle) t (snd (tickWork L (sqliteRepo L) l w t))"
    by (auto simp: idleSteps_def intro!: idle_some)
qed (auto intro: some_refl idle_then_some)

lemma watch_worker:
  assumes L: "ethlib_ok L"
  shows "worker (pollWork L (sqliteRepo L) (NewWatcher (entryPoint l) d)) (\<lambda>w. isOrder (wwOrder w)) (table_inv L)
    (idleSteps L (sqliteRepo L) l (\<lambda>lp wp. wp = WIdle)) (someSteps L (sqliteRepo L) l (\<lambda>lp wp. wp = WIdle))"
proof
  fix t and w :: "dbenv watchWake" assume t: "table_inv L t" and w: "isOrder (wwOrder w)"
  let ?r = "pollWork L (sqliteRepo L) (NewWatcher (entryPoint l) d) w t"
  show "table_inv L (snd ?r)"
    using poll_touches_only_submitted [OF L t w] by (simp add: pollWork_def NewWatcher_def)
  have st: "\<exists>s'. steps L (sqliteRepo L) l \<lparr>sdb = t, loopAt = lp, watchAt = WIdle\<rparr> s' \<and> sdb s' = snd ?r \<and> loopAt s' = lp \<and>
      (\<not> panics (fst ?r) \<longrightarrow> watchAt s' = WIdle)" for lp
    using Poll_steps [of "\<lparr>sdb = t, loopAt = lp, watchAt = WIdle\<rparr>", OF _ w] by (simp add: pollWork_def NewWatcher_def)
  show "someSteps L (sqliteRepo L) l (\<lambda>lp wp. wp = WIdle) t (snd ?r)"
    unfolding someSteps_def using st by (metis sys.surjective old.unit.exhaust)
  show "idleSteps L (sqliteRepo L) l (\<lambda>lp wp. wp = WIdle) t (snd ?r)" if "\<not> panics (fst ?r)"
    unfolding idleSteps_def using st that by (metis sys.surjective old.unit.exhaust)
qed (auto intro: some_refl idle_then_some)

lemma prune_worker:
  assumes L: "ethlib_ok L"
  shows "worker (pruneWork (sqliteRepo L) p) (\<lambda>w. True) (table_inv L)
    (idleSteps L (sqliteRepo L) l (\<lambda>lp wp. True)) (someSteps L (sqliteRepo L) l (\<lambda>lp wp. True))"
proof
  fix t and w :: "dbenv pruneWake" assume t: "table_inv L t"
  note R = sqlite_repository [OF L]
  show "table_inv L (snd (pruneWork (sqliteRepo L) p w t))"
    using repository.expire_calm [OF R t] repository.prune_calm [OF R]
    by (simp add: pruneWork_def prunerTick_def case_prod_beta Let_def)
  have "steps L (sqliteRepo L) l \<lparr>sdb = t, loopAt = lp, watchAt = wp\<rparr>
      \<lparr>sdb = snd (pruneWork (sqliteRepo L) p w t), loopAt = lp, watchAt = wp\<rparr>" for lp wp
    using prune_steps [of L "sqliteRepo L" l "\<lparr>sdb = t, loopAt = lp, watchAt = wp\<rparr>"] by (simp add: pruneWork_def)
  then show "idleSteps L (sqliteRepo L) l (\<lambda>lp wp. True) t (snd (pruneWork (sqliteRepo L) p w t))"
    "someSteps L (sqliteRepo L) l (\<lambda>lp wp. True) t (snd (pruneWork (sqliteRepo L) p w t))"
    by (auto simp: idleSteps_def intro!: idle_some)
qed (auto intro: some_refl idle_then_some)

sublocale eth_library \<subseteq> bundling: worker "tickWork L (sqliteRepo L) l" "\<lambda>w. wf_signer (lwSigner w)" "table_inv L"
    "idleSteps L (sqliteRepo L) l (\<lambda>lp wp. lp = LIdle)" "someSteps L (sqliteRepo L) l (\<lambda>lp wp. lp = LIdle)" for l
  by (rule loop_worker [OF L_ok])

sublocale eth_library \<subseteq> watching: worker "pollWork L (sqliteRepo L) (NewWatcher (entryPoint l) d)" "\<lambda>w. isOrder (wwOrder w)"
    "table_inv L" "idleSteps L (sqliteRepo L) l (\<lambda>lp wp. wp = WIdle)" "someSteps L (sqliteRepo L) l (\<lambda>lp wp. wp = WIdle)" for l d
  by (rule watch_worker [OF L_ok])

sublocale eth_library \<subseteq> pruning: worker "pruneWork (sqliteRepo L) p" "\<lambda>w. True" "table_inv L"
    "idleSteps L (sqliteRepo L) l (\<lambda>lp wp. True)" "someSteps L (sqliteRepo L) l (\<lambda>lp wp. True)" for p l
  by (rule prune_worker [OF L_ok])

section \<open>Panics\<close>

lemma Tick_no_panic:
  assumes "\<And>m. CheckBalance signer \<noteq> Panic m" "\<And>to d g m. SignAndSubmit signer to d g \<noteq> Panic m"
  shows "\<not> panics (fst (Tick L (sqliteRepo L) signer client l es now t))"
proof -
  have plan: "\<not> panics (fst (bundlePlan L signer client l now ops))" for ops
    using assms(2) by (auto simp: bundlePlan_def Let_def panics_def split: sum.splits res.splits)
  show ?thesis
    unfolding Tick_plan using assms(1) plan queries_no_Panic(1) ClaimForBundling_no_Panic
    by (auto simp: sqliteRepo_def panics_def split: res.splits prod.splits) (metis fst_conv)+
qed

lemma settleEach_no_panic:
  "\<forall>tx rc. TransactionReceipt client tx = Inr rc \<longrightarrow> is_ok (ParseHandleOpsReceipt L rc ep) \<Longrightarrow>
     fst (settleEach L R client ep es k gs db) = Ok ()"
  by (rule settleEach_Ok) (auto simp: settleUpdates_def is_ok_iff split: sum.split)

lemma Poll_no_panic:
  assumes "\<forall>tx rc. TransactionReceipt client tx = Inr rc \<longrightarrow> is_ok (ParseHandleOpsReceipt L rc ep)"
  shows "\<not> panics (fst (Poll L (sqliteRepo L) client ep order es t))"
proof (cases "GetByStatus L (es 0) StatusSubmitted t")
  case (Ok qs)
  then show ?thesis by (simp add: Poll_def sqliteRepo_def settleEach_no_panic [OF assms])
qed (use queries_no_Panic in \<open>simp_all add: Poll_def sqliteRepo_def\<close>)

section \<open>Properties\<close>

lemma tickerLoop_reachable:
  assumes "reachable L R l db s" "rest (loopAt s) (watchAt s)"
    and some: "someSteps L R l rest (sdb s) (snd (selectLoop work ws (sdb s)))"
  shows "\<exists>s'. reachable L R l db s' \<and> sdb s' = snd (tickerLoop i work ws (sdb s))"
proof (cases "NewTicker i")
  case (Ok u)
  have "s = \<lparr>sdb = sdb s, loopAt = loopAt s, watchAt = watchAt s\<rparr>" by simp
  then obtain s' where "steps L R l s s'" "sdb s' = snd (selectLoop work ws (sdb s))"
    using some assms(2) unfolding someSteps_def by (metis sys.select_convs(1))
  then show ?thesis using reachable_steps [OF _ assms(1)] Ok by (intro exI [of _ s']) (simp add: tickerLoop_def)
qed (use assms(1) in \<open>auto simp: tickerLoop_def\<close>)

text \<open>A request changes the mempool at most by one insertion.\<close>

lemma handleSend_inserts:
  assumes "ethlib_ok L"
  shows "snd (handleSendUserOperation L m e params db) = db \<or>
    (\<exists>p h. wf_op p \<and> length h = 32 \<and> snd (handleSendUserOperation L m e params db) = snd (rInsert (mRepo m) e p h db))"
proof (cases rule: handleSend_cases [of L m e params db])
  case (checked p ep)
  obtain req where "FromRPC L req = Ok p" using checked(1) by (auto simp: sendChecked_def)
  then have "wf_op p" using FromRPC_wf assms by blast
  moreover have "snd (handleSendUserOperation L m e params db) =
      snd (rInsert (mRepo m) e p (ComputeUserOpHash L p ep (mcChainID (mCfg m))) db)"
    unfolding checked(2) by (simp add: Let_def split: prod.split res.split)
  ultimately show ?thesis using length_ComputeUserOpHash by blast
qed simp

lemma serve_inserts:
  assumes L: "ethlib_ok L" and r: "serve L parseJson apiKey prover m e r st = (resp, st')"
  shows "fst st' = fst st \<or> (\<exists>p h. wf_op p \<and> length h = 32 \<and> fst st' = snd (rInsert (mRepo m) (envRepo e) p h (fst st)))"
    (is "?ok st'")
proof -
  have "?ok (snd (dispatch L m e req st))" for req
  proof (cases rule: dispatch_cases [of L m e req st])
    case send
    then show ?thesis using handleSend_inserts [OF L] by (simp add: case_prod_beta Let_def)
  qed (simp_all add: case_prod_beta Let_def)
  moreover have "snd (handleRequest L parseJson m e r st) = st \<or>
      (\<exists>req. snd (handleRequest L parseJson m e r st) = snd (dispatch L m e req st))"
    by (auto simp: handleRequest_def split: sum.split res.split prod.split reply.split) (metis snd_conv)+
  ultimately have "?ok (snd (handleRequest L parseJson m e r st))" by (metis (no_types, lifting))
  moreover have "st' = snd (httpHandler prover (RequireAPIKey apiKey (handleRequest L parseJson m e)) r st)"
    using r by (auto simp: serve_def recoverMiddleware_def split: prod.splits handled.splits)
  ultimately show ?thesis by (simp add: httpHandler_def RequireAPIKey_def)
qed

lemma serve_steps:
  assumes "ethlib_ok L" "serve L parseJson apiKey prover m e r (sdb s, sp) = (resp, db', sp')" "mRepo m = R"
  shows "steps L R l s (s\<lparr>sdb := db'\<rparr>)"
proof -
  have "db' = sdb s \<or> (\<exists>p h. wf_op p \<and> length h = 32 \<and> db' = snd (rInsert R (envRepo e) p h (sdb s)))"
    using serve_inserts [OF assms(1,2)] assms(3) by simp
  then show ?thesis
  proof
    assume "db' = sdb s"
    then show ?thesis by simp
  qed (auto intro: one_step step.Send)
qed

text \<open>A start, after whatever ended the process before: the reset is a restart, the rest of the reconciliation a poll.\<close>

lemma Reconcile_steps:
  assumes o: "isOrder order" and failed: "\<And>r db'. rResetBundlingToPending R (es 0) (sdb s) = (r, db') \<Longrightarrow> \<not> is_ok r \<Longrightarrow> db' = sdb s"
  shows "\<exists>s'. steps L R l s s' \<and> sdb s' = snd (Reconcile L R client (entryPoint l) order es (sdb s))"
proof (cases "rResetBundlingToPending R (es 0) (sdb s)")
  case (Pair r t1)
  show ?thesis
  proof (cases r)
    case (Ok n)
    let ?s1 = "\<lparr>sdb = t1, loopAt = LIdle, watchAt = WIdle\<rparr>"
    have restart: "steps L R l s ?s1" by (rule one_step [OF step.Restart [OF Pair [unfolded Ok]]])
    show ?thesis
    proof (cases "\<exists>qs. rGetByStatus R (es 1) StatusSubmitted t1 = Ok qs \<and> qs \<noteq> []")
      case True
      then obtain qs where qs: "rGetByStatus R (es 1) StatusSubmitted t1 = Ok qs" "qs \<noteq> []" by blast
      let ?s2 = "?s1\<lparr>watchAt := WGroups (order (groupByTx qs []))\<rparr>"
      have "rGetByStatus R (es 1) StatusSubmitted (sdb ?s1) = Ok qs" using qs(1) by simp
      from step.PollFetch [OF _ this o] have "steps L R l ?s1 ?s2" by (intro one_step) simp
      moreover obtain s' where "steps L R l ?s2 s'"
          "sdb s' = snd (settleEach L R client (entryPoint l) es 2 (order (groupByTx qs [])) t1)"
        using settleEach_steps [of ?s2 "order (groupByTx qs [])" L R l client es 2] by auto
      ultimately show ?thesis
        using restart qs Pair Ok by (intro exI [of _ s']) (auto simp: Reconcile_def)
    next
      case False
      then have "snd (Reconcile L R client (entryPoint l) order es (sdb s)) = t1"
        using Pair Ok by (auto simp: Reconcile_def split: res.split)
      with restart show ?thesis by (intro exI [of _ ?s1]) simp
    qed
  qed (use Pair failed [OF Pair] in \<open>auto simp: Reconcile_def intro!: exI [of _ s]\<close>)
qed

lemma run_steps:
  assumes o: "isOrder order"
    and ep: "\<forall>cfg. Load unmarshal os (resolvePath os configPath) = Ok cfg \<longrightarrow> hd (EntryPoints cfg) = entryPoint l"
  shows "\<exists>s'. steps L (sqliteRepo L) l s s' \<and> sdb s' = snd (run L unmarshal dial DecryptKey os order eo es esp configPath (sdb s))"
proof (cases "prepare L unmarshal dial DecryptKey os eo configPath")
  case (Ok x)
  obtain cfg conn signer ep0 where x: "x = (cfg, conn, signer, ep0)" by (metis prod_cases4)
  then have "Load unmarshal os (resolvePath os configPath) = Ok cfg" "first (EntryPoints cfg) = Ok ep0"
    using Ok by (auto simp: prepare_def connect_def split: sum.splits)
  then have "ep0 = entryPoint l" using ep by (auto simp: first_Ok)
  moreover have "snd (run L unmarshal dial DecryptKey os order eo es esp configPath (sdb s)) =
      snd (Reconcile L (sqliteRepo L) (connBundle conn) ep0 order es (sdb s))"
    using Ok x by (simp add: run_def case_prod_beta)
  moreover have "db' = sdb s" if "rResetBundlingToPending (sqliteRepo L) (es 0) (sdb s) = (r, db')" "\<not> is_ok r" for r db'
    using that by (cases r) (auto simp: sqliteRepo_def ResetBundlingToPending_def split: sum.splits)
  ultimately show ?thesis using Reconcile_steps [OF o] by metis
qed (auto simp: run_def intro!: exI [of _ s])

text \<open>
C11: the program does only what the running bundler of the life cycle can do. From every state that one reaches, the
database is again one it reaches after any request to the server, after any start of the program that
follows the end of the process, whether the start succeeds or not, and, when the goroutine was at rest, after any run of the
bundling loop, the watcher or the pruner, with any wake-ups, failures and panics.
\<close>

theorem program_refines_lifecycle:
  assumes L: "ethlib_ok L" and s: "reachable L (sqliteRepo L) l [] s"
    and m: "mRepo m = sqliteRepo L" and o: "isOrder order"
    and ep: "\<forall>cfg. Load unmarshal os (resolvePath os configPath) = Ok cfg \<longrightarrow> hd (EntryPoints cfg) = entryPoint l"
    and ws: "\<forall>w. Ticked w \<in> set ws \<longrightarrow> wf_signer (lwSigner w)" and vs: "\<forall>w. Ticked w \<in> set vs \<longrightarrow> isOrder (wwOrder w)"
  defines "reached db \<equiv> \<exists>s'. reachable L (sqliteRepo L) l [] s' \<and> sdb s' = db"
  shows "reached (fst (snd (serve L parseJson apiKey prover m e r (sdb s, sp)))) \<and>
    reached (snd (run L unmarshal dial DecryptKey os order eo es esp configPath (sdb s))) \<and>
    (loopAt s = LIdle \<longrightarrow> reached (snd (loopRun L (sqliteRepo L) l ws (sdb s)))) \<and>
    (watchAt s = WIdle \<longrightarrow> reached (snd (watcherRun L (sqliteRepo L) (NewWatcher (entryPoint l) d) vs (sdb s)))) \<and>
    reached (snd (prunerRun (sqliteRepo L) p us (sdb s)))"
proof -
  have t: "table_inv L (sdb s)"
    using running_sysInv [OF L s] by (simp add: repository.sysInv_def [OF sqlite_repository [OF L]])
  have "reached (fst (snd (serve L parseJson apiKey prover m e r (sdb s, sp))))"
  proof -
    obtain resp db' sp' where "serve L parseJson apiKey prover m e r (sdb s, sp) = (resp, db', sp')" by (metis prod_cases3)
    then show ?thesis
      using reachable_steps [OF serve_steps [OF L _ m] s] by (auto simp: reached_def intro!: exI [of _ "s\<lparr>sdb := db'\<rparr>"])
  qed
  moreover have "reached (snd (run L unmarshal dial DecryptKey os order eo es esp configPath (sdb s)))"
    using run_steps [OF o ep] reachable_steps [OF _ s] unfolding reached_def by metis
  moreover note run = tickerLoop_reachable [OF s, folded reached_def]
  have "(loopAt s = LIdle \<longrightarrow> reached (snd (loopRun L (sqliteRepo L) l ws (sdb s)))) \<and>
    (watchAt s = WIdle \<longrightarrow> reached (snd (watcherRun L (sqliteRepo L) (NewWatcher (entryPoint l) d) vs (sdb s)))) \<and>
    reached (snd (prunerRun (sqliteRepo L) p us (sdb s)))"
    unfolding loopRun_def watcherRun_def prunerRun_def
    using run [OF _ worker.select_reaches [OF loop_worker [OF L] t ws, THEN conjunct2]]
      run [OF _ worker.select_reaches [OF watch_worker [OF L] t vs, THEN conjunct2]]
      run [OF _ worker.select_reaches [OF prune_worker [OF L] t, THEN conjunct2]] by simp
  ultimately show ?thesis by blast
qed

text \<open>
C12: when the program has started, the watcher and the pruner run until the signal and do their work at every
wake-up, whatever error it reports, as long as no receipt makes the parser panic, and so does the bundling
loop, as long as the headers of the node have a base fee. But the tick interval is multiplied to nanoseconds
in 64 bits and not checked: unless the product is positive, the loop takes the process down before its
first tick.
\<close>

theorem goroutines_run_until_signal:
  assumes L: "ethlib_ok L" and t: "table_inv L t"
    and r: "run L unmarshal dial DecryptKey os order eo es esp configPath t0 = (Ok b, t1)"
    and cfg: "Load unmarshal os (resolvePath os configPath) = Ok cfg"
    and ws: "\<forall>w \<in> set ws. \<exists>client s. lwSigner w = asSigner client s \<and> key_ok (signerKey s) \<and> HeaderBaseFee client \<noteq> Inr None"
    and vs: "\<forall>w \<in> set vs. isOrder (wwOrder w) \<and> (\<forall>tx rc. TransactionReceipt (wwClient w) tx = Inr rc \<longrightarrow>
      is_ok (ParseHandleOpsReceipt L rc (watchEntryPoint (bWatcher b))))"
  shows "loopRun L (sqliteRepo L) (bLoop b) (map Ticked ws @ Done # rest) t =
      (if 0 < wrap64 (TickIntervalMs cfg * 1000000) then (Returned, fold (\<lambda>w t. snd (tickWork L (sqliteRepo L) (bLoop b) w t)) ws t)
       else (Crashed ''non-positive interval for NewTicker'', t)) \<and>
    watcherRun L (sqliteRepo L) (bWatcher b) (map Ticked vs @ Done # rest') t =
      (Returned, fold (\<lambda>w t. snd (pollWork L (sqliteRepo L) (bWatcher b) w t)) vs t) \<and>
    prunerRun (sqliteRepo L) (bPruner b) (map Ticked us @ Done # rest'') t =
      (Returned, fold (\<lambda>w t. snd (pruneWork (sqliteRepo L) (bPruner b) w t)) us t)"
proof -
  obtain conn s' ep pm where b: "b = buildBundler L cfg conn s' ep pm" using run_Ok [OF r] cfg by (metis res.inject(1))
  then have parts: "tick (bLoop b) = wrap64 (TickIntervalMs cfg * 1000000)" "bWatcher b = NewWatcher (entryPoint (bLoop b)) 5000000000"
    by (simp_all add: build_defs Let_def)
  have w: "wf_signer (lwSigner w) \<and> \<not> panics (fst (tickWork L (sqliteRepo L) (bLoop b) w t))" if in_ws: "w \<in> set ws" for w t
  proof -
    obtain client s where s: "lwSigner w = asSigner client s" "key_ok (signerKey s)" "HeaderBaseFee client \<noteq> Inr None"
      using ws in_ws by blast
    then have "SignAndSubmit (lwSigner w) to d g \<noteq> Panic m" "CheckBalance (lwSigner w) \<noteq> Panic m" for to d g m
      by (auto simp: asSigner_def signAndSubmit_def checkBalance_def split: sum.splits option.splits)
    then show ?thesis using Tick_no_panic [of "lwSigner w"] asSigner_wf [OF s(2)] s(1) by (simp add: tickWork_def)
  qed
  have "selectLoop (tickWork L (sqliteRepo L) (bLoop b)) (map Ticked ws @ Done # rest) t =
      (Returned, fold (\<lambda>w t. snd (tickWork L (sqliteRepo L) (bLoop b) w t)) ws t)"
    by (rule worker.select_returns [OF loop_worker [OF L] t]) (use w in blast)+
  moreover have "selectLoop (pollWork L (sqliteRepo L) (bWatcher b)) (map Ticked vs @ Done # rest') t =
      (Returned, fold (\<lambda>w t. snd (pollWork L (sqliteRepo L) (bWatcher b) w t)) vs t)"
    unfolding parts(2) by (rule worker.select_returns [OF watch_worker [OF L] t])
      (use vs Poll_no_panic in \<open>auto simp: pollWork_def parts(2)\<close>)
  moreover have "selectLoop (pruneWork (sqliteRepo L) (bPruner b)) (map Ticked us @ Done # rest'') t =
      (Returned, fold (\<lambda>w t. snd (pruneWork (sqliteRepo L) (bPruner b) w t)) us t)"
    by (rule worker.select_returns [OF prune_worker [OF L] t]) (simp_all add: pruneWork_def)
  ultimately show ?thesis
    by (simp add: loopRun_def watcherRun_def prunerRun_def tickerLoop_def NewTicker_def parts(1))
      (simp add: parts(2) NewWatcher_def)
qed

text \<open>What reconciliation makes of a submitted operation whose receipt makes the parser panic.\<close>

lemma Reconcile_poisoned:
  assumes L: "ethlib_ok L" and t: "table_inv L t" and o: "isOrder order"
    and op: "tableView L t h = Some op" "OpStatus op = StatusSubmitted" "BundleTxHash op = Some tx"
    and rc: "TransactionReceipt client tx = Inr rc" "rcStatus rc = 1" "panics (ParseHandleOpsReceipt L rc ep)"
  shows "fst (Reconcile L (sqliteRepo L) client ep order es t) \<noteq> Ok () \<and>
    tableView L (snd (Reconcile L (sqliteRepo L) client ep order es t)) h = Some op"
proof (cases "ResetBundlingToPending (es 0) t")
  case (Pair r t1)
  show ?thesis
  proof (cases r)
    case (Ok n)
    note v = ResetBundlingToPending_ok [OF L t Pair [unfolded Ok]]
    have t1: "table_inv L t1" "tableView L t1 h = Some op" using v op by simp_all
    show ?thesis
    proof (cases "GetByStatus L (es 1) StatusSubmitted t1")
      case got: (Ok qs)
      have "op \<in> set qs" using GetByStatus_ok [OF L t1(1) got] t1(2) op(2) tableView_Hash [OF L t1(1,2)] by fastforce
      moreover have "rGetByStatus (sqliteRepo L) (es 1) StatusSubmitted t1 = Ok qs" using got by (simp add: sqliteRepo_def)
      moreover have "\<not> is_ok (settleUpdates L client ep (tx, ops))" for ops
        using rc by (auto simp: settleUpdates_def panics_def)
      ultimately show ?thesis
        using repository.settle_poisoned [OF sqlite_repository [OF L] t1(1) _ o t1(2) op(2,3), of "es 1" qs L client ep es 2] Pair Ok
        by (auto simp: Reconcile_def sqliteRepo_def [THEN arg_cong, of rResetBundlingToPending])
    qed (use Pair Ok t1 queries_no_Panic in \<open>simp_all add: Reconcile_def sqliteRepo_def\<close>)
  next
    case (Err er)
    then show ?thesis using Pair bulk_err(1) op by (auto simp: Reconcile_def sqliteRepo_def)
  next
    case (Panic m)
    then show ?thesis using Pair op by (auto simp: Reconcile_def sqliteRepo_def ResetBundlingToPending_def split: sum.splits option.splits if_splits)
  qed
qed

lemma first_mem: "first xs = Ok x \<Longrightarrow> x \<in> set xs"
  by (auto simp: first_Ok)

text \<open>
C36: a receipt that makes the parser panic takes the bundler down for good: the watcher ends the process when it
polls the transaction, every later start exits with an error status, whatever \<open>served\<close> would follow it, and the operation stays submitted, so
that no start can get past it.
\<close>

theorem poisoned_receipt_stops_bundler:
  assumes L: "ethlib_ok L" and t: "table_inv L t" and o: "isOrder order"
    and op: "tableView L t h = Some op" "OpStatus op = StatusSubmitted" "BundleTxHash op = Some tx"
    and rc: "rcStatus rc = 1" "\<forall>ep \<in> eps. panics (ParseHandleOpsReceipt L rc ep)"
    and cfg: "\<forall>cfg. Load unmarshal os (resolvePath os configPath) = Ok cfg \<longrightarrow> set (EntryPoints cfg) \<subseteq> eps \<and>
      (\<forall>conn. dial (RpcURL cfg) = Inr conn \<longrightarrow> TransactionReceipt (connBundle conn) tx = Inr rc)"
    and watch: "TransactionReceipt client tx = Inr rc" "ep \<in> eps" "\<forall>i. quiet (es' i)"
  shows "panics (fst (Poll L (sqliteRepo L) client ep order es' t)) \<and>
    tableView L (snd (Poll L (sqliteRepo L) client ep order es' t)) h = Some op \<and>
    fst (bundlerMain (bind_res (fst (run L unmarshal dial DecryptKey os order eo es esp configPath t)) served)) \<noteq> 0 \<and>
    tableView L (snd (run L unmarshal dial DecryptKey os order eo es esp configPath t)) h = Some op"
proof (intro conjI)
  obtain m where "ParseHandleOpsReceipt L rc ep = Panic m" using rc(2) watch(2) by (auto simp: panics_def)
  then have bad: "\<not> is_ok (settleUpdates L client ep (tx, ops))" for ops
    using rc(1) watch(1) by (simp add: settleUpdates_def)
  obtain qs where got: "GetByStatus L (es' 0) StatusSubmitted t = Ok qs"
    using queries_progress(2) [OF t, of "es' 0"] watch(3) by (auto simp: is_ok_iff)
  have "op \<in> set qs" using GetByStatus_ok [OF L t got] op(1,2) tableView_Hash [OF L t op(1)] by fastforce
  then have poll: "Poll L (sqliteRepo L) client ep order es' t = settleEach L (sqliteRepo L) client ep es' 1 (order (groupByTx qs [])) t"
    using got by (auto simp: Poll_def sqliteRepo_def)
  have "rGetByStatus (sqliteRepo L) (es' 0) StatusSubmitted t = Ok qs" using got by (simp add: sqliteRepo_def)
  note settle = repository.settle_poisoned [OF sqlite_repository [OF L] t this o op bad, of es' 1]
  show "tableView L (snd (Poll L (sqliteRepo L) client ep order es' t)) h = Some op" using settle poll by simp
  show "panics (fst (Poll L (sqliteRepo L) client ep order es' t))"
    using settle(1) settleEach_no_Err [of L "sqliteRepo L" client ep es' 1 _ t] poll by (metis panics_def res.exhaust unit.exhaust)
next
  have "fst (run L unmarshal dial DecryptKey os order eo es esp configPath t) \<noteq> Ok b" for b
  proof
    assume "fst (run L unmarshal dial DecryptKey os order eo es esp configPath t) = Ok b"
    then obtain cfg0 conn ep0 t' where "Load unmarshal os (resolvePath os configPath) = Ok cfg0" "dial (RpcURL cfg0) = Inr conn"
      "first (EntryPoints cfg0) = Ok ep0" "Reconcile L (sqliteRepo L) (connBundle conn) ep0 order es t = (Ok (), t')"
      by (metis run_Ok surjective_pairing)
    moreover from this have "ep0 \<in> eps" using cfg first_mem [of "EntryPoints cfg0" ep0] by blast
    ultimately show False
      using Reconcile_poisoned [OF L t o op, of "connBundle conn" rc ep0 es] rc cfg by simp
  qed
  then show "fst (bundlerMain (bind_res (fst (run L unmarshal dial DecryptKey os order eo es esp configPath t)) served)) \<noteq> 0"
    by (cases "fst (run L unmarshal dial DecryptKey os order eo es esp configPath t)") (auto simp: bundlerMain_def)
next
  show "tableView L (snd (run L unmarshal dial DecryptKey os order eo es esp configPath t)) h = Some op"
  proof (cases "prepare L unmarshal dial DecryptKey os eo configPath")
    case (Ok x)
    obtain cfg0 conn s ep0 where x: "x = (cfg0, conn, s, ep0)" by (metis prod_cases4)
    then have "Load unmarshal os (resolvePath os configPath) = Ok cfg0" "dial (RpcURL cfg0) = Inr conn" "first (EntryPoints cfg0) = Ok ep0"
      using Ok by (auto simp: prepare_def connect_def split: sum.splits)
    moreover from this have "ep0 \<in> eps" using cfg first_mem [of "EntryPoints cfg0" ep0] by blast
    ultimately have "tableView L (snd (Reconcile L (sqliteRepo L) (connBundle conn) ep0 order es t)) h = Some op"
      using Reconcile_poisoned [OF L t o op, of "connBundle conn" rc ep0 es] rc cfg by simp
    then show ?thesis using Ok x by (simp add: run_def case_prod_beta)
  qed (use op in \<open>simp_all add: run_def\<close>)
qed

section \<open>A sample daemon\<close>

definition sampleWake :: "dbenv loopWake" where
  "sampleWake = \<lparr>lwSigner = asSigner (flakyNode True) startSigner, lwClient = sampleClient, lwEnvs = (\<lambda>_. sampleEnv), lwNow = 1500\<rparr>"

definition samplePoll :: "dbenv watchWake" where
  "samplePoll = \<lparr>wwClient = sampleClient, wwOrder = rev, wwEnvs = (\<lambda>_. sampleEnv)\<rparr>"

definition samplePrune :: "dbenv pruneWake" where
  "samplePrune = \<lparr>prNow1 = 2000, prEnv1 = sampleEnv, prNow2 = 2000, prEnv2 = sampleEnv\<rparr>"

lemma samplePoll_ok: "isOrder (wwOrder samplePoll)" "TransactionReceipt (wwClient samplePoll) tx \<noteq> Inr rc"
  by (simp_all add: samplePoll_def isOrder_rev sampleClient_def)

definition startLoop :: BundlingLoop where
  "startLoop = NewLoop (replicate 20 4) 10 5000000000"

theorem program_refines_lifecycle_witness:
  "(\<exists>s'. reachable hexLib (sqliteRepo hexLib) startLoop [] s' \<and>
     sdb s' = snd (watcherRun hexLib (sqliteRepo hexLib) (NewWatcher (entryPoint startLoop) 5000000000) [Ticked samplePoll, Done] table1)) \<and>
   (\<exists>s'. reachable hexLib (sqliteRepo hexLib) startLoop [] s' \<and>
     sdb s' = snd (run hexLib (\<lambda>_. Inr sampleFile) (\<lambda>_. Inr sampleConnection) (\<lambda>_ _. Inr plainKey) startOs rev calmEnv
       (\<lambda>_. calmEnv) calmEnv [] table1))"
proof -
  have m: "mRepo sampleMethods = sqliteRepo hexLib" by (simp add: sampleMethods_def)
  have ep: "hd (EntryPoints cfg) = entryPoint startLoop" if "Load (\<lambda>_. Inr sampleFile) startOs (resolvePath startOs []) = Ok cfg" for cfg
    using that by (auto simp: start_load startLoop_def NewLoop_def)
  from program_refines_lifecycle [OF hexLib_ok sample_reachable_any [of startLoop] m isOrder_rev, of "\<lambda>_. Inr sampleFile" startOs "[]" "[]"
      "[Ticked samplePoll, Done]"] ep samplePoll_ok(1)
  show ?thesis by simp
qed

theorem goroutines_run_until_signal_witness:
  "\<exists>b. run hexLib (\<lambda>_. Inr sampleFile) (\<lambda>_. Inr sampleConnection) (\<lambda>_ _. Inr plainKey) startOs rev calmEnv (\<lambda>_. calmEnv) calmEnv [] [] =
       (Ok b, []) \<and>
     loopRun hexLib (sqliteRepo hexLib) (bLoop b) [Ticked sampleWake, Done] table1 =
       (Returned, snd (tickWork hexLib (sqliteRepo hexLib) (bLoop b) sampleWake table1)) \<and>
     fst (watcherRun hexLib (sqliteRepo hexLib) (bWatcher b) [Ticked samplePoll, Done] table1) = Returned"
proof -
  have node: "HeaderBaseFee (flakyNode True) \<noteq> Inr None" "key_ok (signerKey startSigner)"
    "lwSigner sampleWake = asSigner (flakyNode True) startSigner"
    by (simp_all add: flakyNode_def startSigner_def sampleWake_def)
  then have "\<forall>w \<in> set [sampleWake]. \<exists>client s. lwSigner w = asSigner client s \<and> key_ok (signerKey s) \<and> HeaderBaseFee client \<noteq> Inr None"
    by auto
  moreover have "(0::int) < wrap64 (12000 * 1000000)" by code_simp
  ultimately show ?thesis
    using goroutines_run_until_signal [OF hexLib_ok table1_view(1) sample_start start_load,
        of "[sampleWake]" "[samplePoll]" "[]" "[]" "[]" "[]"] samplePoll_ok sample_start by simp
qed

text \<open>A revert reason whose length word is \<open>2 ^ 63\<close>.\<close>

definition badReceipt :: Receipt where
  "badReceipt = \<lparr>rcStatus = 1, rcLogs = [\<lparr>logAddress = replicate 20 4,
     logTopics = [userOperationRevertReasonTopic hexLib, sampleHash 1],
     logData = replicate 64 0 @ abiUint (2 ^ 63)\<rparr>], rcBlockNumber = 77\<rparr>"

lemma badReceipt_panics: "panics (ParseHandleOpsReceipt hexLib badReceipt (replicate 20 4))"
proof -
  have "length (abiUint (2 ^ 63)) = 32" by simp
  moreover have "slice 64 96 (replicate 64 0 @ abiUint (2 ^ 63)) = abiUint (2 ^ 63)"
    by (simp add: slice_def)
  moreover have "SetBytes (abiUint (2 ^ 63)) = 2 ^ 63" by (rule SetBytes_abiUint) (simp add: uint256_def)
  moreover have "wrap64 (96 + Int64 (2 ^ 63)) < 0" by code_simp
  ultimately show ?thesis
    using hexLib_topics
    by (simp add: ParseHandleOpsReceipt_def badReceipt_def parseLog_def parseRevertReason_def goSlice_def panics_def Let_def)
qed

definition badClient :: BundleClient where
  "badClient = sampleClient\<lparr>TransactionReceipt := (\<lambda>_. Inr badReceipt)\<rparr>"

theorem poisoned_receipt_stops_bundler_witness:
  "panics (fst (Poll hexLib (sqliteRepo hexLib) badClient (replicate 20 4) rev (\<lambda>_. sampleEnv) table2)) \<and>
   fst (bundlerMain (bind_res (fst (run hexLib (\<lambda>_. Inr sampleFile) (\<lambda>_. Inr (sampleConnection\<lparr>connBundle := badClient\<rparr>)) (\<lambda>_ _. Inr plainKey)
       startOs rev calmEnv (\<lambda>_. sampleEnv) calmEnv [] table2)) (\<lambda>_. Ok ()))) \<noteq> 0"
  using poisoned_receipt_stops_bundler [OF hexLib_ok table2_view(1) isOrder_rev table2_view(2), of "sampleHash 200" badReceipt "{replicate 20 4}"
      "\<lambda>_. Inr sampleFile" startOs "[]" "\<lambda>_. Inr (sampleConnection\<lparr>connBundle := badClient\<rparr>)" badClient "replicate 20 4" "\<lambda>_. sampleEnv"
      "\<lambda>_ _. Inr plainKey" calmEnv "\<lambda>_. sampleEnv" calmEnv "\<lambda>_. Ok ()"]
    badReceipt_panics
  by (simp add: start_load badClient_def badReceipt_def [THEN arg_cong, of rcStatus])

end
