(* ===== verification/Deployment.thy ===== *)
theory Deployment
  imports Daemon
begin

text \<open>
  \<open>.railway/railway.go\<close>: the description of the hosted service. It computes nothing but a document; the
  functions of the hosting service's library that build it are free constructors here. What the description relies on
  in the program is stated over the models of \<open>Startup\<close> and \<open>Rpc\<close>: the path of the health check, and
  the environment variables.
\<close>

section \<open>The description\<close>

datatype doc =
    DStr string
  | DInt int
  | DMap "(string \<times> doc) list"
  | Preserve
  | Volume string "(string \<times> doc) list"
  | Github string "(string \<times> doc) list"
  | ServiceNamed string "(string \<times> doc) list"
  | ProjectNamed string "doc list"

definition Partial :: string where
  "Partial = ''signet-min-bundler''"

definition Railway :: doc where
  "Railway =
     (let data = Volume ''signet-min-bundler-volume'' [(''region'', DStr ''sfo''), (''sizeMB'', DInt 50000)];
          signetMinBundler = ServiceNamed ''signet-min-bundler''
            [(''source'', Github ''oleary-labs/signet-min-bundler'' [(''branch'', DStr ''main'')]),
             (''healthcheck'', DStr ''/healthz''),
             (''healthcheckTimeout'', DInt 300),
             (''replicas'', DInt 1),
             (''deploy'', DMap
                [(''restartPolicyType'', DStr ''ON_FAILURE''),
                 (''restartPolicyMaxRetries'', DInt 10)]),
             (''volumeMounts'', DMap [(''/data'', data)]),
             (''variables'', DMap
                [(''BUNDLER_KEYSTORE_B64'', Preserve),
                 (''BUNDLER_KEYSTORE_PASSWORD'', Preserve),
                 (''BUNDLER_PROVER_API_KEY'', Preserve),
                 (''BUNDLER_RPC_URL'', Preserve),
                 (''BUNDLER_LOG_LEVEL'', DStr ''info''),
                 (''PORT'', DStr ''4337'')])]
      in ProjectNamed ''signet-platform'' [data, signetMinBundler])"

text \<open>Looking up a setting of the service.\<close>

fun serviceSettings :: "doc \<Rightarrow> (string \<times> doc) list" where
  "serviceSettings (ProjectNamed n ds) = concat (map (\<lambda>d. case d of ServiceNamed s kvs \<Rightarrow> kvs | _ \<Rightarrow> []) ds)"
| "serviceSettings _ = []"

definition setting :: "string \<Rightarrow> doc option" where
  "setting k = map_of (serviceSettings Railway) k"

definition variables :: "(string \<times> doc) list" where
  "variables = (case setting ''variables'' of Some (DMap kvs) \<Rightarrow> kvs | _ \<Rightarrow> [])"

lemma variables_eq:
  "variables =
     [(''BUNDLER_KEYSTORE_B64'', Preserve), (''BUNDLER_KEYSTORE_PASSWORD'', Preserve), (''BUNDLER_PROVER_API_KEY'', Preserve),
      (''BUNDLER_RPC_URL'', Preserve), (''BUNDLER_LOG_LEVEL'', DStr ''info''), (''PORT'', DStr ''4337'')]"
  by (simp add: variables_def setting_def Railway_def Let_def)

section \<open>The environment of the program\<close>

definition programEnv :: "string set" where
  "programEnv = {''BUNDLER_CONFIG'', ''BUNDLER_RPC_URL'', ''BUNDLER_PROVER_API_KEY'', ''BUNDLER_KEYSTORE_PASSWORD'',
     ''BUNDLER_DEV'', ''BUNDLER_LOG_LEVEL''}"

definition sameFor :: "string set \<Rightarrow> os \<Rightarrow> os \<Rightarrow> bool" where
  "sameFor V os os' \<longleftrightarrow> ReadFile os = ReadFile os' \<and> UserHomeDir os = UserHomeDir os' \<and> ZapBuild os = ZapBuild os' \<and>
     (\<forall>v \<in> V. Getenv os v = Getenv os' v)"

text \<open>Two environments that agree on these variables start the same program.\<close>

theorem run_reads_environment:
  assumes "sameFor programEnv os os'"
  shows "run L unmarshal dial DecryptKey os order eo es esp configPath t =
    run L unmarshal dial DecryptKey os' order eo es esp configPath t"
proof -
  have env: "Getenv os v = Getenv os' v" if "v \<in> programEnv" for v using assms that by (simp add: sameFor_def)
  have same: "ReadFile os = ReadFile os'" "UserHomeDir os = UserHomeDir os'" "ZapBuild os = ZapBuild os'"
    using assms by (simp_all add: sameFor_def)
  have "resolvePath os p = resolvePath os' p" for p using env by (simp add: resolvePath_def programEnv_def)
  moreover have "applyEnvOverrides os c = applyEnvOverrides os' c" for c
    using env by (simp add: applyEnvOverrides_def programEnv_def)
  then have "Load unmarshal os p = Load unmarshal os' p" for p
    using same by (simp add: Load_def Let_def cong: sum.case_cong)
  moreover have "buildLogger os = buildLogger os'" using env same by (simp add: buildLogger_def programEnv_def)
  moreover have "ExpandPath os p = ExpandPath os' p" for p using same by (simp add: ExpandPath_def)
  moreover have "Getenv os ''BUNDLER_KEYSTORE_PASSWORD'' = Getenv os' ''BUNDLER_KEYSTORE_PASSWORD''"
    by (rule env) (simp add: programEnv_def)
  then have "LoadKey L os DecryptKey p ex c = LoadKey L os' DecryptKey p ex c" for p ex c
    using same by (simp add: LoadKey_def cong: sum.case_cong)
  ultimately show ?thesis by (simp add: run_def prepare_def)
qed

section \<open>What the description relies on\<close>

text \<open>
  The probe of the hosting service needs no key and never fails; the secrets of the program are declared without a
  value; and the two other variables do not reach the program: its listen address does not depend on
  \<open>PORT\<close>, as the comment says.
\<close>

theorem deployment_fits_program:
  assumes "setting ''healthcheck'' = Some (DStr path)"
    and "\<forall>v \<in> - {''PORT'', ''BUNDLER_KEYSTORE_B64''}. Getenv os v = Getenv os' v" "sameFor {} os os'"
  shows "(reqPath r = path \<longrightarrow> serve L parseJson apiKey prover m e r st =
      (\<lparr>httpStatus = 200, httpType = jsonType, httpBody = TextBody ''{\"ok\":true}''\<rparr>, st)) \<and>
    (\<forall>v \<in> {''BUNDLER_RPC_URL'', ''BUNDLER_PROVER_API_KEY'', ''BUNDLER_KEYSTORE_PASSWORD''}.
      v \<in> programEnv \<and> map_of variables v = Some Preserve) \<and>
    (\<forall>(v, d) \<in> set variables. v \<in> programEnv \<or> v \<in> {''PORT'', ''BUNDLER_KEYSTORE_B64''}) \<and>
    run L unmarshal dial DecryptKey os order eo es esp configPath t =
      run L unmarshal dial DecryptKey os' order eo es esp configPath t"
proof (intro conjI)
  show "run L unmarshal dial DecryptKey os order eo es esp configPath t =
      run L unmarshal dial DecryptKey os' order eo es esp configPath t"
    by (rule run_reads_environment) (use assms(2,3) in \<open>auto simp: sameFor_def programEnv_def\<close>)
  have "path = ''/healthz''" using assms(1) by (simp add: setting_def Railway_def Let_def)
  then show "reqPath r = path \<longrightarrow> serve L parseJson apiKey prover m e r st =
      (\<lparr>httpStatus = 200, httpType = jsonType, httpBody = TextBody ''{\"ok\":true}''\<rparr>, st)"
    by (simp add: serve_def recoverMiddleware_def httpHandler_def)
qed (simp_all add: variables_eq programEnv_def)

end
