(* ===== verification/EndToEnd.thy ===== *)
theory EndToEnd
  imports Startup Lifecycle
begin

text \<open>
  The way of an operation through the whole program: accepted by the server, bundled by the loop,
  settled by the watcher, and asked for by the client that sent it.
\<close>

section \<open>The steps, seen from one operation\<close>





section \<open>From the request to the receipt\<close>


section \<open>A sample run\<close>







end
