(* ===== verification/Tools.thy ===== *)
theory Tools
  imports Startup GoText
begin

text \<open>
  The two command-line tools: \<open>cmd/keygen\<close>, which makes the hot key and writes it to an encrypted file, and
  \<open>cmd/invite\<close>, which issues invite codes. Key generation and encryption (go-ethereum), the terminal and
  the file system are parameters; a file that is written completely is the second result. Text
  printed for the operator is left out except for the codes themselves.
\<close>

section \<open>Package path/filepath\<close>

text \<open>\<open>Clean\<close> and \<open>Dir\<close> on Unix: empty and dot elements go, and \<open>..\<close> takes back the element before it.\<close>

fun cleanElems :: "bool \<Rightarrow> string list \<Rightarrow> string list \<Rightarrow> string list" where
  "cleanElems rooted [] out = rev out"
| "cleanElems rooted (e # es) out =
     (if e = [] \<or> e = ''.'' then cleanElems rooted es out
      else if e = ''..'' then
        (case out of
           [] \<Rightarrow> cleanElems rooted es (if rooted then [] else [''..''])
         | d # ds \<Rightarrow> cleanElems rooted es (if d = ''..'' then ''..'' # out else ds))
      else cleanElems rooted es (e # out))"

definition Clean :: "string \<Rightarrow> string" where
  "Clean path =
     (let rooted = hasPrefix path ''/'';
          out = joinStrings ''/'' (cleanElems rooted (splitN path (CHR ''/'') (Suc (length path))) [])
      in if rooted then ''/'' @ out else if out = [] then ''.'' else out)"

definition Dir :: "string \<Rightarrow> string" where
  "Dir path = Clean (rev (dropWhile (\<lambda>c. c \<noteq> CHR ''/'') (rev path)))"

section \<open>keygen\<close>

record keygenWorld =
  GenerateKey :: "string + Key"
  ReadPassword :: "nat \<Rightarrow> string + bytes"
  EncryptKey :: "Key \<Rightarrow> string \<Rightarrow> string + bytes"
  kgMkdirAll :: "string \<Rightarrow> string option"
  kgWriteFile :: "string \<Rightarrow> bytes \<Rightarrow> string option"

definition external :: "string \<Rightarrow> string + 'a \<Rightarrow> 'a res" where
  "external what r = (case r of Inl m \<Rightarrow> Err (ErrWrap what (ErrExt m)) | Inr x \<Rightarrow> Ok x)"

definition performed :: "string \<Rightarrow> string option \<Rightarrow> unit res" where
  "performed what r = (case r of Some m \<Rightarrow> Err (ErrWrap what (ErrExt m)) | None \<Rightarrow> Ok ())"

text \<open>The password from the environment, or asked for twice.\<close>

definition keygenPassword :: "keygenWorld \<Rightarrow> os \<Rightarrow> bytes res" where
  "keygenPassword W os =
     bind_res
       (let envPass = Getenv os ''BUNDLER_KEYSTORE_PASSWORD'' in
        if envPass \<noteq> [] then Ok (stringBytes envPass)
        else
          bind_res (external ''read password'' (ReadPassword W 0)) (\<lambda>p1.
          bind_res (external ''read password'' (ReadPassword W 1)) (\<lambda>pass2.
            if bytesString p1 \<noteq> bytesString pass2 then Err (ErrText ''passwords do not match'') else Ok p1)))
       (\<lambda>pass1. if length pass1 = 0 then Err (ErrText ''password cannot be empty'') else Ok pass1)"

text \<open>\<open>run\<close>: the address that is printed, and the file that was written.\<close>

definition keygen :: "keygenWorld \<Rightarrow> os \<Rightarrow> string \<Rightarrow> address res \<times> (string \<times> bytes) option" where
  "keygen W os outPath =
     (case bind_res (external ''generate key'' (GenerateKey W)) (\<lambda>privateKey.
           bind_res (keygenPassword W os) (\<lambda>pass1.
           bind_res (external ''encrypt key'' (EncryptKey W privateKey (bytesString pass1))) (\<lambda>encrypted.
           bind_res (performed ''create directory'' (kgMkdirAll W (Dir outPath))) (\<lambda>_.
           bind_res (performed ''write keystore'' (kgWriteFile W outPath encrypted)) (\<lambda>_.
           Ok (keyAddress privateKey, encrypted)))))) of
        Ok (address, encrypted) \<Rightarrow> (Ok address, Some (outPath, encrypted))
      | Err er \<Rightarrow> (Err er, None)
      | Panic m \<Rightarrow> (Panic m, None))"

section \<open>invite\<close>

record toolExit =
  exitCode :: nat
  stdout :: "string list"
  stderr :: "error option"

text \<open>\<open>main\<close>: opening the database may fail, and so may each statement; a panic exits with status 2.\<close>

definition inviteMain :: "string \<Rightarrow> int \<Rightarrow> string option \<Rightarrow> dbenv \<Rightarrow> dbenv \<Rightarrow> (nat \<Rightarrow> bytes) \<Rightarrow> sponsorDb \<Rightarrow> toolExit \<times> sponsorDb" where
  "inviteMain dbPath n openFault em e rnd db =
     (if dbPath = [] then (\<lparr>exitCode = 1, stdout = [], stderr = Some (ErrText ''usage: invite --db <path> [--count N]'')\<rparr>, db)
      else
     (case openFault of
        Some m \<Rightarrow> (\<lparr>exitCode = 1, stdout = [], stderr = Some (ErrWrap ''open db'' (ErrExt m))\<rparr>, db)
      | None \<Rightarrow>
     (case OpenSponsor em of
        Err er \<Rightarrow> (\<lparr>exitCode = 1, stdout = [], stderr = Some (ErrWrap ''init sponsor store'' er)\<rparr>, db)
      | Panic m \<Rightarrow> (\<lparr>exitCode = 2, stdout = [], stderr = Some (ErrText m)\<rparr>, db)
      | Ok _ \<Rightarrow>
     (case GenerateCodes e rnd n db of
        (Err er, db) \<Rightarrow> (\<lparr>exitCode = 1, stdout = [], stderr = Some (ErrWrap ''generate codes'' er)\<rparr>, db)
      | (Panic m, db) \<Rightarrow> (\<lparr>exitCode = 2, stdout = [], stderr = Some (ErrText m)\<rparr>, db)
      | (Ok codes, db) \<Rightarrow> (\<lparr>exitCode = 0, stdout = codes, stderr = None\<rparr>, db)))))"

section \<open>Properties\<close>

lemma external_Ok [simp]: "external w r = Ok x \<longleftrightarrow> r = Inr x"
  by (auto simp: external_def split: sum.splits)

lemma performed_Ok [simp]: "performed w r = Ok u \<longleftrightarrow> r = None"
  by (auto simp: performed_def split: option.splits)

lemma keygenPassword_nonempty: "keygenPassword W os = Ok p \<Longrightarrow> p \<noteq> []"
  by (auto simp: keygenPassword_def split: if_splits)

text \<open>
C16: what \<open>keygen\<close> writes, the bundler can load: after a successful run, with the file where it was written and
the password that was used in the environment, \<open>Load\<close> of the signer gives the generated key, also
when the configuration expects the printed address; and that password is never the empty one, which \<open>Load\<close>
refuses.
\<close>

theorem keygen_then_load:
  assumes ok: "keygen W os outPath = (Ok address, file)"
    and keystore: "\<And>key pass enc. GenerateKey W = Inr key \<Longrightarrow> EncryptKey W key pass = Inr enc \<Longrightarrow> DecryptKey enc pass = Inr key"
    and later: "\<And>path enc. file = Some (path, enc) \<Longrightarrow> ReadFile os' path = Inr enc"
    and pass: "\<And>p. keygenPassword W os = Ok p \<Longrightarrow> Getenv os' ''BUNDLER_KEYSTORE_PASSWORD'' = bytesString p"
    and expect: "expectedAddress \<in> {None, Some address}"
  shows "\<exists>key s. GenerateKey W = Inr key \<and> LoadKey L os' DecryptKey outPath expectedAddress cid = Ok s \<and> signerKey s = key \<and>
    signerAddress s = address \<and> Getenv os' ''BUNDLER_KEYSTORE_PASSWORD'' \<noteq> []"
proof -
  obtain key p enc where key: "GenerateKey W = Inr key" "keygenPassword W os = Ok p" "EncryptKey W key (bytesString p) = Inr enc"
    and out: "address = keyAddress key" "file = Some (outPath, enc)"
    using ok by (auto simp: keygen_def split: res.splits)
  have "bytesString p \<noteq> []" using keygenPassword_nonempty [OF key(2)] by (simp add: bytesString_def)
  with key keystore later [OF out(2)] pass [OF key(2)] expect out(1) show ?thesis
    by (auto simp: LoadKey_def signerAddress_def)
qed

text \<open>Typing the password at the prompt.\<close>

definition sampleKeygen :: keygenWorld where
  "sampleKeygen = \<lparr>GenerateKey = Inr plainKey, ReadPassword = (\<lambda>_. Inr (stringBytes ''secret'')),
     EncryptKey = (\<lambda>_ p. Inr (stringBytes p)), kgMkdirAll = (\<lambda>d. if d = ''/root/.bundler'' then None else Some ''denied''),
     kgWriteFile = (\<lambda>_ _. None)\<rparr>"

theorem keygen_then_load_witness:
  "\<exists>s. LoadKey hexLib (startOs\<lparr>ReadFile := (\<lambda>_. Inr (stringBytes ''secret''))\<rparr>)
       (\<lambda>enc p. if enc = stringBytes p then Inr plainKey else Inl ''could not decrypt key with given password'')
       ''/root/.bundler/keystore.json'' (Some (replicate 20 7)) 1 = Ok s \<and> signerAddress s = replicate 20 7"
proof -
  have "Dir ''/root/.bundler/keystore.json'' = ''/root/.bundler''" by code_simp
  moreover have "keygenPassword sampleKeygen sampleOs = Ok (stringBytes ''secret'')"
    by (simp add: keygenPassword_def sampleKeygen_def sampleOs_def stringBytes_def)
  moreover have "keyAddress plainKey = replicate 20 7" by (simp add: plainKey_def)
  ultimately have "keygen sampleKeygen sampleOs ''/root/.bundler/keystore.json'' =
      (Ok (replicate 20 7), Some (''/root/.bundler/keystore.json'', stringBytes ''secret''))"
    by (simp add: keygen_def external_def performed_def) (simp add: sampleKeygen_def)
  from keygen_then_load [OF this, of "\<lambda>enc p. if enc = stringBytes p then Inr plainKey else Inl ''could not decrypt key with given password''"
      "startOs\<lparr>ReadFile := (\<lambda>_. Inr (stringBytes ''secret''))\<rparr>" "Some (replicate 20 7)" hexLib 1] \<open>keygenPassword sampleKeygen sampleOs = _\<close>
  show ?thesis by (auto simp: sampleKeygen_def startOs_def)
qed

section \<open>Issued codes\<close>

lemma GenerateCodes_Ok:
  assumes "sponsor_inv L db" "GenerateCodes e rnd n db = (Ok codes, db')"
  shows "length codes = nat n \<and> distinct codes \<and> sponsor_inv L db' \<and>
    (\<forall>c. inviteView L db' c = (if c \<in> set codes then Some None else inviteView L db c)) \<and>
    (\<forall>c \<in> set codes. inviteView L db c = None)"
proof -
  obtain t where t: "insertCodes e 2 codes (invite_codes db) = Ok t" "length codes = nat n" "db' = db\<lparr>invite_codes := t\<rparr>"
    using assms(2) by (auto simp: GenerateCodes_def Let_def split: if_splits res.splits)
  have d: "distinct (map i_code (invite_codes db))" using assms(1) by (simp add: sponsor_inv_def)
  note ins = insertCodes_ok [OF t(1) d]
  have inv: "sponsor_inv L db'" using GenerateCodes_inv [OF assms(1), of e rnd n] assms(2) by simp
  have codes: "distinct codes" "set codes \<inter> set (map i_code (invite_codes db)) = {}"
    using ins by (auto simp: comp_def disjoint_iff)
  have "inviteView L db' c = (if c \<in> set codes then Some None else inviteView L db c)" for c
  proof (cases "c \<in> set codes")
    case True
    then have "newInvite c (clock e) \<in> set (invite_codes db')" using ins t(3) by simp
    moreover have "distinct (map i_code (invite_codes db'))" using inv by (simp add: sponsor_inv_def)
    ultimately show ?thesis using True inviteView_Some [of db' "newInvite c (clock e)" L] by simp
  next
    case False
    then have "filter (\<lambda>r. i_code r = c) (map (\<lambda>c. newInvite c (clock e)) codes) = []" by (auto simp: filter_empty_conv)
    with False ins t(3) show ?thesis by (simp add: inviteView_def)
  qed
  then show ?thesis using codes t(2) inv by (auto simp: inviteView_None)
qed

text \<open>
C15: the codes \<open>invite\<close> prints admit senders: they are as many as asked for, distinct and new, and on a working
database each lets one sender in, who passes the gate afterwards, while a second sender with the same
code is refused. A run that fails prints nothing and leaves the tables as they were.
\<close>

theorem printed_codes_admit_senders:
  assumes L: "ethlib_ok L" and db: "sponsor_inv L db" and run: "inviteMain dbPath n openFault em e rnd db = (x, db')"
  shows "sponsor_inv L db' \<and> (exitCode x \<noteq> 0 \<longrightarrow> stdout x = [] \<and> db' = db) \<and>
    (exitCode x = 0 \<longrightarrow> int (length (stdout x)) = n \<and> distinct (stdout x) \<and>
      (\<forall>c \<in> set (stdout x). inviteView L db c = None \<and>
        (\<forall>a b e1 e2. length a = 20 \<longrightarrow> length b = 20 \<longrightarrow> a \<noteq> b \<longrightarrow> {a, b} \<inter> whitelist (inviteView L db) = {} \<longrightarrow> quiet e1 \<longrightarrow>
          fst (RedeemCode L e1 c a db') = Ok () \<and> CheckSender L e1 a (snd (RedeemCode L e1 c a db')) \<and>
          fst (RedeemCode L e2 c b (snd (RedeemCode L e1 c a db'))) \<noteq> Ok ())))"
proof (cases "exitCode x = 0")
  case False
  have "snd (GenerateCodes e rnd n db) = db" if "\<not> is_ok (fst (GenerateCodes e rnd n db))"
    using that by (auto simp: GenerateCodes_def Let_def split: if_splits res.splits)
  then have "stdout x = [] \<and> db' = db"
    using run False by (auto simp: inviteMain_def split: if_splits option.splits res.splits prod.splits)
  with db False show ?thesis by simp
next
  case True
  then have gen: "GenerateCodes e rnd n db = (Ok (stdout x), db')"
    using run by (auto simp: inviteMain_def split: if_splits option.splits res.splits prod.splits)
  note issued = GenerateCodes_Ok [OF db gen]
  have n: "0 \<le> n" using gen by (simp add: GenerateCodes_def split: if_splits)
  have same: "whitelist (inviteView L db') = whitelist (inviteView L db)"
    using issued by (force simp: whitelist_def)
  note gate = sponsor_gate [OF L]
  have one: "fst (RedeemCode L e1 c a db') = Ok () \<and> CheckSender L e1 a (snd (RedeemCode L e1 c a db')) \<and>
      fst (RedeemCode L e2 c b (snd (RedeemCode L e1 c a db'))) \<noteq> Ok ()"
    if c: "c \<in> set (stdout x)" and a: "length a = 20" and b: "length b = 20" "a \<noteq> b"
      and new: "{a, b} \<inter> whitelist (inviteView L db) = {}" and e1: "quiet e1" for a b c e1 e2
  proof -
    let ?db = "snd (RedeemCode L e1 c a db')"
    have inv: "sponsor_inv L db'" "inviteView L db' c = Some None" using issued c by simp_all
    have ok: "fst (RedeemCode L e1 c a db') = Ok ()"
      using invite_gate.redeem_progress [OF gate inv(1) a e1] inv(2) by blast
    then have "RedeemCode L e1 c a db' = (Ok (), ?db)" by (simp add: prod_eq_iff)
    from invite_gate.redeem_ok [OF gate inv(1) a this] new same
    have v: "sponsor_inv L ?db" "inviteView L ?db = (inviteView L db')(c \<mapsto> Some a)" by auto
    have "a \<in> whitelist (inviteView L ?db)" by (auto simp: whitelist_def v(2))
    then have check: "CheckSender L e1 a ?db" by (rule invite_gate.check_complete [OF gate v(1) a e1])
    have "b \<notin> whitelist (inviteView L ?db)" using b(2) new same by (auto simp: whitelist_def v(2))
    then have "fst (RedeemCode L e2 c b ?db) \<noteq> Ok ()"
      using invite_gate.redeem_cases [OF gate v(1) b(1), of e2 c] v(2) by (metis fun_upd_same option.distinct(1) option.inject)
    with ok check show ?thesis by blast
  qed
  show ?thesis using issued n True one by simp
qed

theorem printed_codes_admit_senders_witness:
  "\<exists>db'. inviteMain ''bundler.db'' 1 None calmEnv calmEnv (\<lambda>_. [222, 173, 190, 239]) emptySponsor =
       (\<lparr>exitCode = 0, stdout = [''deadbeef''], stderr = None\<rparr>, db') \<and>
     CheckSender hexLib calmEnv (replicate 20 1) (snd (RedeemCode hexLib calmEnv ''deadbeef'' (replicate 20 1) db'))"
proof -
  have code: "generateCode [222, 173, 190, 239] = ''deadbeef''" by code_simp
  obtain db' where run: "inviteMain ''bundler.db'' 1 None calmEnv calmEnv (\<lambda>_. [222, 173, 190, 239]) emptySponsor =
      (\<lparr>exitCode = 0, stdout = [''deadbeef''], stderr = None\<rparr>, db')"
    by (simp add: inviteMain_def OpenSponsor_def GenerateCodes_def code emptySponsor_def)
  moreover have other: "replicate 20 1 \<noteq> replicate 20 (2::byte)" by simp
  moreover have "whitelist (inviteView hexLib emptySponsor) = {}" by (simp add: whitelist_def inviteView_def emptySponsor_def)
  then have "CheckSender hexLib calmEnv (replicate 20 1) (snd (RedeemCode hexLib calmEnv ''deadbeef'' (replicate 20 1) db'))"
    using printed_codes_admit_senders [OF hexLib_ok emptySponsor_inv run, THEN conjunct2, THEN conjunct2]
      length_replicate [of 20 "1::byte"] length_replicate [of 20 "2::byte"] other by (metis calmEnv_simps(1) empty_iff inf_bot_right list.set_intros(1) toolExit.select_convs(1,2))
  ultimately show ?thesis by blast
qed

end
