(* ===== verification/Crypto.thy ===== *)
theory Crypto
  imports Pack "HOL-Library.Word"
begin

text \<open>
  \<open>internal/core/crypto.go\<close>: the signer address of a compressed secp256k1 key, the message expansion of
  RFC 9380 and the FROST challenge of RFC 9591. SHA-256 of Go's standard library is written out on
  32-bit words; \<open>big.Int.Exp\<close> is square and multiply.
\<close>

unbundle bit_operations_syntax

section \<open>Package crypto/sha256\<close>

type_synonym w32 = "32 word"

text \<open>Tables of 32-bit words, eight to a row of 256 bits.\<close>

definition rowWords :: "int \<Rightarrow> w32 list" where
  "rowWords r = map (\<lambda>i. word_of_int (r div 2 ^ (32 * (7 - i)))) [0..<8]"

definition sha256K :: "w32 list" where
  "sha256K = concat (map rowWords
    [0x428a2f9871374491b5c0fbcfe9b5dba53956c25b59f111f1923f82a4ab1c5ed5,
     0xd807aa9812835b01243185be550c7dc372be5d7480deb1fe9bdc06a7c19bf174,
     0xe49b69c1efbe47860fc19dc6240ca1cc2de92c6f4a7484aa5cb0a9dc76f988da,
     0x983e5152a831c66db00327c8bf597fc7c6e00bf3d5a7914706ca635114292967,
     0x27b70a852e1b21384d2c6dfc53380d13650a7354766a0abb81c2c92e92722c85,
     0xa2bfe8a1a81a664bc24b8b70c76c51a3d192e819d6990624f40e3585106aa070,
     0x19a4c1161e376c082748774c34b0bcb5391c0cb34ed8aa4a5b9cca4f682e6ff3,
     0x748f82ee78a5636f84c878148cc7020890befffaa4506cebbef9a3f7c67178f2])"

definition sha256Init :: "w32 list" where
  "sha256Init = rowWords 0x6a09e667bb67ae853c6ef372a54ff53a510e527f9b05688c1f83d9ab5be0cd19"

definition smallSigma0 :: "w32 \<Rightarrow> w32" where
  "smallSigma0 x = word_rotr 7 x XOR word_rotr 18 x XOR drop_bit 3 x"

definition smallSigma1 :: "w32 \<Rightarrow> w32" where
  "smallSigma1 x = word_rotr 17 x XOR word_rotr 19 x XOR drop_bit 10 x"

definition bigSigma0 :: "w32 \<Rightarrow> w32" where
  "bigSigma0 x = word_rotr 2 x XOR word_rotr 13 x XOR word_rotr 22 x"

definition bigSigma1 :: "w32 \<Rightarrow> w32" where
  "bigSigma1 x = word_rotr 6 x XOR word_rotr 11 x XOR word_rotr 25 x"

definition shaRound :: "w32 list \<Rightarrow> w32 \<times> w32 \<Rightarrow> w32 list" where
  "shaRound st kw =
     (case st of
        [a, b, c, d, e, f, g, h] \<Rightarrow>
          let t1 = h + bigSigma1 e + ((e AND f) XOR (NOT e AND g)) + fst kw + snd kw;
              t2 = bigSigma0 a + ((a AND b) XOR (a AND c) XOR (b AND c))
          in [t1 + t2, a, b, c, d + t1, e, f, g]
      | _ \<Rightarrow> st)"

definition nextW :: "w32 list \<Rightarrow> w32" where
  "nextW ws = (let n = length ws in
     smallSigma1 (ws ! (n - 2)) + ws ! (n - 7) + smallSigma0 (ws ! (n - 15)) + ws ! (n - 16))"

fun schedule :: "nat \<Rightarrow> w32 list \<Rightarrow> w32 list" where
  "schedule 0 ws = ws"
| "schedule (Suc k) ws = schedule k (ws @ [nextW ws])"

fun wordsOf :: "bytes \<Rightarrow> w32 list" where
  "wordsOf (a # b # c # d # r) = word_of_int (SetBytes [a, b, c, d]) # wordsOf r"
| "wordsOf _ = []"

definition shaBlock :: "w32 list \<Rightarrow> bytes \<Rightarrow> w32 list" where
  "shaBlock st block =
     map2 (+) st (foldl shaRound st (zip sha256K (schedule 48 (wordsOf block))))"

function chunks64 :: "bytes \<Rightarrow> bytes list" where
  "chunks64 bs = (if bs = [] then [] else take 64 bs # chunks64 (drop 64 bs))"
  by pat_completeness auto
termination
  by (relation "measure length") auto

declare chunks64.simps [simp del]

definition shaPad :: "bytes \<Rightarrow> bytes" where
  "shaPad m = (let l = length m; z = (119 - l mod 64) mod 64 in
     m @ [0x80] @ replicate z 0 @ putUint64 (word_of_int (8 * int l)))"

definition bytes32 :: "w32 \<Rightarrow> bytes" where
  "bytes32 w = map (\<lambda>k. word_of_int (uint w div 256 ^ (3 - k))) [0..<4]"

definition sha256 :: "bytes \<Rightarrow> bytes" where
  "sha256 m = concat (map bytes32 (foldl shaBlock sha256Init (chunks64 (shaPad m))))"

text \<open>The first test vector of FIPS 180-4, the digest of \<open>abc\<close>.\<close>

lemma sha256_abc:
  "sha256 [0x61, 0x62, 0x63] =
    [0xba, 0x78, 0x16, 0xbf, 0x8f, 0x01, 0xcf, 0xea, 0x41, 0x41, 0x40, 0xde, 0x5d, 0xae, 0x22, 0x23,
     0xb0, 0x03, 0x61, 0xa3, 0x96, 0x17, 0x7a, 0x9c, 0xb4, 0x10, 0xff, 0x61, 0xf2, 0x00, 0x15, 0xad]"
  by code_simp

section \<open>Message expansion\<close>

definition xorBytes :: "bytes \<Rightarrow> bytes \<Rightarrow> bytes" where
  "xorBytes a b = map2 (XOR) a b"

text \<open>The loop \<open>for i := 2; i <= ell; i++\<close> over the list of blocks.\<close>

function xmdLoop :: "bytes \<Rightarrow> bytes \<Rightarrow> int \<Rightarrow> int \<Rightarrow> bytes list \<Rightarrow> bytes list" where
  "xmdLoop b0 dstPrime ell i bs =
     (if i \<le> ell then
        let prev = last bs;
            xorPrev = xorBytes (take 32 prev) (take 32 b0)
        in xmdLoop b0 dstPrime ell (i + 1) (bs @ [sha256 (xorPrev @ [word_of_int i] @ dstPrime)])
      else bs)"
  by pat_completeness auto
termination
  by (relation "measure (\<lambda>(b0, dst, ell, i, bs). nat (ell + 1 - i))") auto

declare xmdLoop.simps [simp del]

definition ExpandMessageXMD :: "bytes \<Rightarrow> bytes \<Rightarrow> int \<Rightarrow> bytes res" where
  "ExpandMessageXMD msg dstPrime outLen =
     (let ell = (outLen + 31) div 32;
          zPad = replicate 64 0;
          lStr = [word_of_int (outLen div 256), word_of_int outLen];
          b0 = sha256 (zPad @ msg @ lStr @ [0] @ dstPrime);
          b1 = sha256 (b0 @ [1] @ dstPrime);
          bs = xmdLoop b0 dstPrime ell 2 [b1];
          uniform = concat bs
      in goSlice 0 outLen uniform)"

definition secpN :: int where
  "secpN = 0xFFFFFFFFFFFFFFFFFFFFFFFFFFFFFFFEBAAEDCE6AF48A03BBFD25E8CD0364141"

definition FrostChallenge :: "bytes \<Rightarrow> int res" where
  "FrostChallenge input =
     (let dst = stringBytes ''FROST-secp256k1-SHA256-v1chal'';
          dstPrime = dst @ [word_of_int (int (length dst))]
      in bind_res (ExpandMessageXMD input dstPrime 48) (\<lambda>uniform.
         let c = SetBytes uniform in Ok (c mod secpN)))"

section \<open>Signer addresses\<close>

text \<open>\<open>x.Exp(x, e, m)\<close> for a non-negative exponent.\<close>

function modExp :: "int \<Rightarrow> nat \<Rightarrow> int \<Rightarrow> int" where
  "modExp b e m =
     (if e = 0 then 1 mod m
      else let h = modExp (b * b mod m) (e div 2) m in if odd e then h * b mod m else h)"
  by pat_completeness auto
termination
  by (relation "measure (\<lambda>(b, e, m). e)") auto

declare modExp.simps [simp del]

definition secpP :: int where
  "secpP = 0xFFFFFFFFFFFFFFFFFFFFFFFFFFFFFFFFFFFFFFFFFFFFFFFFFFFFFFFEFFFFFC2F"

definition curveY :: "int \<Rightarrow> byte \<Rightarrow> int" where
  "curveY x prefix =
     (let y2 = x * x mod secpP;
          y2 = y2 * x mod secpP;
          y2 = (y2 + 7) mod secpP;
          e = (secpP + 1) div 4;
          y = modExp y2 (nat e) secpP
      in if odd y \<noteq> (prefix = 3) then secpP - y else y)"

definition PubKeyToAddress :: "ethlib \<Rightarrow> bytes \<Rightarrow> address res" where
  "PubKeyToAddress L pubKey =
     (if length pubKey \<noteq> 33 then Err (ErrFmt ''pubKeyToAddress: need 33 bytes, got %d'' [FInt (int (length pubKey))])
      else
        let prefix = pubKey ! 0 in
        if prefix \<noteq> 2 \<and> prefix \<noteq> 3 then Err (ErrFmt ''pubKeyToAddress: invalid prefix 0x%02x'' [FInt (uint prefix)])
        else
          let x = SetBytes (slice 1 33 pubKey);
              y = curveY x prefix;
              h = Keccak256 L [PadLeft32 (Bytes x), PadLeft32 (Bytes y)]
          in Ok (copy_into 0 20 (drop 12 h) (replicate 20 0)))"

section \<open>Message expansion computes expand\_message\_xmd of RFC 9380\<close>

text \<open>
  The blocks of section 5.3.1 of the RFC, block \<open>k + 1\<close> at index \<open>k\<close>, and their concatenation cut to
  the requested length. The RFC aborts above 255 blocks, and for a length or a domain separation tag
  whose size does not fit its encoding.
\<close>

primrec rfcBlock :: "bytes \<Rightarrow> bytes \<Rightarrow> nat \<Rightarrow> bytes" where
  "rfcBlock b0 dst 0 = sha256 (b0 @ [1] @ dst)"
| "rfcBlock b0 dst (Suc k) = sha256 (xorBytes b0 (rfcBlock b0 dst k) @ [of_nat (k + 2)] @ dst)"

definition rfcUniform :: "bytes \<Rightarrow> bytes \<Rightarrow> nat \<Rightarrow> bytes" where
  "rfcUniform msg dst n =
     (let b0 = sha256 (replicate 64 0 @ msg @ [of_nat (n div 256), of_nat (n mod 256)] @ [0] @ dst)
      in take n (concat (map (rfcBlock b0 dst) [0..<(n + 31) div 32])))"

definition expand_message_xmd :: "bytes \<Rightarrow> bytes \<Rightarrow> nat \<Rightarrow> bytes option" where
  "expand_message_xmd msg DST n =
     (if (n + 31) div 32 > 255 \<or> n > 65535 \<or> length DST > 255 then None
      else Some (rfcUniform msg (DST @ [of_nat (length DST)]) n))"

lemma length_shaRound [simp]: "length (shaRound st kw) = length st"
  by (simp add: shaRound_def Let_def split: list.split)

lemma length_foldl_shaRound [simp]: "length (foldl shaRound st kws) = length st"
  by (induction kws arbitrary: st) simp_all

lemma length_foldl_shaBlock [simp]: "length (foldl shaBlock st blocks) = length st"
  by (induction blocks arbitrary: st) (simp_all add: shaBlock_def)

lemma concat_bytes32_length: "length (concat (map bytes32 ws)) = 4 * length ws"
  by (induction ws) (simp_all add: bytes32_def)

lemma length_sha256 [simp]: "length (sha256 m) = 32"
  by (simp add: sha256_def concat_bytes32_length sha256Init_def rowWords_def)

lemma length_rfcBlock [simp]: "length (rfcBlock b0 dst k) = 32"
  by (cases k) simp_all

lemma length_rfcBlocks: "length (concat (map (rfcBlock b0 dst) ks)) = 32 * length ks"
  by (induction ks) simp_all

lemma xorBytes_commute: "length a = length b \<Longrightarrow> xorBytes a b = xorBytes b a"
  by (induction a b rule: list_induct2) (simp_all add: xorBytes_def xor.commute)

lemma nat_max_int: "nat (max 1 (int n)) = max 1 n"
  by (simp add: max_def)

text \<open>The loop has made \<open>i - 1\<close> blocks when it is about to make block \<open>i\<close>.\<close>

lemma xmdLoop_blocks:
  assumes "length b0 = 32" "0 < k" "int k \<le> max 1 ell"
  shows "xmdLoop b0 dst ell (int k + 1) (map (rfcBlock b0 dst) [0..<k]) =
           map (rfcBlock b0 dst) [0..<nat (max 1 ell)]"
  using assms(2,3)
proof (induction "nat (max 1 ell) - k" arbitrary: k)
  case 0
  then have "k = nat (max 1 ell)" "\<not> int k + 1 \<le> ell" by linarith+
  then show ?case by (subst xmdLoop.simps) simp
next
  case (Suc d)
  from Suc.hyps(2) \<open>0 < k\<close> have more: "int k + 1 \<le> ell" "int (Suc k) \<le> max 1 ell"
    by (auto simp: max_def split: if_splits)
  from \<open>0 < k\<close> obtain j where j: "k = Suc j" by (cases k) auto
  have last: "last (map (rfcBlock b0 dst) [0..<k]) = rfcBlock b0 dst j"
    by (simp add: j last_map)
  have block: "sha256 (xorBytes (rfcBlock b0 dst j) b0 @ [word_of_int (int k + 1)] @ dst) = rfcBlock b0 dst k"
    using assms(1) by (simp add: j xorBytes_commute [of b0] algebra_simps)
  have "xmdLoop b0 dst ell (int k + 1) (map (rfcBlock b0 dst) [0..<k]) =
        xmdLoop b0 dst ell (int (Suc k) + 1) (map (rfcBlock b0 dst) [0..<Suc k])"
    using assms(1) more last block by (subst xmdLoop.simps) (simp add: Let_def)
  also have "\<dots> = map (rfcBlock b0 dst) [0..<nat (max 1 ell)]"
    using Suc.hyps(1) [of "Suc k"] Suc.hyps(2) more(2) by simp
  finally show ?case .
qed

lemma rfc_length_word: "(of_nat (n mod 256) :: byte) = of_nat n"
  by (rule word_unat_eq_iff [THEN iffD2]) (simp add: unat_of_nat)

lemma ExpandMessageXMD_total: "ExpandMessageXMD msg dst (int n) = Ok (rfcUniform msg dst n)"
proof -
  define b0 where "b0 = sha256 (replicate 64 0 @ msg @ [of_nat (n div 256), of_nat n] @ [0] @ dst)"
  define ell where "ell = (n + 31) div 32"
  have words: "word_of_int (int n div 256) = (of_nat (n div 256) :: byte)" "word_of_int (int n) = (of_nat n :: byte)"
    by (metis of_int_of_nat_eq of_nat_numeral zdiv_int) (rule of_int_of_nat_eq)
  have ell: "(int n + 31) div 32 = int ell" by (simp add: ell_def zdiv_int)
  have loop: "xmdLoop b0 dst (int ell) 2 [sha256 (b0 @ [1] @ dst)] = map (rfcBlock b0 dst) [0..<max 1 ell]"
    using xmdLoop_blocks [of b0 1 "int ell" dst] by (simp add: b0_def nat_max_int)
  have "n \<le> 32 * max 1 ell" unfolding ell_def by linarith
  then have cut: "goSlice 0 (int n) (concat (map (rfcBlock b0 dst) [0..<max 1 ell])) =
      Ok (take n (concat (map (rfcBlock b0 dst) [0..<max 1 ell])))"
    by (simp add: goSlice_def slice_def length_rfcBlocks)
  have "take n (concat (map (rfcBlock b0 dst) [0..<max 1 ell])) = take n (concat (map (rfcBlock b0 dst) [0..<ell]))"
  proof (cases "ell = 0")
    case True
    then have "n = 0" by (simp add: ell_def div_eq_0_iff)
    then show ?thesis by simp
  qed (simp add: max_def)
  moreover have "ExpandMessageXMD msg dst (int n) =
      goSlice 0 (int n) (concat (xmdLoop b0 dst (int ell) 2 [sha256 (b0 @ [1] @ dst)]))"
    by (simp only: ExpandMessageXMD_def Let_def words ell b0_def)
  moreover have "rfcUniform msg dst n = take n (concat (map (rfcBlock b0 dst) [0..<ell]))"
    by (simp only: rfcUniform_def Let_def b0_def ell_def rfc_length_word)
  ultimately show ?thesis using cut loop by simp
qed

lemma length_rfcUniform: "length (rfcUniform msg dst n) = n"
proof -
  have "n \<le> 32 * ((n + 31) div 32)" by linarith
  then show ?thesis by (simp add: rfcUniform_def Let_def length_rfcBlocks)
qed

text \<open>
  C28: Wherever RFC 9380 defines \<open>expand_message_xmd\<close> with SHA-256, \<open>ExpandMessageXMD\<close> on the suffixed
  domain separation tag returns (its loop ends and the final slice does not panic), and the result is
  the output of the RFC, of exactly the requested length.
\<close>
theorem ExpandMessageXMD_rfc9380:
  assumes "expand_message_xmd msg DST n = Some out"
  shows "ExpandMessageXMD msg (DST @ [of_nat (length DST)]) (int n) = Ok out \<and> length out = n"
  using assms by (auto simp: expand_message_xmd_def ExpandMessageXMD_total length_rfcUniform split: if_splits)

theorem ExpandMessageXMD_rfc9380_witness:
  "\<exists>out. expand_message_xmd [1, 2, 3] [7, 9] 48 = Some out \<and>
         ExpandMessageXMD [1, 2, 3] [7, 9, 2] 48 = Ok out \<and> length out = 48"
proof -
  obtain out where out: "expand_message_xmd [1, 2, 3] [7, 9] 48 = Some out"
    by (simp add: expand_message_xmd_def)
  then show ?thesis using ExpandMessageXMD_rfc9380 [OF out] by simp
qed

text \<open>The challenge is the expanded message reduced to a scalar of the group.\<close>

lemma FrostChallenge_scalar:
  "\<exists>c. FrostChallenge input = Ok c \<and> 0 \<le> c \<and> c < secpN \<and>
       (\<exists>out. expand_message_xmd input (stringBytes ''FROST-secp256k1-SHA256-v1chal'') 48 = Some out \<and>
              c = SetBytes out mod secpN)"
proof -
  have "ExpandMessageXMD input d 48 = Ok (rfcUniform input d 48)" for d
    using ExpandMessageXMD_total [of input d 48] by simp
  then show ?thesis by (simp add: FrostChallenge_def Let_def secpN_def expand_message_xmd_def)
qed

section \<open>Decompression of a public key\<close>

lemma modExp_power: "modExp b e m = b ^ e mod m"
proof (induction b e m rule: modExp.induct)
  case (1 b e m)
  show ?case
  proof (cases "e = 0")
    case False
    then have IH: "modExp (b * b mod m) (e div 2) m = (b * b) ^ (e div 2) mod m"
      using "1.IH" by (simp add: power_mod)
    have "b ^ e = (b * b) ^ (e div 2) * (if odd e then b else 1)"
      by (cases "odd e") (auto elim!: oddE evenE simp: power_mult power2_eq_square)
    then show ?thesis using False IH by (subst modExp.simps) (simp add: Let_def mod_mult_left_eq)
  qed (simp add: modExp.simps)
qed

text \<open>
  For a point \<open>(x, y)\<close> of the curve with Euler's criterion at \<open>y\<close> (every \<open>y\<close> of the field has it,
  \<open>secpP\<close> being prime), the root computed from \<open>x\<close> and the parity of \<open>y\<close> is \<open>y\<close> itself.
\<close>

lemma curveY_decompresses:
  assumes y: "0 < y" "y < secpP"
    and curve: "y * y mod secpP = (x * x * x + 7) mod secpP"
    and euler: "y ^ nat ((secpP - 1) div 2) mod secpP \<in> {1, secpP - 1}"
  shows "curveY x (if odd y then 3 else 2) = y"
proof -
  define h where "h = nat ((secpP - 1) div 2)"
  define e where "e = nat ((secpP + 1) div 4)"
  have P: "0 < secpP" "odd secpP" by (simp_all add: secpP_def)
  have he: "2 * e = h + 1" by (simp add: h_def e_def secpP_def)
  have y2: "((x * x mod secpP) * x mod secpP + 7) mod secpP = y * y mod secpP"
    by (simp add: curve mod_simps)
  have "modExp (y * y mod secpP) e secpP = (y * y) ^ e mod secpP"
    by (simp add: modExp_power power_mod)
  also have "(y * y) ^ e = y ^ h * y"
    by (metis he power2_eq_square power_mult power_add power_one_right)
  also have "(y ^ h * y) mod secpP = (y ^ h mod secpP) * y mod secpP" by (simp add: mod_simps)
  also have "\<dots> \<in> {y, secpP - y}"
  proof (cases "y ^ h mod secpP = 1")
    case True
    with y show ?thesis by simp
  next
    case False
    then have "y ^ h mod secpP = secpP - 1" using euler by (simp add: h_def)
    moreover have "(secpP - 1) * y = (secpP - y) + (y - 1) * secpP" by (simp add: algebra_simps)
    ultimately have "(y ^ h mod secpP) * y mod secpP = (secpP - y) mod secpP" by (simp only: mod_mult_self1)
    also have "(secpP - y) mod secpP = secpP - y" using y by (intro mod_pos_pos_trivial) simp_all
    finally show ?thesis by simp
  qed
  finally have root: "modExp (y * y mod secpP) e secpP \<in> {y, secpP - y}" .
  have "odd (secpP - y) \<longleftrightarrow> even y" using P(2) by simp
  with root show ?thesis by (auto simp: curveY_def Let_def y2 e_def [symmetric])
qed

definition compressed :: "int \<Rightarrow> int \<Rightarrow> bytes" where
  "compressed x y = (if odd y then 3 else 2) # PadLeft32 (Bytes x)"

lemma Bytes_length32: "0 \<le> n \<Longrightarrow> n < 2 ^ 256 \<Longrightarrow> length (PadLeft32 (Bytes n)) = 32"
  using length_Bytes_le_iff [of n 32] by simp

lemma PubKeyToAddress_point:
  assumes "0 \<le> x" "x < secpP" "0 < y" "y < secpP"
    and "y * y mod secpP = (x * x * x + 7) mod secpP"
    and "y ^ nat ((secpP - 1) div 2) mod secpP \<in> {1, secpP - 1}"
    and "ethlib_ok L"
  shows "PubKeyToAddress L (compressed x y) =
           Ok (drop 12 (Keccak256 L [PadLeft32 (Bytes x), PadLeft32 (Bytes y)]))"
proof -
  have "length (PadLeft32 (Bytes x)) = 32"
    using assms(1,2) by (intro Bytes_length32) (simp_all add: secpP_def)
  moreover have "SetBytes (PadLeft32 (Bytes x)) = x" using assms(1) by simp
  moreover have "length (Keccak256 L bs) = 32" for bs using length_keccak [OF assms(7)] by (simp add: Keccak256_def)
  ultimately show ?thesis
    using curveY_decompresses [OF assms(3-6)]
    by (simp add: PubKeyToAddress_def compressed_def Let_def slice_def copy_into_def)
qed

end
