(* ===== verification/Client.thy ===== *)
theory Client
  imports Json GoText Calldata OpHash Crypto
begin

text \<open>
  \<open>cmd/send-userop/main.go\<close>: a command-line client that builds an operation, signs it with a FROST key
  and submits it. The program does not import \<open>internal/core\<close>; it has its own copies of the helpers, which
  are translated here again. Requests and file writes are recorded in a trace; the network, the
  JSON parser, the file system and the FROST library are parameters. The printed lines are left out.
\<close>

section \<open>Helpers\<close>

text \<open>\<open>packedUserOp\<close> has the fields of \<open>core.PackedUserOp\<close>.\<close>

type_synonym packedUserOp = PackedUserOp

definition keccak256 :: "ethlib \<Rightarrow> bytes list \<Rightarrow> bytes" where
  "keccak256 L data = keccak L (concat data)"

definition padLeft32 :: "bytes \<Rightarrow> bytes" where
  "padLeft32 b = (if length b \<ge> 32 then b else copy_into (32 - length b) 32 b (replicate 32 0))"

definition packUint128s :: "uint64 \<Rightarrow> uint64 \<Rightarrow> bytes" where
  "packUint128s hi lo =
     (let b = replicate 32 0;
          b = copy_into 8 16 (putUint64 hi) b;
          b = copy_into 24 32 (putUint64 lo) b
      in b)"

definition halfInto128 :: "int option \<Rightarrow> bytes \<Rightarrow> bytes" where
  "halfInto128 v dst =
     (case v of
        None \<Rightarrow> dst
      | Some n \<Rightarrow>
         (let vb = Bytes n;
              vb = (if length vb > 16 then drop (length vb - 16) vb else vb)
          in copy_into (16 - length vb) 16 vb dst))"

definition packBigInts :: "int option \<Rightarrow> int option \<Rightarrow> bytes" where
  "packBigInts hi lo =
     (let b = replicate 32 0
      in halfInto128 hi (slice 0 16 b) @ halfInto128 lo (slice 16 32 b))"

text \<open>Every caller drops the bytes that \<open>hex.DecodeString\<close> returns beside an error.\<close>

definition decodeHex :: "string \<Rightarrow> bytes res" where
  "decodeHex s0 =
     (let s = TrimPrefix s0 ''0x'' in
      if s = [] then Ok []
      else case hexDecode s of (b, None) \<Rightarrow> Ok b | (b, Some e) \<Rightarrow> Err e)"

definition bytesToHex :: "bytes \<Rightarrow> string" where
  "bytesToHex b = (if length b = 0 then ''0x'' else ''0x'' @ hexEncode b)"

definition bigToHex :: "int option \<Rightarrow> string" where
  "bigToHex n =
     (case n of
        None \<Rightarrow> ''0x0''
      | Some i \<Rightarrow> if i = 0 then ''0x0'' else ''0x'' @ Text 16 i)"

definition hexToBigInt :: "string \<Rightarrow> int res" where
  "hexToBigInt s0 =
     (let s = TrimPrefix s0 ''0x'' in
      case SetString 16 s of
        None \<Rightarrow> Err (ErrFmt ''invalid hex integer: %q'' [FStr s])
      | Some n \<Rightarrow> Ok n)"

definition parseBigHex :: "string \<Rightarrow> int res" where
  "parseBigHex s0 =
     (let s = TrimPrefix s0 ''0x'' in
      case SetString 16 s of
        None \<Rightarrow> Err (ErrFmt ''invalid hex integer: %q'' [FStr s])
      | Some n \<Rightarrow> Ok n)"

definition parseAddress :: "string \<Rightarrow> address res" where
  "parseAddress s =
     bind_res (decodeHex s) (\<lambda>b.
       if length b \<noteq> 20 then Err (ErrFmt ''expected 20 bytes, got %d'' [FInt (int (length b))])
       else Ok (copy_into 0 20 b (replicate 20 0)))"

definition pathDir :: "string \<Rightarrow> string" where
  "pathDir p =
     (case find (\<lambda>i. p ! i = CHR ''/'' \<or> p ! i = CHR 0x5C) (rev [0..<length p]) of
        Some i \<Rightarrow> take i p
      | None \<Rightarrow> ''.'')"

definition parseValue :: "string \<Rightarrow> int res" where
  "parseValue s0 =
     (let s = TrimSpace s0;
          s = TrimSuffix (ToLower s) ''eth'';
          s = TrimSpace s
      in
      if hasPrefix s ''0x'' then
        (case SetString 16 (TrimPrefix s ''0x'') of
           None \<Rightarrow> Err (ErrText ''invalid hex integer'')
         | Some n \<Rightarrow> Ok n)
      else if contains s ''.'' then
        (let parts = splitN s (CHR ''.'') 2 in
         case SetString 10 (parts ! 0) of
           None \<Rightarrow> Err (ErrText ''invalid decimal'')
         | Some whole \<Rightarrow>
            (let wei = whole * 10 ^ 18;
                 frac = parts ! 1;
                 frac = (if length frac > 18 then take 18 frac
                         else frac @ replicate (18 - length frac) (CHR ''0''))
             in
             case SetString 10 frac of
               None \<Rightarrow> Err (ErrText ''invalid decimal fraction'')
             | Some fracWei \<Rightarrow> Ok (wei + fracWei)))
      else
        (case SetString 10 s of
           None \<Rightarrow> Err (ErrText ''expected decimal wei, decimal ETH (e.g. 0.01 or 0.01eth), or 0x-prefixed hex'')
         | Some n \<Rightarrow> Ok n))"

section \<open>Encoders and the hash\<close>

definition computeUserOpHash :: "ethlib \<Rightarrow> packedUserOp \<Rightarrow> int \<Rightarrow> address \<Rightarrow> hash" where
  "computeUserOpHash L op chainID entryPoint =
     (let inner = replicate 256 0;
          inner = copy_into 12 32 (Sender op) inner;
          inner = copy_into 32 64 (padLeft32 (Bytes (Nonce op))) inner;
          inner = copy_into 64 96 (keccak256 L [InitCode op]) inner;
          inner = copy_into 96 128 (keccak256 L [CallData op]) inner;
          inner = copy_into 128 160 (AccountGasLimits op) inner;
          inner = copy_into 160 192 (padLeft32 (Bytes (PreVerificationGas op))) inner;
          inner = copy_into 192 224 (GasFees op) inner;
          inner = copy_into 224 256 (keccak256 L [PaymasterAndData op]) inner;
          innerHash = copy_into 0 32 (keccak256 L [inner]) (replicate 32 0);
          outer = replicate 96 0;
          outer = copy_into 0 32 innerHash outer;
          outer = copy_into 44 64 entryPoint outer;
          outer = copy_into 64 96 (padLeft32 (Bytes chainID)) outer
      in copy_into 0 32 (keccak256 L [outer]) (replicate 32 0))"

definition buildExecuteCalldata :: "ethlib \<Rightarrow> address \<Rightarrow> int \<Rightarrow> bytes \<Rightarrow> bytes" where
  "buildExecuteCalldata L to val data =
     (let selector = slice 0 4 (keccak256 L [stringBytes ''execute(address,uint256,bytes)'']);
          dataPaddedLen = ((length data + 31) div 32) * 32;
          buf = replicate (4 + 32 + 32 + 32 + 32 + dataPaddedLen) 0;
          buf = copy_into 0 4 selector buf;
          buf = copy_into (4 + 12) (4 + 32) to buf;
          buf = copy_into (4 + 32) (4 + 64) (padLeft32 (Bytes val)) buf;
          buf = buf[4 + 64 + 31 := 96];
          buf = copy_into (4 + 96) (4 + 128) (padLeft32 (Bytes (int (length data)))) buf;
          buf = copy_into (4 + 128) (length buf) data buf
      in buf)"

definition abiEncodeFactoryArgs :: "address \<Rightarrow> bytes \<Rightarrow> int \<Rightarrow> bytes" where
  "abiEncodeFactoryArgs entryPoint groupPubKey salt =
     (let dataPaddedLen = ((length groupPubKey + 31) div 32) * 32;
          buf = replicate (4 * 32 + dataPaddedLen) 0;
          buf = copy_into 12 32 entryPoint buf;
          buf = buf[32 + 31 := 96];
          buf = copy_into 64 96 (padLeft32 (Bytes salt)) buf;
          buf = copy_into 96 128 (padLeft32 (Bytes (int (length groupPubKey)))) buf;
          buf = copy_into 128 (length buf) groupPubKey buf
      in buf)"

definition buildInitCode :: "ethlib \<Rightarrow> address \<Rightarrow> address \<Rightarrow> bytes \<Rightarrow> int \<Rightarrow> bytes" where
  "buildInitCode L factory entryPoint groupPubKey salt =
     (let sel = slice 0 4 (keccak256 L [stringBytes ''createAccount(address,bytes,uint256)'']);
          args = abiEncodeFactoryArgs entryPoint groupPubKey salt;
          out = replicate (20 + 4 + length args) 0;
          out = copy_into 0 20 factory out;
          out = copy_into 20 24 sel out;
          out = copy_into 24 (length out) args out
      in out)"

definition pubKeyToAddress :: "ethlib \<Rightarrow> bytes \<Rightarrow> address res" where
  "pubKeyToAddress L pubKey =
     (if length pubKey \<noteq> 33 then Err (ErrFmt ''pubKeyToAddress: need 33 bytes, got %d'' [FInt (int (length pubKey))])
      else
        let prefix = pubKey ! 0 in
        if prefix \<noteq> 2 \<and> prefix \<noteq> 3 then Err (ErrFmt ''pubKeyToAddress: invalid prefix 0x%02x'' [FInt (uint prefix)])
        else
          let x = SetBytes (slice 1 33 pubKey);
              y = curveY x prefix;
              h = keccak256 L [padLeft32 (Bytes x), padLeft32 (Bytes y)]
          in Ok (copy_into 0 20 (drop 12 h) (replicate 20 0)))"

definition expandMessageXMD :: "bytes \<Rightarrow> bytes \<Rightarrow> int \<Rightarrow> bytes res" where
  "expandMessageXMD msg dstPrime outLen =
     (let ell = (outLen + 31) div 32;
          zPad = replicate 64 0;
          lStr = [word_of_int (outLen div 256), word_of_int outLen];
          b0 = sha256 (zPad @ msg @ lStr @ [0] @ dstPrime);
          b1 = sha256 (b0 @ [1] @ dstPrime);
          uniform = concat (xmdLoop b0 dstPrime ell 2 [b1])
      in goSlice 0 outLen uniform)"

definition frostChallengeGo :: "bytes \<Rightarrow> int res" where
  "frostChallengeGo input =
     (let dst = stringBytes ''FROST-secp256k1-SHA256-v1chal'';
          dstPrime = dst @ [word_of_int (int (length dst))]
      in bind_res (expandMessageXMD input dstPrime 48) (\<lambda>uniform. Ok (SetBytes uniform mod secpN)))"

section \<open>Signing\<close>

text \<open>
  The group operations and the FROST library. \<open>frostOneOfOne\<close> stands for the calls of the library between
  \<open>NewKeyShare\<close> and \<open>AggregateSignatures\<close>: from private key, public key and message it gives the
  commitment and the response, or the step that fails.
\<close>

datatype frostStep = StepKeyShare | StepConfig | StepSigner | StepSign | StepAggregate

record ('sc, 'pt) frostlib =
  decodeScalar :: "bytes \<Rightarrow> string + 'sc"
  encodeScalar :: "'sc \<Rightarrow> bytes"
  decodePoint :: "bytes \<Rightarrow> string + 'pt"
  encodePoint :: "'pt \<Rightarrow> bytes"
  mulBase :: "'sc \<Rightarrow> 'pt"
  mulPoint :: "'pt \<Rightarrow> 'sc \<Rightarrow> 'pt"
  addPoint :: "'pt \<Rightarrow> 'pt \<Rightarrow> 'pt"
  eqPoint :: "'pt \<Rightarrow> 'pt \<Rightarrow> bool"
  frostOneOfOne :: "bytes \<Rightarrow> bytes \<Rightarrow> bytes \<Rightarrow> (frostStep \<times> string) + 'pt \<times> 'sc"

fun stepPrefix :: "frostStep \<Rightarrow> string" where
  "stepPrefix StepKeyShare = ''create key share''"
| "stepPrefix StepConfig = ''init frost config''"
| "stepPrefix StepSigner = ''create signer''"
| "stepPrefix StepSign = ''sign''"
| "stepPrefix StepAggregate = ''aggregate signature''"

definition ext :: "string + 'a \<Rightarrow> 'a res" where
  "ext r = (case r of Inl e \<Rightarrow> Err (ErrExt e) | Inr x \<Rightarrow> Ok x)"

definition derivePublicKey :: "('sc, 'pt) frostlib \<Rightarrow> string \<Rightarrow> bytes res" where
  "derivePublicKey F privKeyHex =
     bind_res (decodeHex privKeyHex) (\<lambda>privKeyBytes.
     bind_res (wrap_err ''decode scalar'' (ext (decodeScalar F privKeyBytes))) (\<lambda>s.
       Ok (encodePoint F (mulBase F s))))"

text \<open>The result of the local verification is only printed.\<close>

definition verifyFrostSig :: "('sc, 'pt) frostlib \<Rightarrow> bytes \<Rightarrow> bytes \<Rightarrow> bytes \<Rightarrow> bool res" where
  "verifyFrostSig F sig message pubKeyBytes =
     (if length sig \<noteq> 65 \<or> length pubKeyBytes \<noteq> 33 then Ok False
      else
        let v = sig ! 64;
            rCompressed = copy_into 1 33 (slice 0 32 sig) ((replicate 33 0)[0 := (if v = 0 then 2 else 3)]);
            inputBuf = rCompressed @ pubKeyBytes @ message
        in bind_res (frostChallengeGo inputBuf) (\<lambda>c.
          case decodeScalar F (slice 32 64 sig) of
            Inl _ \<Rightarrow> Ok False
          | Inr zScalar \<Rightarrow>
         (case decodePoint F rCompressed of
            Inl _ \<Rightarrow> Ok False
          | Inr rPoint \<Rightarrow>
         (case decodePoint F pubKeyBytes of
            Inl _ \<Rightarrow> Ok False
          | Inr pkPoint \<Rightarrow>
         (case decodeScalar F (padLeft32 (Bytes c)) of
            Inl _ \<Rightarrow> Ok False
          | Inr cScalar \<Rightarrow> Ok (eqPoint F (mulBase F zScalar) (addPoint F rPoint (mulPoint F pkPoint cScalar))))))))"

definition frostSign :: "('sc, 'pt) frostlib \<Rightarrow> string \<Rightarrow> bytes \<Rightarrow> bytes res" where
  "frostSign F privKeyHex message =
     bind_res (wrap_err ''decode private key'' (decodeHex privKeyHex)) (\<lambda>privKeyBytes.
     if length privKeyBytes \<noteq> 32
     then Err (ErrFmt ''private key must be 32 bytes, got %d'' [FInt (int (length privKeyBytes))])
     else bind_res (wrap_err ''decode scalar'' (ext (decodeScalar F privKeyBytes))) (\<lambda>scalar.
       let pubKeyBytes = encodePoint F (mulBase F scalar) in
       case frostOneOfOne F privKeyBytes pubKeyBytes message of
         Inl (step, e) \<Rightarrow> Err (ErrWrap (stepPrefix step) (ErrExt e))
       | Inr (R, Z) \<Rightarrow>
          let rEnc = encodePoint F R; zEnc = encodeScalar F Z in
          if length rEnc \<noteq> 33 \<or> length zEnc \<noteq> 32
          then Err (ErrFmt ''unexpected signature encoding lengths: R=%d Z=%d''
                      [FInt (int (length rEnc)), FInt (int (length zEnc))])
          else
            let out = replicate 65 0;
                out = copy_into 0 32 (slice 1 33 rEnc) out;
                out = copy_into 32 64 zEnc out;
                out = (if rEnc ! 0 = 3 then out[64 := 1] else out)
            in bind_res (verifyFrostSig F out message pubKeyBytes) (\<lambda>ok. Ok out)))"

section \<open>JSON-RPC\<close>

record httpCall =
  callURL :: string
  callKey :: "string option"
  callMethod :: string
  callParams :: "json list"

datatype event = Posted httpCall | Wrote string json

text \<open>
  The outside world: \<open>http.NewRequest\<close> may refuse a URL, a request may fail, reading its body may fail.
  Every request of a run is different from the others, so the answer is a function of the request. The
  redirects that \<open>http.DefaultClient\<close> may follow, with the headers of the request, belong to \<open>net/http\<close> and are
  part of the answer.
\<close>

record world =
  newRequest :: "string \<Rightarrow> string option"
  httpDo :: "httpCall \<Rightarrow> string + (string + bytes)"
  parseText :: "bytes \<Rightarrow> string + json"
  rawText :: "json \<Rightarrow> string"
  mkdirAll :: "string \<Rightarrow> string option"
  writeFile :: "string \<Rightarrow> json \<Rightarrow> string option"

type_synonym 'a io = "event list \<Rightarrow> 'a res \<times> event list"

definition pure_io :: "'a res \<Rightarrow> 'a io" where
  "pure_io r tr = (r, tr)"

definition bind_io :: "'a io \<Rightarrow> ('a \<Rightarrow> 'b io) \<Rightarrow> 'b io" where
  "bind_io m f tr =
     (case m tr of (Ok x, tr') \<Rightarrow> f x tr' | (Err e, tr') \<Rightarrow> (Err e, tr') | (Panic p, tr') \<Rightarrow> (Panic p, tr'))"

definition wrap_io :: "string \<Rightarrow> 'a io \<Rightarrow> 'a io" where
  "wrap_io p m tr = (case m tr of (r, tr') \<Rightarrow> (wrap_err p r, tr'))"

definition try_io :: "'a io \<Rightarrow> 'a option io" where
  "try_io m tr =
     (case m tr of (Ok x, tr') \<Rightarrow> (Ok (Some x), tr') | (Err e, tr') \<Rightarrow> (Ok None, tr') | (Panic p, tr') \<Rightarrow> (Panic p, tr'))"

text \<open>Decoding into a struct type without a name, whose text in an error is abbreviated.\<close>

definition unmarshalAnon :: "string \<Rightarrow> 'st field list \<Rightarrow> 'st \<Rightarrow> json \<Rightarrow> 'st res" where
  "unmarshalAnon ty fs zero v =
     (case (case v of
              JNull \<Rightarrow> (zero, None)
            | JObj ms \<Rightarrow> decodeMembers [] fs ms zero None
            | _ \<Rightarrow> (zero, Some (valueError v ty))) of
        (st, None) \<Rightarrow> Ok st | (st, Some er) \<Rightarrow> Err er)"

definition errEmptyInput :: error where
  "errEmptyInput = ErrExt ''unexpected end of JSON input''"

definition unmarshalRaw :: "(json \<Rightarrow> 'a res) \<Rightarrow> json option \<Rightarrow> 'a res" where
  "unmarshalRaw decode raw = (case raw of None \<Rightarrow> Err errEmptyInput | Some v \<Rightarrow> decode v)"

definition rawField :: "string \<Rightarrow> (json \<Rightarrow> 'st \<Rightarrow> 'st) \<Rightarrow> 'st field" where
  "rawField name put = \<lparr>fName = name, fType = ''json.RawMessage'', fStore = (\<lambda>v st. Some (put v st))\<rparr>"

definition envelopeFields :: "(json option \<times> json option) field list" where
  "envelopeFields = [rawField ''result'' (\<lambda>v (r, e). (Some v, e)), rawField ''error'' (\<lambda>v (r, e). (r, Some v))]"

definition decodeEnvelope :: "world \<Rightarrow> string \<Rightarrow> bytes \<Rightarrow> json option res" where
  "decodeEnvelope W method raw =
     bind_res (wrap_err (''decode '' @ method @ '' response'')
       (bind_res (ext (parseText W raw)) (unmarshalAnon ''struct { Result, Error json.RawMessage }'' envelopeFields (None, None))))
     (\<lambda>(result, er). case er of
          None \<Rightarrow> Ok result
        | Some v \<Rightarrow> if v \<noteq> JNull then Err (ErrFmt ''%s error: %s'' [FStr method, FStr (rawText W v)]) else Ok result)"

definition rpcWithKey :: "world \<Rightarrow> string \<Rightarrow> string \<Rightarrow> string \<Rightarrow> json list \<Rightarrow> json option io" where
  "rpcWithKey W url apiKey method params tr =
     (case newRequest W url of
        Some e \<Rightarrow> (Err (ErrExt e), tr)
      | None \<Rightarrow>
         let call = \<lparr>callURL = url, callKey = (if apiKey \<noteq> [] then Some apiKey else None),
                     callMethod = method, callParams = params\<rparr>
         in ((case httpDo W call of
                Inl e \<Rightarrow> Err (ErrWrap method (ErrExt e))
              | Inr (Inl e) \<Rightarrow> Err (ErrWrap (''read '' @ method @ '' response'') (ErrExt e))
              | Inr (Inr raw) \<Rightarrow> decodeEnvelope W method raw),
             tr @ [Posted call]))"

definition rpc :: "world \<Rightarrow> string \<Rightarrow> string \<Rightarrow> json list \<Rightarrow> json option io" where
  "rpc W url method params = rpcWithKey W url [] method params"

definition hex0x :: "bytes \<Rightarrow> string" where
  "hex0x b = ''0x'' @ hexEncode b"

definition fetchChainID :: "world \<Rightarrow> string \<Rightarrow> int io" where
  "fetchChainID W rpcURL =
     bind_io (rpc W rpcURL ''eth_chainId'' []) (\<lambda>result. pure_io
       (bind_res (wrap_err ''decode chainId'' (unmarshalRaw unmarshalString result)) hexToBigInt))"

definition fetchBaseFee :: "world \<Rightarrow> string \<Rightarrow> int io" where
  "fetchBaseFee W rpcURL =
     bind_io (rpc W rpcURL ''eth_getBlockByNumber'' [JStr ''latest'', JBool False]) (\<lambda>result. pure_io
       (bind_res (wrap_err ''decode block''
          (unmarshalRaw (unmarshalAnon ''struct { BaseFeePerGas string }'' [stringField ''baseFeePerGas'' (\<lambda>s _. s)] []) result))
        (\<lambda>baseFee.
          if baseFee = [] then Err (ErrText ''baseFeePerGas not present (pre-London block?)'')
          else hexToBigInt baseFee)))"

text \<open>\<open>json.Marshal\<close> writes the members of a map in the order of their names.\<close>

definition callParam :: "address \<Rightarrow> bytes \<Rightarrow> json list" where
  "callParam to data = [JObj [(''data'', JStr (hex0x data)), (''to'', JStr (hex0x to))], JStr ''latest'']"

definition fetchGetAddress :: "ethlib \<Rightarrow> world \<Rightarrow> string \<Rightarrow> address \<Rightarrow> address \<Rightarrow> bytes \<Rightarrow> int \<Rightarrow> address io" where
  "fetchGetAddress L W rpcURL factory entryPoint groupPubKey salt =
     (let sel = slice 0 4 (keccak256 L [stringBytes ''getAddress(address,bytes,uint256)'']);
          args = abiEncodeFactoryArgs entryPoint groupPubKey salt;
          calldata = replicate (4 + length args) 0;
          calldata = copy_into 0 4 sel calldata;
          calldata = copy_into 4 (length calldata) args calldata
      in bind_io (rpc W rpcURL ''eth_call'' (callParam factory calldata)) (\<lambda>result. pure_io
        (bind_res (wrap_err ''decode getAddress result'' (unmarshalRaw unmarshalString result)) (\<lambda>hexStr.
         bind_res (wrap_err ''decode getAddress hex'' (decodeHex hexStr)) (\<lambda>b.
           if length b < 20 then Err (ErrFmt (''getAddress returned %d bytes, want '' @ [CHR 0xE2, CHR 0x89, CHR 0xA5] @ ''20'') [FInt (int (length b))])
           else Ok (copy_into 0 20 (drop (length b - 20) b) (replicate 20 0)))))))"

definition isDeployed :: "world \<Rightarrow> string \<Rightarrow> address \<Rightarrow> bool io" where
  "isDeployed W rpcURL addr =
     bind_io (rpc W rpcURL ''eth_getCode'' [JStr (hex0x addr), JStr ''latest'']) (\<lambda>result. pure_io
       (bind_res (wrap_err ''decode eth_getCode result'' (unmarshalRaw unmarshalString result)) (\<lambda>hexStr.
        bind_res (wrap_err ''decode eth_getCode hex'' (decodeHex hexStr)) (\<lambda>b. Ok (length b > 0)))))"

definition fetchNonce :: "ethlib \<Rightarrow> world \<Rightarrow> string \<Rightarrow> address \<Rightarrow> address \<Rightarrow> int io" where
  "fetchNonce L W rpcURL entryPoint sender =
     (let sel = slice 0 4 (keccak256 L [stringBytes ''getNonce(address,uint192)'']);
          calldata = replicate (4 + 32 + 32) 0;
          calldata = copy_into 0 4 sel calldata;
          calldata = copy_into (4 + 12) (4 + 32) sender calldata
      in bind_io (rpc W rpcURL ''eth_call'' (callParam entryPoint calldata)) (\<lambda>result. pure_io
        (bind_res (wrap_err ''decode nonce'' (unmarshalRaw unmarshalString result)) (\<lambda>hexStr.
         bind_res (wrap_err ''decode nonce hex'' (decodeHex hexStr)) (\<lambda>b.
           let b = (if length b < 32 then copy_into (32 - length b) 32 b (replicate 32 0) else b)
           in Ok (SetBytes (slice 0 32 b)))))))"

definition fetchAccountSigner :: "ethlib \<Rightarrow> world \<Rightarrow> string \<Rightarrow> address \<Rightarrow> address io" where
  "fetchAccountSigner L W rpcURL account =
     (let sel = slice 0 4 (keccak256 L [stringBytes ''signer()''])
      in bind_io (rpc W rpcURL ''eth_call'' (callParam account sel)) (\<lambda>result. pure_io
        (bind_res (wrap_err ''decode signer result'' (unmarshalRaw unmarshalString result)) (\<lambda>hexStr.
         bind_res (decodeHex hexStr) (\<lambda>b.
           if length b < 20 then Err (ErrFmt ''signer() returned %d bytes'' [FInt (int (length b))])
           else Ok (copy_into 0 20 (drop (length b - 20) b) (replicate 20 0)))))))"

section \<open>Requests to the bundler\<close>

record gasEstimate =
  gePreVerificationGas :: int
  geVerificationGasLimit :: int
  geCallGasLimit :: int

definition factoryMembers :: "bytes \<Rightarrow> (string \<times> json) list" where
  "factoryMembers initCode =
     (if length initCode \<ge> 20
      then [(''factory'', JStr (hex0x (slice 0 20 initCode))), (''factoryData'', JStr (bytesToHex (drop 20 initCode)))]
      else [])"

definition estimateJSON :: "packedUserOp \<Rightarrow> json" where
  "estimateJSON op =
     (let maxPriorityFeePerGas = SetBytes (slice 0 16 (GasFees op));
          maxFeePerGas = SetBytes (slice 16 32 (GasFees op))
      in JObj (
        [(''callData'', JStr (bytesToHex (CallData op))),
         (''callGasLimit'', JStr (''0x'' @ Text 16 1000000))] @
        factoryMembers (InitCode op) @
        [(''maxFeePerGas'', JStr (bigToHex (Some maxFeePerGas))),
         (''maxPriorityFeePerGas'', JStr (bigToHex (Some maxPriorityFeePerGas))),
         (''nonce'', JStr (bigToHex (Some (Nonce op)))),
         (''preVerificationGas'', JStr (''0x'' @ Text 16 100000)),
         (''sender'', JStr (hex0x (Sender op))),
         (''signature'', JStr (''0x'' @ concat (replicate 65 ''00''))),
         (''verificationGasLimit'', JStr (''0x'' @ Text 16 5000000))]))"

definition estimateFields :: "(string \<times> string \<times> string) field list" where
  "estimateFields =
     [stringField ''preVerificationGas'' (\<lambda>s (p, v, c). (s, v, c)),
      stringField ''verificationGasLimit'' (\<lambda>s (p, v, c). (p, s, c)),
      stringField ''callGasLimit'' (\<lambda>s (p, v, c). (p, v, s))]"

definition decodeEstimate :: "json option \<Rightarrow> gasEstimate res" where
  "decodeEstimate result =
     bind_res (wrap_err ''decode gas estimate response''
       (unmarshalRaw (unmarshalAnon ''struct { PreVerificationGas, VerificationGasLimit, CallGasLimit string }''
          estimateFields ([], [], [])) result))
     (\<lambda>(p, v, c).
       bind_res (wrap_err ''parse preVerificationGas'' (parseBigHex p)) (\<lambda>pvg.
       bind_res (wrap_err ''parse verificationGasLimit'' (parseBigHex v)) (\<lambda>vgl.
       bind_res (wrap_err ''parse callGasLimit'' (parseBigHex c)) (\<lambda>cgl.
         Ok \<lparr>gePreVerificationGas = pvg, geVerificationGasLimit = vgl, geCallGasLimit = cgl\<rparr>))))"

definition fetchGasEstimate :: "world \<Rightarrow> string \<Rightarrow> string \<Rightarrow> packedUserOp \<Rightarrow> address \<Rightarrow> gasEstimate io" where
  "fetchGasEstimate W bundlerURL apiKey op entryPoint =
     bind_io (rpcWithKey W bundlerURL apiKey ''eth_estimateUserOperationGas'' [estimateJSON op, JStr (hex0x entryPoint)])
       (\<lambda>result. pure_io (decodeEstimate result))"

definition submitJSON :: "packedUserOp \<Rightarrow> json" where
  "submitJSON op =
     (let verificationGasLimit = SetBytes (slice 0 16 (AccountGasLimits op));
          callGasLimit = SetBytes (slice 16 32 (AccountGasLimits op));
          maxPriorityFeePerGas = SetBytes (slice 0 16 (GasFees op));
          maxFeePerGas = SetBytes (slice 16 32 (GasFees op))
      in JObj (
        [(''callData'', JStr (bytesToHex (CallData op))),
         (''callGasLimit'', JStr (bigToHex (Some callGasLimit)))] @
        factoryMembers (InitCode op) @
        [(''maxFeePerGas'', JStr (bigToHex (Some maxFeePerGas))),
         (''maxPriorityFeePerGas'', JStr (bigToHex (Some maxPriorityFeePerGas))),
         (''nonce'', JStr (bigToHex (Some (Nonce op)))),
         (''preVerificationGas'', JStr (bigToHex (Some (PreVerificationGas op)))),
         (''sender'', JStr (hex0x (Sender op))),
         (''signature'', JStr (bytesToHex (Signature op))),
         (''verificationGasLimit'', JStr (bigToHex (Some verificationGasLimit)))]))"

definition submitToBundler :: "world \<Rightarrow> string \<Rightarrow> string \<Rightarrow> packedUserOp \<Rightarrow> address \<Rightarrow> string io" where
  "submitToBundler W bundlerURL apiKey op entryPoint =
     bind_io (rpcWithKey W bundlerURL apiKey ''eth_sendUserOperation'' [submitJSON op, JStr (hex0x entryPoint)])
       (\<lambda>result. pure_io (wrap_err ''decode bundler result'' (unmarshalRaw unmarshalString result)))"

definition writeVector :: "world \<Rightarrow> string \<Rightarrow> bytes \<Rightarrow> bytes \<Rightarrow> address \<Rightarrow> bytes \<Rightarrow> unit io" where
  "writeVector W path groupPubKey message signer sig tr =
     (let v = JObj
        [(''groupPubKey'', JStr (hex0x groupPubKey)),
         (''msgHash'', JStr (hex0x message)),
         (''sigRx'', JStr (hex0x (slice 0 32 sig))),
         (''sigV'', JNum (Text 10 (uint (sig ! 64)))),
         (''sigZ'', JStr (hex0x (slice 32 64 sig))),
         (''signer'', JStr (hex0x signer))]
      in case mkdirAll W (pathDir path) of
           Some e \<Rightarrow> (Err (ErrExt e), tr)
         | None \<Rightarrow>
            (case writeFile W path v of Some e \<Rightarrow> Err (ErrExt e) | None \<Rightarrow> Ok (), tr @ [Wrote path v]))"

section \<open>The program\<close>

record flags =
  rpcURL :: string
  bundlerURL :: string
  bundlerAPIKey :: string
  entryPointStr :: string
  factoryStr :: string
  saltStr :: string
  senderStr :: string
  privKeyHex :: string
  toStr :: string
  valueStr :: string
  calldataHex :: string
  verificationGasLim :: uint64
  callGasLim :: uint64
  preVerifGas :: uint64
  maxFeeStr :: string
  maxPrioStr :: string
  vectorOut :: string
  noEstimateGas :: bool

definition missingFlags :: "flags \<Rightarrow> string list" where
  "missingFlags f =
     (if bundlerURL f = [] then [''--bundler''] else []) @
     (if factoryStr f = [] \<and> senderStr f = [] then [''--sender (or --factory to derive it)''] else []) @
     (if privKeyHex f = [] then [''--key''] else []) @
     (if toStr f = [] then [''--to''] else [])"

definition setString0 :: "string \<Rightarrow> string \<Rightarrow> int res" where
  "setString0 flag s = (case SetString0 s of None \<Rightarrow> Err (ErrFmt (''invalid '' @ flag @ '' %q'') [FStr s]) | Some n \<Rightarrow> Ok n)"

definition resolveMaxFee :: "world \<Rightarrow> flags \<Rightarrow> int \<Rightarrow> int io" where
  "resolveMaxFee W f maxPrioFee =
     (if maxFeeStr f = [] then
        bind_io (wrap_io ''fetch base fee'' (fetchBaseFee W (rpcURL f))) (\<lambda>baseFee.
          pure_io (Ok (baseFee * 2 + maxPrioFee)))
      else pure_io (setString0 ''--max-fee-per-gas'' (maxFeeStr f)))"

text \<open>An explicit sender has to be the address that the factory derives.\<close>

definition checkSenderFlag :: "flags \<Rightarrow> address \<Rightarrow> unit res" where
  "checkSenderFlag f counterfactual =
     (if senderStr f = [] then Ok ()
      else bind_res (wrap_err ''invalid --sender'' (parseAddress (senderStr f))) (\<lambda>explicit.
        if explicit \<noteq> counterfactual
        then Err (ErrFmt ''--sender 0x%s does not match factory.getAddress 0x%s''
               [FStr (hexEncode explicit), FStr (hexEncode counterfactual)])
        else Ok ()))"

definition resolveSender :: "ethlib \<Rightarrow> world \<Rightarrow> flags \<Rightarrow> address \<Rightarrow> bytes \<Rightarrow> (address \<times> bytes) io" where
  "resolveSender L W f entryPoint groupPubKey =
     (if factoryStr f \<noteq> [] then
        bind_io (pure_io (wrap_err ''invalid --factory'' (parseAddress (factoryStr f)))) (\<lambda>factory.
        bind_io (pure_io (setString0 ''--salt'' (saltStr f))) (\<lambda>salt.
        bind_io (wrap_io ''factory.getAddress'' (fetchGetAddress L W (rpcURL f) factory entryPoint groupPubKey salt))
          (\<lambda>counterfactual.
        bind_io (pure_io (checkSenderFlag f counterfactual)) (\<lambda>_.
        bind_io (wrap_io ''check deployment'' (isDeployed W (rpcURL f) counterfactual)) (\<lambda>deployed.
          if deployed then
            bind_io (try_io (fetchAccountSigner L W (rpcURL f) counterfactual)) (\<lambda>_. pure_io (Ok (counterfactual, [])))
          else pure_io (Ok (counterfactual, buildInitCode L factory entryPoint groupPubKey salt)))))))
      else
        bind_io (pure_io (wrap_err ''invalid --sender'' (parseAddress (senderStr f)))) (\<lambda>sender. pure_io (Ok (sender, []))))"

text \<open>The estimate replaces the pre-verification gas and the call gas; when it fails, the flags stay.\<close>

definition applyEstimate :: "flags \<Rightarrow> packedUserOp \<Rightarrow> gasEstimate option \<Rightarrow> packedUserOp" where
  "applyEstimate f op r =
     (case r of
        None \<Rightarrow> op
      | Some est \<Rightarrow> op\<lparr>PreVerificationGas := gePreVerificationGas est,
          AccountGasLimits := packBigInts (Some (uint (verificationGasLim f))) (Some (geCallGasLimit est))\<rparr>)"

definition estimateOp :: "world \<Rightarrow> flags \<Rightarrow> packedUserOp \<Rightarrow> address \<Rightarrow> packedUserOp io" where
  "estimateOp W f op entryPoint =
     (if noEstimateGas f then pure_io (Ok op)
      else bind_io (try_io (fetchGasEstimate W (bundlerURL f) (bundlerAPIKey f) op entryPoint)) (\<lambda>r.
        pure_io (Ok (applyEstimate f op r))))"

definition signAndSend ::
    "ethlib \<Rightarrow> ('sc, 'pt) frostlib \<Rightarrow> world \<Rightarrow> flags \<Rightarrow> address \<Rightarrow> int \<Rightarrow> bytes \<Rightarrow> address \<Rightarrow> packedUserOp \<Rightarrow> string io" where
  "signAndSend L F W f entryPoint chainID groupPubKey expectedSigner op =
     (let opHash = computeUserOpHash L op chainID entryPoint in
      bind_io (pure_io (wrap_err ''frost sign'' (frostSign F (privKeyHex f) opHash))) (\<lambda>sig.
      let op = op\<lparr>Signature := sig\<rparr> in
      bind_io (if vectorOut f \<noteq> [] then try_io (writeVector W (vectorOut f) groupPubKey opHash expectedSigner sig)
               else pure_io (Ok None)) (\<lambda>_.
      wrap_io ''submit'' (submitToBundler W (bundlerURL f) (bundlerAPIKey f) op entryPoint))))"

definition buildOp ::
    "ethlib \<Rightarrow> flags \<Rightarrow> address \<Rightarrow> int \<Rightarrow> bytes \<Rightarrow> int \<Rightarrow> int \<Rightarrow> address \<Rightarrow> bytes \<Rightarrow> int \<Rightarrow> packedUserOp" where
  "buildOp L f to val innerData maxPrioFee maxFeePerGas sender initCode nonce =
     \<lparr>Sender = sender, Nonce = nonce, InitCode = initCode,
      CallData = buildExecuteCalldata L to val innerData,
      AccountGasLimits = packUint128s (verificationGasLim f) (callGasLim f),
      PreVerificationGas = uint (preVerifGas f),
      GasFees = packBigInts (Some maxPrioFee) (Some maxFeePerGas),
      PaymasterAndData = [], Signature = []\<rparr>"

definition clientRun :: "ethlib \<Rightarrow> ('sc, 'pt) frostlib \<Rightarrow> world \<Rightarrow> flags \<Rightarrow> string io" where
  "clientRun L F W f =
     (if missingFlags f \<noteq> []
      then pure_io (Err (ErrFmt ''missing required flags: %s'' [FStr (joinStrings '', '' (missingFlags f))]))
      else
     bind_io (pure_io (wrap_err ''invalid --entry-point'' (parseAddress (entryPointStr f)))) (\<lambda>entryPoint.
     bind_io (pure_io (wrap_err ''invalid --to'' (parseAddress (toStr f)))) (\<lambda>to.
     bind_io (pure_io (wrap_err (''invalid --value '' @ [CHR 0x22] @ valueStr f @ [CHR 0x22]) (parseValue (valueStr f)))) (\<lambda>val.
     bind_io (pure_io (setString0 ''--max-priority-fee-per-gas'' (maxPrioStr f))) (\<lambda>maxPrioFee.
     bind_io (pure_io (wrap_err ''derive public key'' (derivePublicKey F (privKeyHex f)))) (\<lambda>groupPubKey.
     bind_io (pure_io (wrap_err ''derive signer address'' (pubKeyToAddress L groupPubKey))) (\<lambda>expectedSigner.
     bind_io (wrap_io ''fetch chain id'' (fetchChainID W (rpcURL f))) (\<lambda>chainID.
     bind_io (resolveMaxFee W f maxPrioFee) (\<lambda>maxFeePerGas.
     bind_io (resolveSender L W f entryPoint groupPubKey) (\<lambda>(sender, initCode).
     bind_io (wrap_io ''fetch nonce'' (fetchNonce L W (rpcURL f) entryPoint sender)) (\<lambda>nonce.
     bind_io (pure_io (wrap_err ''decode --calldata'' (decodeHex (calldataHex f)))) (\<lambda>innerData.
     let op = buildOp L f to val innerData maxPrioFee maxFeePerGas sender initCode nonce in
     bind_io (estimateOp W f op entryPoint)
       (signAndSend L F W f entryPoint chainID groupPubKey expectedSigner)))))))))))))"

end
