(* ===== verification/ClientProps.thy ===== *)
theory ClientProps
  imports Client RpcProps
begin

text \<open>
  Properties of the client: its copies of the helpers, what it sends and to whom, and what the bundler
  of this repository makes of its requests.
\<close>

section \<open>The copies of the helpers\<close>

text \<open>The helpers agree with those of \<open>internal/core\<close>; the hash does for a chain id of 64 bits.\<close>

lemma client_copies:
  "padLeft32 = PadLeft32" "packBigInts = PackBigInts" "packUint128s = PackUint128s" "keccak256 = Keccak256"
  "bytesToHex = BytesToHex" "bigToHex = BigToHex" "hexToBigInt = HexToBigInt" "parseBigHex = ParseBigHex"
  "decodeHex = checkedHex" "buildExecuteCalldata = BuildExecuteCalldata" "buildInitCode = BuildInitCode"
  "abiEncodeFactoryArgs = ABIEncodeFactoryArgs"
  "pubKeyToAddress = PubKeyToAddress" "frostChallengeGo = FrostChallenge"
proof -
  show pad: "padLeft32 = PadLeft32" by (rule ext) (simp add: padLeft32_def PadLeft32_def)
  have "halfInto128 = into128" by (intro ext) (simp add: halfInto128_def into128_def Let_def)
  then show "packBigInts = PackBigInts" by (intro ext) (simp add: packBigInts_def PackBigInts_def)
  show "packUint128s = PackUint128s" by (intro ext) (simp add: packUint128s_def PackUint128s_def)
  show kec: "keccak256 = Keccak256" by (intro ext) (simp add: keccak256_def Keccak256_def)
  show "bytesToHex = BytesToHex" by (intro ext) (simp add: bytesToHex_def BytesToHex_def)
  show "bigToHex = BigToHex" by (intro ext) (simp add: bigToHex_def BigToHex_def)
  show "hexToBigInt = HexToBigInt" by (intro ext) (simp add: hexToBigInt_def HexToBigInt_def)
  show "parseBigHex = ParseBigHex" by (intro ext) (simp add: parseBigHex_def ParseBigHex_def HexToBigInt_def)
  show "decodeHex = checkedHex"
    by (intro ext) (simp add: decodeHex_def checkedHex_def DecodeHex_def Let_def)
  show args: "abiEncodeFactoryArgs = ABIEncodeFactoryArgs"
    by (intro ext) (simp add: abiEncodeFactoryArgs_def ABIEncodeFactoryArgs_def pad Let_def)
  show "buildInitCode = BuildInitCode"
    by (intro ext) (simp only: buildInitCode_def BuildInitCode_def args kec Let_def)
  show "buildExecuteCalldata = BuildExecuteCalldata"
    by (intro ext) (simp only: buildExecuteCalldata_def BuildExecuteCalldata_def executeSelector_def pad kec Let_def)
  show "pubKeyToAddress = PubKeyToAddress"
    by (intro ext) (simp only: pubKeyToAddress_def PubKeyToAddress_def pad kec Let_def)
  have "expandMessageXMD = ExpandMessageXMD"
    by (intro ext) (simp only: expandMessageXMD_def ExpandMessageXMD_def Let_def)
  then show "frostChallengeGo = FrostChallenge"
    by (intro ext) (simp only: frostChallengeGo_def FrostChallenge_def Let_def)
qed

lemma computeUserOpHash_core:
  assumes "0 \<le> cid" "cid < 2 ^ 64"
  shows "computeUserOpHash L op cid ep = ComputeUserOpHash L op ep (word_of_int cid)"
proof -
  have "uint (word_of_int cid :: uint64) = cid"
    using assms by (simp add: uint_word_of_int)
  then show ?thesis
    by (simp only: computeUserOpHash_def ComputeUserOpHash_def innerBuffer_def outerBuffer_def client_copies Let_def)
qed

section \<open>What a run sends\<close>

text \<open>Every event that \<open>m\<close> adds to the trace satisfies \<open>P\<close>.\<close>

definition emits :: "(event \<Rightarrow> bool) \<Rightarrow> 'a io \<Rightarrow> bool" where
  "emits P m \<longleftrightarrow> (\<forall>tr. \<exists>new. snd (m tr) = tr @ new \<and> (\<forall>e \<in> set new. P e))"

lemma emits_pure [intro, simp]: "emits P (pure_io r)"
  by (simp add: emits_def pure_io_def)

lemma emits_bind:
  assumes "emits P m" "\<And>x tr tr'. m tr = (Ok x, tr') \<Longrightarrow> emits P (f x)"
  shows "emits P (bind_io m f)"
  unfolding emits_def
proof
  fix tr
  obtain new where new: "snd (m tr) = tr @ new" "\<forall>e \<in> set new. P e" using assms(1) by (auto simp: emits_def)
  show "\<exists>new. snd (bind_io m f tr) = tr @ new \<and> (\<forall>e \<in> set new. P e)"
  proof (cases "fst (m tr)")
    case (Ok x)
    then have m: "m tr = (Ok x, tr @ new)" using new(1) by (cases "m tr") simp
    then obtain more where "snd (f x (tr @ new)) = (tr @ new) @ more" "\<forall>e \<in> set more. P e"
      using assms(2) by (metis emits_def)
    then show ?thesis using m new(2) by (intro exI [of _ "new @ more"]) (auto simp: bind_io_def)
  qed (use new in \<open>auto simp: bind_io_def split: prod.splits\<close>)
qed

lemma emits_wrap [intro]: "emits P m \<Longrightarrow> emits P (wrap_io p m)"
  by (simp add: emits_def wrap_io_def split: prod.splits) (metis snd_conv)

lemma emits_try [intro]: "emits P m \<Longrightarrow> emits P (try_io m)"
  unfolding emits_def
proof
  fix tr assume "\<forall>tr. \<exists>new. snd (m tr) = tr @ new \<and> (\<forall>e \<in> set new. P e)"
  then show "\<exists>new. snd (try_io m tr) = tr @ new \<and> (\<forall>e \<in> set new. P e)"
    by (cases "m tr"; cases "fst (m tr)") (auto simp: try_io_def, (metis snd_conv)+)
qed

text \<open>The call that \<open>rpcWithKey\<close> makes.\<close>

definition keyedCall :: "string \<Rightarrow> string \<Rightarrow> string \<Rightarrow> json list \<Rightarrow> httpCall" where
  "keyedCall url apiKey method params =
     \<lparr>callURL = url, callKey = (if apiKey \<noteq> [] then Some apiKey else None), callMethod = method, callParams = params\<rparr>"

lemma emits_rpcWithKey: "P (Posted (keyedCall url key method params)) \<Longrightarrow> emits P (rpcWithKey W url key method params)"
  by (auto simp: emits_def rpcWithKey_def keyedCall_def Let_def split: option.splits)

definition nodeCall :: "string \<Rightarrow> httpCall \<Rightarrow> bool" where
  "nodeCall url c \<longleftrightarrow> callURL c = url \<and> callKey c = None \<and>
     callMethod c \<in> {''eth_chainId'', ''eth_getBlockByNumber'', ''eth_call'', ''eth_getCode''}"

lemma nodeCall_keyed:
  "nodeCall url (keyedCall url [] m ps) \<longleftrightarrow> m \<in> {''eth_chainId'', ''eth_getBlockByNumber'', ''eth_call'', ''eth_getCode''}"
  by (simp add: nodeCall_def keyedCall_def)

lemma emits_node:
  assumes "\<And>c. nodeCall url c \<Longrightarrow> P (Posted c)"
  shows "emits P (fetchChainID W url)" "emits P (fetchBaseFee W url)" "emits P (isDeployed W url a)"
    "emits P (fetchGetAddress L W url fa ep pk salt)" "emits P (fetchNonce L W url ep a)" "emits P (fetchAccountSigner L W url a)"
  unfolding fetchChainID_def fetchBaseFee_def isDeployed_def fetchGetAddress_def fetchNonce_def fetchAccountSigner_def rpc_def Let_def
  by (intro emits_bind emits_rpcWithKey assms emits_pure; simp add: nodeCall_keyed)+

lemma emits_resolveMaxFee: "(\<And>c. nodeCall (rpcURL f) c \<Longrightarrow> P (Posted c)) \<Longrightarrow> emits P (resolveMaxFee W f prio)"
  by (auto simp: resolveMaxFee_def intro!: emits_bind emits_node emits_wrap)

lemma emits_resolveSender: "(\<And>c. nodeCall (rpcURL f) c \<Longrightarrow> P (Posted c)) \<Longrightarrow> emits P (resolveSender L W f ep pk)"
  by (auto simp: resolveSender_def intro!: emits_bind emits_node emits_wrap emits_try)

lemma emits_estimateOp:
  "P (Posted (keyedCall (bundlerURL f) (bundlerAPIKey f) ''eth_estimateUserOperationGas'' [estimateJSON op, JStr (hex0x ep)])) \<Longrightarrow>
     emits P (estimateOp W f op ep)"
  by (auto simp: estimateOp_def fetchGasEstimate_def intro!: emits_bind emits_rpcWithKey emits_try)

lemma emits_writeVector: "(\<And>v. P (Wrote p v)) \<Longrightarrow> emits P (writeVector W p pk h a sig)"
  by (auto simp: emits_def writeVector_def Let_def split: option.splits)

section \<open>The operation that is sent\<close>

lemma pure_io_Ok [simp]: "pure_io r tr = (Ok x, tr') \<longleftrightarrow> r = Ok x \<and> tr' = tr"
  by (auto simp: pure_io_def)

lemma bind_io_Ok: "bind_io m f tr = (Ok y, tr'') \<longleftrightarrow> (\<exists>x tr'. m tr = (Ok x, tr') \<and> f x tr' = (Ok y, tr''))"
  by (auto simp: bind_io_def split: prod.splits res.splits)

lemma wrap_io_Ok [simp]: "wrap_io p m tr = (Ok x, tr') \<longleftrightarrow> m tr = (Ok x, tr')"
  by (auto simp: wrap_io_def split: prod.splits)

lemma parseAddress_length: "parseAddress s = Ok a \<Longrightarrow> length a = 20"
  by (auto simp: parseAddress_def split: if_splits)

lemma fetchGetAddress_length: "fetchGetAddress L W url fa ep pk salt tr = (Ok a, tr') \<Longrightarrow> length a = 20"
  by (auto simp: fetchGetAddress_def Let_def bind_io_Ok split: if_splits)

lemma length_BuildInitCode: "20 \<le> length (BuildInitCode L fa ep pk salt)"
  by (simp add: BuildInitCode_def Let_def)

lemma resolveSender_Ok:
  assumes "resolveSender L W f ep pk tr = (Ok (a, ic), tr')"
  shows "length a = 20" "ic = [] \<or> 20 \<le> length ic"
  using assms length_BuildInitCode
  by (auto simp: resolveSender_def bind_io_Ok client_copies parseAddress_length fetchGetAddress_length split: if_splits)

lemma estimateOp_Ok:
  assumes "estimateOp W f op ep tr = (Ok op', tr')"
  shows "Sender op' = Sender op" "InitCode op' = InitCode op" "CallData op' = CallData op" "GasFees op' = GasFees op"
    "PaymasterAndData op' = PaymasterAndData op"
    "length (AccountGasLimits op) = 32 \<Longrightarrow> length (AccountGasLimits op') = 32"
proof -
  have "op' = op \<or> (\<exists>r. op' = applyEstimate f op r)"
    using assms by (auto simp: estimateOp_def bind_io_Ok split: if_splits)
  then show "Sender op' = Sender op" "InitCode op' = InitCode op" "CallData op' = CallData op" "GasFees op' = GasFees op"
    "PaymasterAndData op' = PaymasterAndData op"
    "length (AccountGasLimits op) = 32 \<Longrightarrow> length (AccountGasLimits op') = 32"
    by (auto simp: applyEstimate_def client_copies split: option.splits)
qed

text \<open>What is sent: the operation, signed over the hash for the chain that the node names.\<close>

definition signedSend :: "ethlib \<Rightarrow> ('sc, 'pt) frostlib \<Rightarrow> world \<Rightarrow> flags \<Rightarrow> json list \<Rightarrow> packedUserOp \<Rightarrow> address \<Rightarrow> int \<Rightarrow> bool" where
  "signedSend L F W f params op ep cid \<longleftrightarrow>
     params = [submitJSON op, JStr (hex0x ep)] \<and> parseAddress (entryPointStr f) = Ok ep \<and>
     fst (fetchChainID W (rpcURL f) []) = Ok cid \<and> frostSign F (privKeyHex f) (computeUserOpHash L op cid ep) = Ok (Signature op) \<and>
     (\<exists>to val data. parseAddress (toStr f) = Ok to \<and> parseValue (valueStr f) = Ok val \<and> decodeHex (calldataHex f) = Ok data \<and>
        CallData op = buildExecuteCalldata L to val data) \<and>
     wf_op op \<and> PaymasterAndData op = [] \<and> (InitCode op = [] \<or> 20 \<le> length (InitCode op))"

definition keyOf :: "flags \<Rightarrow> string option" where
  "keyOf f = (if bundlerAPIKey f \<noteq> [] then Some (bundlerAPIKey f) else None)"

definition sendRule :: "ethlib \<Rightarrow> ('sc, 'pt) frostlib \<Rightarrow> world \<Rightarrow> flags \<Rightarrow> event \<Rightarrow> bool" where
  "sendRule L F W f e =
     (case e of
        Wrote p v \<Rightarrow> p = vectorOut f
      | Posted c \<Rightarrow> nodeCall (rpcURL f) c \<or>
          callURL c = bundlerURL f \<and> callKey c = keyOf f \<and>
          (callMethod c = ''eth_estimateUserOperationGas'' \<or>
           callMethod c = ''eth_sendUserOperation'' \<and> (\<exists>op ep cid. signedSend L F W f (callParams c) op ep cid)))"

lemma computeUserOpHash_signature: "computeUserOpHash L (op\<lparr>Signature := sig\<rparr>) cid ep = computeUserOpHash L op cid ep"
  by (simp add: computeUserOpHash_def)

lemma fetchChainID_trace: "fst (fetchChainID W url tr) = fst (fetchChainID W url tr')"
  by (simp add: fetchChainID_def rpc_def rpcWithKey_def bind_io_def pure_io_def Let_def split: option.split res.split)

lemma emits_case_prod: "(\<And>a b. p = (a, b) \<Longrightarrow> emits P (f a b)) \<Longrightarrow> emits P (case p of (a, b) \<Rightarrow> f a b)"
  by (cases p) simp

lemma sendRule_node: "nodeCall (rpcURL f) c \<Longrightarrow> sendRule L F W f (Posted c)"
  by (simp add: sendRule_def)

lemma sendRule_bundler:
  "sendRule L F W f (Posted (keyedCall (bundlerURL f) (bundlerAPIKey f) ''eth_estimateUserOperationGas'' ps))"
  "signedSend L F W f ps op ep cid \<Longrightarrow>
     sendRule L F W f (Posted (keyedCall (bundlerURL f) (bundlerAPIKey f) ''eth_sendUserOperation'' ps))"
  by (auto simp: sendRule_def keyedCall_def keyOf_def)

lemma emits_signAndSend:
  assumes "\<And>sig. frostSign F (privKeyHex f) (computeUserOpHash L op cid ep) = Ok sig \<Longrightarrow>
    signedSend L F W f [submitJSON (op\<lparr>Signature := sig\<rparr>), JStr (hex0x ep)] (op\<lparr>Signature := sig\<rparr>) ep cid"
  shows "emits (sendRule L F W f) (signAndSend L F W f ep cid pk signer op)"
proof -
  have "emits (sendRule L F W f) (writeVector W (vectorOut f) pk h signer sig)" for h sig
    by (rule emits_writeVector) (simp add: sendRule_def)
  then show ?thesis
    using assms
    by (auto simp: signAndSend_def submitToBundler_def Let_def intro!: emits_bind emits_wrap emits_try emits_rpcWithKey
        sendRule_bundler)
qed

lemma emits_if: "(b \<Longrightarrow> emits P m) \<Longrightarrow> (\<not> b \<Longrightarrow> emits P n) \<Longrightarrow> emits P (if b then m else n)"
  by simp

lemma length_PackUint128s: "length (PackUint128s hi lo) = 32"
  by (simp add: PackUint128s_def)

lemma fetchChainID_Ok: "fetchChainID W url tr = (Ok cid, tr') \<Longrightarrow> fst (fetchChainID W url []) = Ok cid"
  using fetchChainID_trace [of W url "[]" tr] by simp

lemma signedSend_built:
  assumes "parseAddress (entryPointStr f) = Ok ep" "parseAddress (toStr f) = Ok to" "parseValue (valueStr f) = Ok val"
    "decodeHex (calldataHex f) = Ok data" "fetchChainID W (rpcURL f) tr1 = (Ok cid, tr2)"
    "resolveSender L W f ep pk tr3 = (Ok (a, ic), tr4)"
    and est: "estimateOp W f \<lparr>Sender = a, Nonce = nonce, InitCode = ic, CallData = buildExecuteCalldata L to val data,
         AccountGasLimits = packUint128s vg cg, PreVerificationGas = pvg, GasFees = packBigInts prio fee,
         PaymasterAndData = [], Signature = []\<rparr> ep tr5 = (Ok op, tr6)"
    and "frostSign F (privKeyHex f) (computeUserOpHash L op cid ep) = Ok sig"
  shows "signedSend L F W f [submitJSON (op\<lparr>Signature := sig\<rparr>), JStr (hex0x ep)] (op\<lparr>Signature := sig\<rparr>) ep cid"
  using assms(1-6,8) estimateOp_Ok [OF est] resolveSender_Ok [OF assms(6)] fetchChainID_Ok [OF assms(5)]
  by (auto simp: signedSend_def computeUserOpHash_signature wf_op_def client_copies length_PackUint128s)

lemmas emits_requests =
  emits_node [where P = "sendRule L F W f" and url = "rpcURL f", OF sendRule_node]
  emits_resolveMaxFee [where P = "sendRule L F W f", OF sendRule_node]
  emits_resolveSender [where P = "sendRule L F W f", OF sendRule_node]
  emits_estimateOp [where P = "sendRule L F W f", OF sendRule_bundler(1)]
  for L F W f

lemma clientRun_emits: "emits (sendRule L F W f) (clientRun L F W f)"
  unfolding clientRun_def buildOp_def Let_def
  by (intro emits_if emits_bind emits_wrap emits_pure emits_case_prod emits_requests emits_signAndSend; (elim asm_rl)?)
    (simp add: signedSend_built)+

lemma clientRun_trace: "clientRun L F W f [] = (r, tr) \<Longrightarrow> e \<in> set tr \<Longrightarrow> sendRule L F W f e"
  using clientRun_emits [of L F W f] unfolding emits_def by (metis append_Nil snd_conv)

section \<open>The request at the bundler\<close>

definition clientWire :: "packedUserOp \<Rightarrow> UserOperationRPC" where
  "clientWire op =
     \<lparr>rpc_Sender = hex0x (Sender op), rpc_Nonce = BigToHex (Some (Nonce op)),
      rpc_Factory = (if length (InitCode op) \<ge> 20 then hex0x (slice 0 20 (InitCode op)) else []),
      rpc_FactoryData = (if length (InitCode op) \<ge> 20 then BytesToHex (drop 20 (InitCode op)) else []),
      rpc_CallData = BytesToHex (CallData op),
      rpc_CallGasLimit = BigToHex (Some (SetBytes (slice 16 32 (AccountGasLimits op)))),
      rpc_VerificationGasLimit = BigToHex (Some (SetBytes (slice 0 16 (AccountGasLimits op)))),
      rpc_PreVerificationGas = BigToHex (Some (PreVerificationGas op)),
      rpc_MaxFeePerGas = BigToHex (Some (SetBytes (slice 16 32 (GasFees op)))),
      rpc_MaxPriorityFeePerGas = BigToHex (Some (SetBytes (slice 0 16 (GasFees op)))),
      rpc_Paymaster = [], rpc_PaymasterData = [], rpc_Signature = BytesToHex (Signature op)\<rparr>"

lemma unmarshalUserOp_submitJSON: "unmarshalUserOp (submitJSON op) = Ok (clientWire op)"
  by (simp add: unmarshalUserOp_def unmarshalStruct_def submitJSON_def factoryMembers_def Let_def userOp_field
      clientWire_def emptyUserOp_def client_copies)

lemma HexToAddress_hex0x: "ethlib_ok L \<Longrightarrow> length a = 20 \<Longrightarrow> HexToAddress L (hex0x a) = a"
  by (simp add: hex0x_def HexToAddress_hex)

lemma FromRPC_clientWire:
  assumes L: "ethlib_ok L" and op: "wf_op op" "PaymasterAndData op = []" "InitCode op = [] \<or> 20 \<le> length (InitCode op)"
  shows "FromRPC L (clientWire op) = Ok op"
proof -
  have a: "HexToAddress L (hex0x (slice 0 20 (InitCode op))) = slice 0 20 (InitCode op)" if "20 \<le> length (InitCode op)"
    using that L by (intro HexToAddress_hex0x) simp_all
  have j: "slice 0 20 b @ drop 20 b = b" for b :: bytes by (simp add: slice_def)
  have n: "hex0x b \<noteq> []" for b by (simp add: hex0x_def)
  show ?thesis
    using assms a by (auto simp: FromRPC_def clientWire_def Let_def wf_op_def HexToAddress_hex0x PackBigInts_SetBytes j n)
qed

lemma signedSend_received:
  assumes "ethlib_ok L" "signedSend L F W f params op ep cid"
  shows "bind_res (unmarshalUserOp (params ! 0)) (FromRPC L) = Ok op"
    "bind_res (unmarshalString (params ! 1)) (\<lambda>s. Ok (HexToAddress L s)) = Ok ep"
  using assms FromRPC_clientWire parseAddress_length
  by (auto simp: signedSend_def unmarshalUserOp_submitJSON HexToAddress_hex0x)

lemma Validate_needs_paymaster: "PaymasterAndData op = [] \<Longrightarrow> \<exists>er. Validate L v op = Err er"
  by (auto simp: Validate_def checkGasLimits_def checkPaymaster_def Let_def)

section \<open>Properties\<close>

text \<open>
C13: the operation the client submits is the operation it signed, as the bundler understands it: decoding the
request gives the operation and the entry point of the flags, its call is the encoding of the target,
value and data of the flags, and its signature is the FROST signature over the hash that the bundler
itself computes for it, for the chain id the node reported, if that is a 64-bit number.
\<close>

theorem sent_operation_is_signed:
  assumes "ethlib_ok L" "clientRun L F W f [] = (r, tr)" "Posted c \<in> set tr" "callMethod c = ''eth_sendUserOperation''"
  shows "\<exists>op ep cid to val data.
    bind_res (unmarshalUserOp (callParams c ! 0)) (FromRPC L) = Ok op \<and>
    bind_res (unmarshalString (callParams c ! 1)) (\<lambda>s. Ok (HexToAddress L s)) = Ok ep \<and>
    parseAddress (entryPointStr f) = Ok ep \<and> parseAddress (toStr f) = Ok to \<and> parseValue (valueStr f) = Ok val \<and>
    decodeHex (calldataHex f) = Ok data \<and> CallData op = BuildExecuteCalldata L to val data \<and>
    fst (fetchChainID W (rpcURL f) []) = Ok cid \<and>
    (0 \<le> cid \<and> cid < 2 ^ 64 \<longrightarrow>
       frostSign F (privKeyHex f) (ComputeUserOpHash L op ep (word_of_int cid)) = Ok (Signature op))"
proof -
  have "sendRule L F W f (Posted c)" using clientRun_trace assms(2,3) by metis
  then obtain op ep cid where s: "signedSend L F W f (callParams c) op ep cid"
    using assms(4) by (auto simp: sendRule_def nodeCall_def)
  show ?thesis
    using signedSend_received [OF assms(1) s] s
    by (auto simp: signedSend_def client_copies computeUserOpHash_core)
qed

text \<open>
C39: this repository's bundler refuses every operation of this client: the client sends no paymaster and
the validator accepts none without one, whatever the configuration.
\<close>

theorem client_operation_refused:
  assumes "ethlib_ok L" "clientRun L F W f [] = (r, tr)" "Posted c \<in> set tr" "callMethod c = ''eth_sendUserOperation''"
  shows "\<exists>er. handleSendUserOperation L m e (callParams c) db = (RpcErr er, db)"
proof -
  have "sendRule L F W f (Posted c)" using clientRun_trace assms(2,3) by metis
  then obtain op ep cid where s: "signedSend L F W f (callParams c) op ep cid"
    using assms(4) by (auto simp: sendRule_def nodeCall_def)
  then have op: "PaymasterAndData op = []" and params: "callParams c = [submitJSON op, JStr (hex0x ep)]"
    and recv: "FromRPC L (clientWire op) = Ok op"
    using FromRPC_clientWire [OF assms(1)] by (auto simp: signedSend_def)
  obtain er where "Validate L (mValidator m) op = Err er" using Validate_needs_paymaster [OF op] by blast
  then show ?thesis
    by (simp add: handleSendUserOperation_def params unmarshalUserOp_submitJSON recv Let_def)
qed

text \<open>
C27: the API key of the bundler is sent to the bundler only: in every run, failed or not, each request either goes
to the node, without a key and with a reading method, or to the bundler, with the key if one is set,
to estimate or to send; and nothing is written but the test vector.
\<close>

theorem api_key_stays_with_bundler:
  assumes "clientRun L F W f [] = (r, tr)" "e \<in> set tr"
  shows "case e of
      Posted c \<Rightarrow> nodeCall (rpcURL f) c \<or>
        callURL c = bundlerURL f \<and> callKey c = (if bundlerAPIKey f = [] then None else Some (bundlerAPIKey f)) \<and>
        callMethod c \<in> {''eth_estimateUserOperationGas'', ''eth_sendUserOperation''}
    | Wrote p v \<Rightarrow> p = vectorOut f"
  using clientRun_trace [OF assms] by (auto simp: sendRule_def keyOf_def split: event.splits)

section \<open>A concrete run\<close>

text \<open>A library over numbers modulo 256 in the place of the group, and a node that answers by method.\<close>

definition toyFrost :: "(byte, byte) frostlib" where
  "toyFrost = \<lparr>decodeScalar = (\<lambda>b. Inr (last b)), encodeScalar = (\<lambda>z. replicate 31 0 @ [z]),
     decodePoint = (\<lambda>b. Inr (last b)), encodePoint = (\<lambda>p. 2 # replicate 31 0 @ [p]), mulBase = (\<lambda>s. s),
     mulPoint = (\<lambda>p s. p * s), addPoint = (\<lambda>p q. p + q), eqPoint = (\<lambda>p q. p = q),
     frostOneOfOne = (\<lambda>k pk m. Inr (7, last k))\<rparr>"

definition toyWorld :: world where
  "toyWorld = \<lparr>newRequest = (\<lambda>_. None),
     httpDo = (\<lambda>c. Inr (Inr (if callMethod c = ''eth_chainId'' then [1] else if callMethod c = ''eth_call'' then [2] else [3]))),
     parseText = (\<lambda>b. Inr (JObj [(''result'', JStr (if b = [1] then ''0x1'' else if b = [2] then ''0x'' else ''0xabc''))])),
     rawText = (\<lambda>_. []), mkdirAll = (\<lambda>_. None), writeFile = (\<lambda>_ _. None)\<rparr>"

definition toyFlags :: flags where
  "toyFlags = \<lparr>rpcURL = ''node'', bundlerURL = ''bundler'', bundlerAPIKey = ''key'',
     entryPointStr = hex0x (replicate 20 4), factoryStr = [], saltStr = ''0'', senderStr = hex0x (replicate 20 17),
     privKeyHex = hex0x (replicate 32 9), toStr = hex0x (replicate 20 5), valueStr = ''1.5'', calldataHex = ''0x'',
     verificationGasLim = 80000, callGasLim = 100000, preVerifGas = 50000, maxFeeStr = ''3'', maxPrioStr = ''1'',
     vectorOut = [], noEstimateGas = True\<rparr>"

lemma toy_parses:
  "parseValue ''1.5'' = Ok 1500000000000000000" "scanNat0 ''1'' = Some 1" "scanNat0 ''3'' = Some 3"
  "hexToBigInt ''0x1'' = Ok 1" "decodeHex ''0x'' = Ok []"
  by code_simp+

lemma decodeHex_hex0x: "decodeHex (hex0x b) = Ok b"
proof (cases "b = []")
  case False
  then show ?thesis using checkedHex_BytesToHex [of b] by (simp add: client_copies BytesToHex_def hex0x_def)
qed (simp add: decodeHex_def hex0x_def)

lemma parseAddress_hex0x: "length a = 20 \<Longrightarrow> parseAddress (hex0x a) = Ok a"
  by (simp add: parseAddress_def decodeHex_hex0x copy_into_exact)

lemma toy_envelope:
  "decodeEnvelope toyWorld m [1] = Ok (Some (JStr ''0x1''))" "decodeEnvelope toyWorld m [2] = Ok (Some (JStr ''0x''))"
  "decodeEnvelope toyWorld m [3] = Ok (Some (JStr ''0xabc''))"
proof -
  have "findField envelopeFields ''result'' = Some (rawField ''result'' (\<lambda>v (r, e). (Some v, e)))"
    by (simp add: findField_def envelopeFields_def rawField_def)
  then show "decodeEnvelope toyWorld m [1] = Ok (Some (JStr ''0x1''))" "decodeEnvelope toyWorld m [2] = Ok (Some (JStr ''0x''))"
    "decodeEnvelope toyWorld m [3] = Ok (Some (JStr ''0xabc''))"
    by (simp_all add: decodeEnvelope_def toyWorld_def ext_def unmarshalAnon_def rawField_def)
qed

lemma toy_rpc:
  "rpcWithKey toyWorld url key m ps tr =
     (Ok (Some (JStr (if m = ''eth_chainId'' then ''0x1'' else if m = ''eth_call'' then ''0x'' else ''0xabc''))),
      tr @ [Posted (keyedCall url key m ps)])"
proof -
  have "newRequest toyWorld url = None"
    "httpDo toyWorld c = Inr (Inr (if callMethod c = ''eth_chainId'' then [1] else if callMethod c = ''eth_call'' then [2] else [3]))" for c
    by (simp_all add: toyWorld_def)
  then show ?thesis by (simp add: rpcWithKey_def keyedCall_def toy_envelope Let_def)
qed

lemma toy_fetch:
  "fetchChainID toyWorld url tr = (Ok 1, tr @ [Posted (keyedCall url [] ''eth_chainId'' [])])"
  "\<exists>c. fetchNonce hexLib toyWorld url ep a tr = (Ok 0, tr @ [Posted c])"
  by (simp_all add: fetchChainID_def fetchNonce_def rpc_def toy_rpc bind_io_def pure_io_def unmarshalRaw_def toy_parses Let_def
      copy_into_def slice_def)

lemma toy_submit:
  "\<exists>c. submitToBundler toyWorld url key op ep tr = (Ok ''0xabc'', tr @ [Posted c]) \<and> callMethod c = ''eth_sendUserOperation''"
  by (simp add: submitToBundler_def toy_rpc bind_io_def pure_io_def unmarshalRaw_def keyedCall_def)

lemma toy_key: "derivePublicKey toyFrost (hex0x (replicate 32 9)) = Ok (2 # replicate 31 0 @ [9])"
  by (simp add: derivePublicKey_def decodeHex_hex0x toyFrost_def ext_def)

lemma toy_signer: "\<exists>a. pubKeyToAddress hexLib (2 # replicate 31 0 @ [9]) = Ok a"
  by (simp add: pubKeyToAddress_def Let_def)

lemma verifyFrostSig_answers: "is_ok (verifyFrostSig F sig m pk)"
proof (cases "length sig \<noteq> 65 \<or> length pk \<noteq> 33")
  case False
  let ?r = "copy_into 1 33 (slice 0 32 sig) ((replicate 33 0)[0 := (if sig ! 64 = 0 then 2 else 3)]) @ pk @ m"
  obtain c where "frostChallengeGo ?r = Ok c" using FrostChallenge_scalar [of ?r] client_copies(14) by auto
  with False show ?thesis
    unfolding verifyFrostSig_def Let_def by (simp split: sum.split)
qed (simp add: verifyFrostSig_def)

text \<open>Signing succeeds when the library does and its encodings have the expected lengths.\<close>

lemma frostSign_answers:
  assumes "decodeHex k = Ok b" "length b = 32" "decodeScalar F b = Inr s"
    and "frostOneOfOne F b (encodePoint F (mulBase F s)) m = Inr (R, Z)"
    and "length (encodePoint F R) = 33" "length (encodeScalar F Z) = 32"
  shows "\<exists>sig. frostSign F k m = Ok sig \<and> length sig = 65"
proof -
  have "\<exists>ok. verifyFrostSig F out m pk = Ok ok" for out pk using verifyFrostSig_answers by (simp add: is_ok_iff)
  then show ?thesis by (simp add: frostSign_def ext_def Let_def assms)
qed

lemma toy_sign: "\<exists>sig. frostSign toyFrost (hex0x (replicate 32 9)) m = Ok sig"
proof -
  have "decodeScalar toyFrost (replicate 32 9) = Inr 9" "length (encodePoint toyFrost 7) = 33" "length (encodeScalar toyFrost 9) = 32"
    "frostOneOfOne toyFrost (replicate 32 9) pk m = Inr (7, 9)" for pk
    by (simp_all add: toyFrost_def)
  from frostSign_answers [OF decodeHex_hex0x _ this(1) this(4) this(2,3)] show ?thesis by auto
qed

lemma toyFlags_simps:
  "missingFlags toyFlags = []" "rpcURL toyFlags = ''node''" "entryPointStr toyFlags = hex0x (replicate 20 4)"
  "toStr toyFlags = hex0x (replicate 20 5)" "valueStr toyFlags = ''1.5''" "maxPrioStr toyFlags = ''1''" "maxFeeStr toyFlags = ''3''"
  "privKeyHex toyFlags = hex0x (replicate 32 9)" "factoryStr toyFlags = []" "senderStr toyFlags = hex0x (replicate 20 17)"
  "calldataHex toyFlags = ''0x''" "noEstimateGas toyFlags = True" "vectorOut toyFlags = []"
  by (simp_all add: missingFlags_def toyFlags_def hex0x_def)

lemma toy_run:
  "\<exists>tr c. clientRun hexLib toyFrost toyWorld toyFlags [] = (Ok ''0xabc'', tr) \<and> Posted c \<in> set tr \<and>
     callMethod c = ''eth_sendUserOperation''"
proof -
  obtain a where a: "pubKeyToAddress hexLib (2 # replicate 31 0 @ [9]) = Ok a" using toy_signer by blast
  let ?tr1 = "[Posted (keyedCall ''node'' [] ''eth_chainId'' [])]"
  obtain c1 where c1: "fetchNonce hexLib toyWorld ''node'' (replicate 20 4) (replicate 20 17) ?tr1 = (Ok 0, ?tr1 @ [Posted c1])"
    using toy_fetch(2) by metis
  define op where "op = \<lparr>Sender = replicate 20 17, Nonce = 0, InitCode = [],
      CallData = buildExecuteCalldata hexLib (replicate 20 5) 1500000000000000000 [],
      AccountGasLimits = packUint128s (verificationGasLim toyFlags) (callGasLim toyFlags),
      PreVerificationGas = uint (preVerifGas toyFlags), GasFees = packBigInts (Some 1) (Some 3),
      PaymasterAndData = [], Signature = []\<rparr>"
  obtain sig where sig: "frostSign toyFrost (hex0x (replicate 32 9)) (computeUserOpHash hexLib op 1 (replicate 20 4)) = Ok sig"
    using toy_sign by blast
  obtain c where c: "submitToBundler toyWorld (bundlerURL toyFlags) (bundlerAPIKey toyFlags) (op\<lparr>Signature := sig\<rparr>)
      (replicate 20 4) (?tr1 @ [Posted c1]) = (Ok ''0xabc'', (?tr1 @ [Posted c1]) @ [Posted c])"
    and m: "callMethod c = ''eth_sendUserOperation''" using toy_submit by metis
  have "signAndSend hexLib toyFrost toyWorld toyFlags (replicate 20 4) 1 (2 # replicate 31 0 @ [9]) a op (?tr1 @ [Posted c1]) =
      (Ok ''0xabc'', (?tr1 @ [Posted c1]) @ [Posted c])"
    using sig c by (simp add: signAndSend_def toyFlags_simps bind_io_def pure_io_def wrap_io_def Let_def)
  then have "clientRun hexLib toyFrost toyWorld toyFlags [] = (Ok ''0xabc'', (?tr1 @ [Posted c1]) @ [Posted c])"
    using a c1
    by (simp add: clientRun_def buildOp_def toyFlags_simps bind_io_def pure_io_def wrap_io_def parseAddress_hex0x toy_parses setString0_def
        toy_key toy_fetch(1) resolveMaxFee_def resolveSender_def estimateOp_def Let_def op_def [symmetric])
  with m show ?thesis by auto
qed

theorem sent_operation_is_signed_witness:
  "\<exists>tr c op. clientRun hexLib toyFrost toyWorld toyFlags [] = (Ok ''0xabc'', tr) \<and> Posted c \<in> set tr \<and>
     callMethod c = ''eth_sendUserOperation'' \<and> bind_res (unmarshalUserOp (callParams c ! 0)) (FromRPC hexLib) = Ok op \<and>
     frostSign toyFrost (privKeyHex toyFlags) (ComputeUserOpHash hexLib op (replicate 20 4) 1) = Ok (Signature op)"
proof -
  obtain tr c where run: "clientRun hexLib toyFrost toyWorld toyFlags [] = (Ok ''0xabc'', tr)" "Posted c \<in> set tr"
    "callMethod c = ''eth_sendUserOperation''" using toy_run by blast
  moreover have "parseAddress (entryPointStr toyFlags) = Ok (replicate 20 4)"
    by (simp add: toyFlags_simps parseAddress_hex0x)
  ultimately show ?thesis
    using sent_operation_is_signed [OF hexLib_ok run] by (auto simp: toy_fetch(1))
qed

theorem client_operation_refused_witness:
  "\<exists>tr c er. clientRun hexLib toyFrost toyWorld toyFlags [] = (Ok ''0xabc'', tr) \<and> Posted c \<in> set tr \<and>
     callMethod c = ''eth_sendUserOperation'' \<and>
     handleSendUserOperation hexLib sampleMethods sampleEnv (callParams c) [] = (RpcErr er, [])"
  using toy_run client_operation_refused [OF hexLib_ok, of toyFrost toyWorld toyFlags _ _ _ sampleMethods sampleEnv "[]"] by blast

theorem api_key_stays_with_bundler_witness:
  "\<exists>tr c. clientRun hexLib toyFrost toyWorld toyFlags [] = (Ok ''0xabc'', tr) \<and> Posted c \<in> set tr \<and>
     callMethod c = ''eth_sendUserOperation'' \<and> callURL c = ''bundler'' \<and> callKey c = Some ''key''"
proof -
  obtain tr c where run: "clientRun hexLib toyFrost toyWorld toyFlags [] = (Ok ''0xabc'', tr)" "Posted c \<in> set tr"
    "callMethod c = ''eth_sendUserOperation''" using toy_run by blast
  moreover have "bundlerURL toyFlags = ''bundler''" "bundlerAPIKey toyFlags = ''key''" by (simp_all add: toyFlags_def)
  ultimately show ?thesis
    using api_key_stays_with_bundler [OF run(1,2)] by (auto simp: nodeCall_def)
qed

section \<open>Values\<close>

lemma digit_chars:
  assumes "digits s" "c \<in> set s"
  shows "graphic c" "toLowerChar c = c" "c \<noteq> CHR ''x''" "c \<noteq> CHR ''h''" "c \<noteq> CHR ''.''"
  using digit_graphic [OF assms] by (auto simp: graphic_def toLowerChar_def)

text \<open>A decimal number, with or without a point: the characters of an accepted decimal value.\<close>

definition plainValue :: "string \<Rightarrow> bool" where
  "plainValue s \<longleftrightarrow> s \<noteq> [] \<and> (\<exists>w fr. digits w \<and> digits fr \<and> (s = w \<or> s = w @ ''.'' @ fr))"

lemma plainValue_chars: "plainValue s \<Longrightarrow> c \<in> set s \<Longrightarrow> graphic c \<and> toLowerChar c = c \<and> c \<noteq> CHR ''x'' \<and> c \<noteq> CHR ''h''"
proof -
  assume "plainValue s" "c \<in> set s"
  then obtain w fr where "digits w" "digits fr" "s = w \<or> s = w @ ''.'' @ fr" by (auto simp: plainValue_def)
  moreover from this \<open>c \<in> set s\<close> have "c \<in> set w \<or> c = CHR ''.'' \<or> c \<in> set fr" by auto
  moreover have "graphic (CHR ''.'') \<and> toLowerChar (CHR ''.'') = CHR ''.''" by (simp add: graphic_def toLowerChar_def)
  ultimately show ?thesis using digit_chars [of w c] digit_chars [of fr c] by auto
qed

lemma trimmed_value:
  assumes "plainValue s" "suf \<in> {[], ''eth''}"
  shows "TrimSpace (TrimSuffix (ToLower (TrimSpace (s @ suf))) ''eth'') = s"
proof -
  have s: "s \<noteq> []" using assms(1) by (simp add: plainValue_def)
  have low: "ToLower s = s" using plainValue_chars [OF assms(1)] by (simp add: ToLower_def map_idI)
  have ends: "graphic (hd s)" "graphic (last s)" "last s \<noteq> CHR ''h''" using plainValue_chars [OF assms(1)] s by auto
  then have inner: "TrimSpace s = s" using s by (intro TrimSpace_graphic)
  consider "suf = []" | "suf = ''eth''" using assms(2) by blast
  then show ?thesis
  proof cases
    case 1
    then show ?thesis using inner low TrimSuffix_other [of s "''eth''"] s ends by simp
  next
    case 2
    have "graphic (CHR ''h'')" by (simp add: graphic_def)
    then have "TrimSpace (s @ suf) = s @ suf" using 2 s ends by (intro TrimSpace_graphic) auto
    moreover have "ToLower (s @ suf) = s @ ''eth''" using low 2 by (simp add: ToLower_def toLowerChar_def)
    ultimately show ?thesis using inner by simp
  qed
qed

lemma not_hex: "plainValue s \<Longrightarrow> \<not> hasPrefix s ''0x''"
proof
  assume s: "plainValue s" and "hasPrefix s ''0x''"
  then have "take 2 s = ''0x''" by (simp add: hasPrefix_def numeral_2_eq_2)
  then have "CHR ''x'' \<in> set s" by (metis in_set_takeD list.set_intros)
  then show False using plainValue_chars [OF s] by blast
qed

lemma parts: "digits w \<Longrightarrow> splitN (w @ ''.'' @ fr) (CHR ''.'') 2 = [w, fr]"
proof -
  assume "digits w"
  then have "\<forall>c \<in> set w. c \<noteq> CHR ''.''" using digit_chars(5) by blast
  then show ?thesis by (simp add: numeral_2_eq_2 takeWhile_append2 dropWhile_append2)
qed

lemma fraction_wei:
  assumes "digits fr"
  shows "SetString 10 (if length fr > 18 then take 18 fr else fr @ replicate (18 - length fr) (CHR ''0'')) =
    Some (decimal fr * 10 ^ 18 div 10 ^ length fr)"
proof (cases "length fr > 18")
  case True
  then have "(10::int) ^ length fr = 10 ^ (length fr - 18) * 10 ^ 18" by (metis less_imp_le le_add_diff_inverse2 power_add)
  then have "decimal fr * 10 ^ 18 div 10 ^ length fr = decimal fr div 10 ^ (length fr - 18)"
    by (metis div_mult_mult2 power_not_zero zero_neq_numeral)
  moreover have "take 18 fr \<noteq> []" using True by auto
  ultimately show ?thesis
    using True assms by (simp add: SetString_decimal digits_take decimal_take)
next
  case False
  then have E: "(10::int) ^ 18 = 10 ^ (18 - length fr) * 10 ^ length fr" by (metis not_less le_add_diff_inverse2 power_add)
  have "decimal fr * 10 ^ 18 div 10 ^ length fr = decimal fr * 10 ^ (18 - length fr)"
    unfolding E mult.assoc [symmetric] by (rule nonzero_mult_div_cancel_right) simp
  then show ?thesis
    using False assms by (cases "fr @ replicate (18 - length fr) (CHR ''0'') = []") 
      (auto simp: SetString_decimal decimal_append)
qed

text \<open>
C40: a value with a decimal point is an amount of ether, converted to wei with the digits beyond the
eighteenth dropped; one without a point is an amount of wei. The suffix \<open>eth\<close> changes neither: \<open>1eth\<close> is one wei.
\<close>

theorem parseValue_wei:
  assumes "digits w" "w \<noteq> []" "digits fr" "suf \<in> {[], ''eth''}"
  shows "parseValue (w @ ''.'' @ fr @ suf) = Ok (decimal w * 10 ^ 18 + decimal fr * 10 ^ 18 div 10 ^ length fr) \<and>
    parseValue (w @ suf) = Ok (decimal w)"
proof
  have point: "contains (w @ ''.'' @ fr) ''.''" unfolding contains_iff by blast
  have v: "plainValue (w @ ''.'' @ fr)" using assms by (auto simp: plainValue_def)
  then show "parseValue (w @ ''.'' @ fr @ suf) = Ok (decimal w * 10 ^ 18 + decimal fr * 10 ^ 18 div 10 ^ length fr)"
    using trimmed_value [OF v assms(4)] not_hex [OF v] point parts [OF assms(1), of fr] fraction_wei [OF assms(3)]
    by (simp add: parseValue_def Let_def SetString_decimal assms)
  have v: "plainValue w" using assms digits_simps(1) by (auto simp: plainValue_def)
  have "CHR ''.'' \<notin> set w" using digit_chars(5) [OF assms(1)] by blast
  then have "\<not> contains w ''.''" unfolding contains_iff by auto
  then show "parseValue (w @ suf) = Ok (decimal w)"
    using trimmed_value [OF v assms(4)] not_hex [OF v] by (simp add: parseValue_def Let_def SetString_decimal assms)
qed

theorem parseValue_wei_witness:
  "parseValue ''0.01eth'' = Ok 10000000000000000 \<and> parseValue ''1eth'' = Ok 1"
proof -
  have "digits ''0''" "digits ''01''" "digits ''1''" by (simp_all add: digitVal_def)
  moreover have "decimal ''0'' = 0" "decimal ''01'' = 1" "decimal ''1'' = 1" by code_simp+
  ultimately show ?thesis
    using parseValue_wei [of "''0''" "''01''" "''eth''"] parseValue_wei [of "''1''" "[]" "''eth''"] by simp
qed

end
