(* ===== verification/ProverProps.thy ===== *)
theory ProverProps
  imports Prover
begin

text \<open>
  Properties of the prover service: what the circuit is given, and what is left of a request.
\<close>

section \<open>Limbs\<close>

text \<open>The number that a list of decimal limbs stands for, the least significant first.\<close>

definition readLimbs :: "nat \<Rightarrow> string list \<Rightarrow> int" where
  "readLimbs bits ls = foldr (\<lambda>l acc. the (SetString 10 l) + 2 ^ bits * acc) ls 0"

definition limbsBelow :: "nat \<Rightarrow> string list \<Rightarrow> bool" where
  "limbsBelow bits ls \<longleftrightarrow> (\<forall>l \<in> set ls. \<exists>v. SetString 10 l = Some v \<and> 0 \<le> v \<and> v < 2 ^ bits)"

lemma low_bits: "tmp AND (2 ^ bits - 1) = (tmp mod 2 ^ bits :: int)"
  by (simp flip: mask_eq_exp_minus_1 take_bit_eq_mask take_bit_eq_mod)

lemma splitLimbs_Suc:
  "splitLimbs bits (Suc k) n = Text 10 (n mod 2 ^ bits) # splitLimbs bits k (n div 2 ^ bits)"
  by (simp add: Let_def low_bits drop_bit_eq_div push_bit_eq_mult)

lemma splitLimbs_reads:
  "length (splitLimbs bits k n) = k" "limbsBelow bits (splitLimbs bits k n)"
  "readLimbs bits (splitLimbs bits k n) = n mod 2 ^ (bits * k)"
proof (induction k arbitrary: n)
  case (Suc k)
  { case 1 show ?case using Suc(1) by simp
  next case 2 show ?case using Suc(2) by (simp add: splitLimbs_Suc limbsBelow_def SetString_Text del: splitLimbs.simps)
  next case 3
    have "n mod 2 ^ (bits * Suc k) = n mod 2 ^ bits + 2 ^ bits * (n div 2 ^ bits mod 2 ^ (bits * k))"
      by (simp add: power_add zmod_zmult2_eq)
    then show ?case
      using Suc(3) by (simp add: splitLimbs_Suc readLimbs_def SetString_Text del: splitLimbs.simps) }
qed (simp_all add: limbsBelow_def readLimbs_def)

lemma limbs_exact: "0 \<le> n \<Longrightarrow> n < 2 ^ (bits * k) \<Longrightarrow> readLimbs bits (splitBigIntToLimbs n bits k) = n"
  by (simp add: splitBigIntToLimbs_def splitLimbs_reads)

section \<open>The inputs of the circuit\<close>

lemma splitN_3:
  assumes "length (splitN s c 3) = 3"
  shows "s = splitN s c 3 ! 0 @ [c] @ splitN s c 3 ! 1 @ [c] @ splitN s c 3 ! 2"
proof -
  have cut: "takeWhile (\<lambda>x. x \<noteq> c) t @ [c] @ tl (dropWhile (\<lambda>x. x \<noteq> c) t) = t" if "c \<in> set t" for t
  proof -
    have "dropWhile (\<lambda>x. x \<noteq> c) t \<noteq> []" using that by (auto simp: dropWhile_eq_Nil_conv)
    then have "c # tl (dropWhile (\<lambda>x. x \<noteq> c) t) = dropWhile (\<lambda>x. x \<noteq> c) t"
      by (metis (mono_tags, lifting) hd_dropWhile list.collapse)
    then show ?thesis by simp
  qed
  let ?r = "tl (dropWhile (\<lambda>x. x \<noteq> c) s)"
  have "c \<in> set s" "c \<in> set ?r" using assms by (auto simp: numeral_3_eq_3 split: if_splits)
  then show ?thesis using cut [of s] cut [of ?r] by (simp add: numeral_3_eq_3)
qed

lemma fillInts_Ok: "fillInts n bs = Ok xs \<longleftrightarrow> length bs \<le> n \<and> xs = map uint bs @ replicate (n - length bs) 0"
  by (auto simp: fillInts_def)

lemma circuitInputs_Ok:
  assumes "circuitInputs W jwt pub = Ok (c, N, d)"
  obtains header payload sig sigB where "jwt = header @ ''.'' @ payload @ ''.'' @ sig" "base64Decode sig = Ok sigB"
    "ModulusLimbs d = splitBigIntToLimbs N 120 18" "RedcLimbs d = splitBigIntToLimbs (redcParam N) 120 18"
    "SigLimbs d = splitBigIntToLimbs (SetBytes sigB) 120 18"
    "DataLen d = length (header @ ''.'' @ payload)" "DataLen d \<le> 1024"
    "DataStorage d = map uint (stringBytes (header @ ''.'' @ payload)) @ replicate (1024 - DataLen d) 0"
    "Base64DecodeOffset d = length header + 1" "length pub \<le> 33" "SessionPub d = map uint pub @ replicate (33 - length pub) 0"
    "Iss d = clIss c" "Sub d = clSub c" "Aud d = clAud c" "Azp d = clAzp c" "Exp d = clExp c"
proof -
  let ?p = "splitN jwt (CHR ''.'') 3"
  have len: "length ?p = 3" using assms by (auto simp: circuitInputs_def Let_def split: if_splits)
  obtain sigB where sigB: "base64Decode (?p ! 2) = Ok sigB" and d: "fillInts MaxDataLength (stringBytes (?p ! 0 @ ''.'' @ ?p ! 1)) = Ok (DataStorage d)"
      "fillInts 33 pub = Ok (SessionPub d)"
      "ModulusLimbs d = splitBigIntToLimbs N 120 18" "RedcLimbs d = splitBigIntToLimbs (redcParam N) 120 18"
      "SigLimbs d = splitBigIntToLimbs (SetBytes sigB) 120 18" "DataLen d = length (?p ! 0 @ ''.'' @ ?p ! 1)"
      "Base64DecodeOffset d = length (?p ! 0) + 1" "Iss d = clIss c" "Sub d = clSub c" "Aud d = clAud c" "Azp d = clAzp c" "Exp d = clExp c"
    using assms len by (auto simp: circuitInputs_def Let_def split: if_splits)
  show ?thesis
    by (rule that [of "?p ! 0" "?p ! 1" "?p ! 2" sigB])
      (use splitN_3 [OF len] sigB d in \<open>simp_all add: fillInts_Ok MaxDataLength_def\<close>)
qed

lemma circuitInputs_claims:
  "circuitInputs W jwt pub = Ok (c, N, d) \<Longrightarrow> Iss d = clIss c \<and> Sub d = clSub c \<and> Aud d = clAud c \<and> Azp d = clAzp c"
  by (erule circuitInputs_Ok) simp

lemma fits_limbs: "x < 2 ^ 2048 \<Longrightarrow> x < (2::int) ^ (120 * 18)"
  by (erule order_less_le_trans, rule power_increasing) simp_all

lemma redcParam_fits:
  assumes "2 ^ 2047 \<le> N"
  shows "0 \<le> redcParam N" "redcParam N < 2 ^ (120 * 18)"
proof -
  have pos: "0 < N" by (rule order_less_le_trans [OF _ assms], rule zero_less_power) simp
  then show "0 \<le> redcParam N"
    unfolding redcParam_def push_bit_eq_mult by (intro pos_imp_zdiv_nonneg_iff [THEN iffD2]) (simp_all only: mult_1 zero_le_power zero_le_numeral)
  have "redcParam N = 2 ^ (2 * 2048 + 4) div N" by (simp only: redcParam_def push_bit_eq_mult mult_1)
  also have "\<dots> \<le> 2 ^ (2 * 2048 + 4) div 2 ^ 2047"
    using assms by (intro zdiv_mono2) (simp_all only: zero_le_power zero_less_power zero_le_numeral zero_less_numeral)
  also have "(2::int) ^ (2 * 2048 + 4) div 2 ^ 2047 = 2 ^ (2 * 2048 + 4 - 2047)" by (subst power_diff_power_eq) simp_all
  also have "\<dots> < 2 ^ (120 * 18)" by (rule power_strict_increasing) simp_all
  finally show "redcParam N < 2 ^ (120 * 18)" .
qed

text \<open>
  What the circuit is to be given for a token with a key of modulus \<open>N\<close>: the limbs recompose to the
  modulus, to the reduction parameter \<open>2 ^ 4100 div N\<close> and to the signature, each in 18 limbs of 120 bits; the data are the
  bytes of header and payload, padded to 1024, with the offset at which the payload starts; and the session key is given
  byte by byte.
\<close>

definition encodesToken :: "string \<Rightarrow> bytes \<Rightarrow> int \<Rightarrow> proverData \<Rightarrow> bool" where
  "encodesToken jwt pub N d \<longleftrightarrow>
    (\<exists>header payload sig sigB. jwt = header @ ''.'' @ payload @ ''.'' @ sig \<and> base64Decode sig = Ok sigB \<and>
    readLimbs 120 (ModulusLimbs d) = N \<and> readLimbs 120 (RedcLimbs d) = redcParam N \<and>
    (length sigB \<le> 256 \<longrightarrow> readLimbs 120 (SigLimbs d) = SetBytes sigB) \<and>
    (\<forall>ls \<in> {ModulusLimbs d, RedcLimbs d, SigLimbs d}. length ls = 18 \<and> limbsBelow 120 ls) \<and>
    take (DataLen d) (DataStorage d) = map uint (stringBytes (header @ ''.'' @ payload)) \<and> length (DataStorage d) = 1024 \<and>
    drop (Base64DecodeOffset d) (header @ ''.'' @ payload) = payload \<and> SessionPub d = map uint pub)"

lemma circuit_inputs_encode_jwt:
  assumes "circuitInputs W jwt pub = Ok (c, N, d)" "2 ^ 2047 \<le> N" "N < 2 ^ 2048" "length pub = 33"
  shows "encodesToken jwt pub N d"
  using assms(1)
proof (rule circuitInputs_Ok)
  fix header payload sig sigB
  assume d: "jwt = header @ ''.'' @ payload @ ''.'' @ sig" "base64Decode sig = Ok sigB"
    "ModulusLimbs d = splitBigIntToLimbs N 120 18" "RedcLimbs d = splitBigIntToLimbs (redcParam N) 120 18"
    "SigLimbs d = splitBigIntToLimbs (SetBytes sigB) 120 18"
    "DataLen d = length (header @ ''.'' @ payload)" "DataLen d \<le> 1024"
    "DataStorage d = map uint (stringBytes (header @ ''.'' @ payload)) @ replicate (1024 - DataLen d) 0"
    "Base64DecodeOffset d = length header + 1" "SessionPub d = map uint pub @ replicate (33 - length pub) 0"
  have N: "0 \<le> N" by (rule order_trans [OF _ assms(2)]) (simp only: zero_le_power zero_le_numeral)
  have "(256::int) ^ length sigB \<le> 2 ^ 2048" if "length sigB \<le> 256"
  proof -
    have "(256::int) ^ length sigB = 2 ^ (8 * length sigB)" by (simp add: power_mult)
    also have "\<dots> \<le> 2 ^ 2048" using that by (intro power_increasing) simp_all
    finally show ?thesis .
  qed
  then have sig: "SetBytes sigB < 2 ^ 2048" if "length sigB \<le> 256"
    using that SetBytes_less [of sigB] by (meson order_less_le_trans)
  have "readLimbs 120 (ModulusLimbs d) = N" "readLimbs 120 (RedcLimbs d) = redcParam N"
    using limbs_exact [OF N fits_limbs [OF assms(3)]] limbs_exact [OF redcParam_fits [OF assms(2)]] by (simp_all only: d(3,4))
  moreover have "readLimbs 120 (SigLimbs d) = SetBytes sigB" if "length sigB \<le> 256"
    unfolding d(5) by (rule limbs_exact [OF SetBytes_nonneg fits_limbs [OF sig [OF that]]])
  moreover have "\<forall>ls \<in> {ModulusLimbs d, RedcLimbs d, SigLimbs d}. length ls = 18 \<and> limbsBelow 120 ls"
    unfolding d(3-5) splitBigIntToLimbs_def using splitLimbs_reads(1,2) by blast
  moreover have "take (DataLen d) (DataStorage d) = map uint (stringBytes (header @ ''.'' @ payload))"
    "length (DataStorage d) = 1024" using d(6-8) by simp_all
  moreover have "drop (Base64DecodeOffset d) (header @ ''.'' @ payload) = payload" using d(9) by simp
  ultimately show ?thesis unfolding encodesToken_def using d(1,2,10) assms(4) by auto
qed

section \<open>What a request leaves behind\<close>

definition programs :: "fileEvent list \<Rightarrow> string list" where
  "programs tr = concat (map (\<lambda>e. case e of RunProgram b args \<Rightarrow> [b] | _ \<Rightarrow> []) tr)"

fun isRemoval :: "fileEvent \<Rightarrow> bool" where
  "isRemoval (Remove p) = True"
| "isRemoval (RemoveAll p) = True"
| "isRemoval _ = False"

text \<open>
  The files and directories an event creates. The work is partly done by the two programs:
  \<open>nargo execute\<close> writes the witness it is told to \<open>target\<close>, and \<open>bb prove --write_vk\<close> the proof and the
  verification key to its output directory.
\<close>

fun programFiles :: "Service \<Rightarrow> string list \<Rightarrow> string list" where
  "programFiles s [cmd, flag, prover, witness] = [joinPath [circuitDir s, ''target'', witness @ ''.gz'']]"
| "programFiles s [cmd, b, circuit, w, witness, flag, out, vk] =
     [joinPath [circuitDir s, out, ''proof''], joinPath [circuitDir s, out, ''vk'']]"
| "programFiles s _ = []"

fun creates :: "Service \<Rightarrow> fileEvent \<Rightarrow> string list" where
  "creates s (WriteText p t) = [p]"
| "creates s (MakeDir p) = [p]"
| "creates s (RunProgram b args) = programFiles s args"
| "creates s _ = []"

fun deletes :: "fileEvent \<Rightarrow> string \<Rightarrow> bool" where
  "deletes (Remove q) p = (p = q)"
| "deletes (RemoveAll q) p = (p = q \<or> hasPrefix p (q @ ''/''))"
| "deletes _ p = False"

text \<open>The files of the circuit, which every request needs.\<close>

definition circuitPaths :: "Service \<Rightarrow> string list" where
  "circuitPaths s = [joinPath [circuitDir s, ''Nargo.toml''], joinPath [circuitDir s, ''src'', ''main.nr''],
     joinPath [circuitDir s, ''target'', ''jwt_auth.json'']]"

text \<open>What the work of a request does: it writes one file, makes one directory and runs the two programs.\<close>

definition workEvent :: "Service \<Rightarrow> string \<Rightarrow> fileEvent \<Rightarrow> bool" where
  "workEvent s reqID e =
     (case e of
        WriteText p t \<Rightarrow> p = joinPath [circuitDir s, (''Prover_'' @ reqID) @ ''.toml'']
      | MakeDir p \<Rightarrow> p = joinPath [circuitDir s, ''target'', reqID @ ''_proof'']
      | RunProgram b args \<Rightarrow>
          args \<in> {[''execute'', ''-p'', ''Prover_'' @ reqID, reqID @ ''_witness''],
            [''prove'', ''-b'', ''target/jwt_auth.json'', ''-w'', ''target/'' @ (reqID @ ''_witness'') @ ''.gz'',
             ''-o'', ''target/'' @ reqID @ ''_proof'', ''--write_vk'']}
      | _ \<Rightarrow> False)"

text \<open>The paths of a request below the directory of the circuit, and that those of two requests are apart.\<close>

definition requestPaths :: "string \<Rightarrow> string list" where
  "requestPaths i = [''Prover_'' @ i @ ''.toml'', ''target/'' @ i @ ''_witness.gz'', ''target/'' @ i @ ''_proof'',
     ''target/'' @ i @ ''_proof/proof'', ''target/'' @ i @ ''_proof/vk'']"

lemma work_creates:
  "workEvent s i e \<Longrightarrow> p \<in> set (creates s e) \<Longrightarrow> \<exists>q \<in> set (requestPaths i). p = circuitDir s @ ''/'' @ q"
  by (cases e) (auto simp: workEvent_def requestPaths_def joinPath_def)

lemma hasPrefix_iff: "hasPrefix s p \<longleftrightarrow> (\<exists>z. s = p @ z)"
  unfolding hasPrefix_def by (metis append_eq_conv_conj append_take_drop_id)

definition requestDeletes :: "string \<Rightarrow> string \<Rightarrow> bool" where
  "requestDeletes i q \<longleftrightarrow> q = ''Prover_'' @ i @ ''.toml'' \<or> q = ''target/'' @ i @ ''_witness.gz'' \<or>
     q = ''target/'' @ i @ ''_proof'' \<or> (\<exists>z. q = ''target/'' @ i @ ''_proof/'' @ z)"

lemma cleanup_deletes:
  "(\<exists>e \<in> set (cleanupRequest s (''Prover_'' @ i) (i @ ''_witness'') (i @ ''_proof'')). deletes e (circuitDir s @ ''/'' @ q)) \<longleftrightarrow>
     requestDeletes i q"
  by (simp add: cleanupRequest_def joinPath_def hasPrefix_iff requestDeletes_def)

lemma request_deletes_own: "q \<in> set (requestPaths i) \<Longrightarrow> requestDeletes i q"
  by (simp add: requestPaths_def, elim disjE) (simp_all add: requestDeletes_def)

lemma hexEncode_no_slash: "CHR ''/'' \<notin> set (hexEncode bs)"
proof (induction bs)
  case (Cons b bs)
  have "digitVal (CHR ''/'') = None" by code_simp
  then have "digitChar d \<noteq> CHR ''/''" if "0 \<le> d" "d < 36" for d using digitVal_digitChar [OF that] by auto
  from this [of "uint b div 16"] this [of "uint b mod 16"] show ?case
    using Cons byte_nibbles [of b] by (auto simp del: uint_div uint_mod)
qed simp

lemma slash_split:
  "CHR ''/'' \<notin> set a \<Longrightarrow> CHR ''/'' \<notin> set b \<Longrightarrow> a @ CHR ''/'' # c = b @ CHR ''/'' # d \<longleftrightarrow> a = b \<and> c = d"
proof (induction a arbitrary: b)
  case Nil
  then show ?case by (cases b) auto
next
  case (Cons x a)
  then show ?case by (cases b) auto
qed

lemma last_neq: "last a \<noteq> last b \<Longrightarrow> a \<noteq> b"
  by blast

lemma request_deletes_other:
  assumes i: "CHR ''/'' \<notin> set i" "CHR ''/'' \<notin> set i'" "i \<noteq> i'" and q: "q \<in> set (requestPaths i')"
  shows "\<not> requestDeletes i q"
proof -
  have ne: "i @ ''_witness.gz'' \<noteq> i' @ ''_proof''" "i' @ ''_witness.gz'' \<noteq> i @ ''_proof''"
    by (rule last_neq, simp)+
  have slash: "j @ ''_proof/'' @ z \<noteq> w" if "CHR ''/'' \<notin> set w" for j w z :: string
  proof
    assume "j @ ''_proof/'' @ z = w"
    then have "CHR ''/'' \<in> set w" by auto
    with that show False by simp
  qed
  have flat: "j @ ''_proof/'' @ z \<noteq> i @ ''_witness.gz''" "j @ ''_proof/'' @ z \<noteq> i @ ''_proof''"
    "j @ ''_proof/'' @ z \<noteq> i' @ ''_witness.gz''" "j @ ''_proof/'' @ z \<noteq> i' @ ''_proof''" for j z :: string
    using i by (intro slash; simp)+
  have deep: "i' @ ''_proof/'' @ y \<noteq> i @ ''_proof/'' @ z" for y z
    using slash_split [of "i' @ ''_proof''" "i @ ''_proof''" y z] i by simp
  from q show ?thesis
    unfolding requestPaths_def
  proof (simp, elim disjE, goal_cases)
    case 1
    then show ?case using i(3) by (simp add: requestDeletes_def)
  next
    case 2
    then show ?case using i(3) ne(2) flat by (simp add: requestDeletes_def) metis
  next
    case 3
    then show ?case using i(3) ne(1) flat by (simp add: requestDeletes_def) metis
  next
    case 4
    then show ?case using flat [of i' "''proof''"] deep [of "''proof''"] by (simp add: requestDeletes_def)
  next
    case 5
    then show ?case using flat [of i' "''vk''"] deep [of "''vk''"] by (simp add: requestDeletes_def)
  qed
qed

lemma circuit_not_deleted:
  "p \<in> set (circuitPaths s) \<Longrightarrow> \<exists>q. p = circuitDir s @ ''/'' @ q \<and> \<not> requestDeletes i q"
proof -
  have ne: "i @ ''_witness.gz'' \<noteq> ''jwt_auth.json''" "i @ ''_proof'' \<noteq> ''jwt_auth.json''" "i @ ''.toml'' \<noteq> ''jwt_auth.json''"
    by (rule last_neq, simp)+
  have deep: "''jwt_auth.json'' \<noteq> i @ ''_proof/'' @ z" for z
  proof
    assume "''jwt_auth.json'' = i @ ''_proof/'' @ z"
    then have "CHR ''/'' \<in> set ''jwt_auth.json''" by auto
    then show False by simp
  qed
  assume "p \<in> set (circuitPaths s)"
  then consider "p = circuitDir s @ ''/'' @ ''Nargo.toml''" | "p = circuitDir s @ ''/'' @ ''src/main.nr''"
    | "p = circuitDir s @ ''/'' @ ''target/jwt_auth.json''" by (auto simp: circuitPaths_def joinPath_def)
  then show ?thesis
  proof cases
    case 3
    have "\<not> requestDeletes i ''target/jwt_auth.json''" using ne deep by (simp add: requestDeletes_def)
    with 3 show ?thesis by blast
  qed (auto simp: requestDeletes_def)
qed

lemma workEvent_not_removal: "workEvent s reqID e \<Longrightarrow> \<not> isRemoval e"
  by (cases e) (simp_all add: workEvent_def)

lemma bind_f_perform:
  "bind_f (wrap_f p (perform e r)) f tr =
     (case r of Ok x \<Rightarrow> f x (tr @ [e]) | Err er \<Rightarrow> (Err (ErrWrap p er), tr @ [e]) | Panic m \<Rightarrow> (Panic m, tr @ [e]))"
  by (cases r) (simp_all add: bind_f_def wrap_f_def perform_def)

lemma bind_f_toml:
  "bind_f (wrap_f p (writeProverToml W path d)) f tr =
     (case proverToml d of
        Ok text \<Rightarrow> bind_f (wrap_f p (perform (WriteText path text) (failing (pwWrite W path text)))) f tr
      | Err e \<Rightarrow> (Err (ErrWrap p e), tr)
      | Panic m \<Rightarrow> (Panic m, tr))"
  by (simp add: bind_f_def wrap_f_def writeProverToml_def split: res.split)

lemma runProof_work:
  "\<exists>work. snd (runProof W s reqID c N pub d tr) = tr @ work \<and> (\<forall>e \<in> set work. workEvent s reqID e) \<and>
     (is_ok (fst (runProof W s reqID c N pub d tr)) \<longrightarrow> programs work = [nargoPath s, bbPath s])"
  unfolding runProof_def Let_def runCmd_def bind_f_toml bind_f_perform
  by (simp add: pure_f_def workEvent_def programs_def split: res.split)

lemma runProof_writes:
  "WriteText p t \<in> set (snd (runProof W s reqID c N pub d [])) \<Longrightarrow> proverToml d = Ok t"
  unfolding runProof_def Let_def runCmd_def bind_f_toml bind_f_perform
  by (simp add: pure_f_def split: res.splits)

lemma runProof_result:
  "fst (runProof W s reqID c N pub d tr) = Ok res \<Longrightarrow>
     resSub res = clSub c \<and> resIss res = clIss c \<and> resExp res = clExp c \<and> resAud res = clAud c \<and> resAzp res = clAzp c \<and>
     resModulus res = Bytes N \<and> resSessionPub res = pub"
  unfolding runProof_def Let_def runCmd_def bind_f_toml bind_f_perform
  by (auto simp: pure_f_def split: res.splits)

lemma Prove_run:
  assumes "Prove W s jwt pub [] = (r, tr)"
  obtains (early) "tr = []" "\<not> is_ok r"
    | (run) c N d where "length pub = 33" "circuitInputs W jwt pub = Ok (c, N, d)"
      "r = fst (runProof W s (randomID W) c N pub d [])"
      "tr = snd (runProof W s (randomID W) c N pub d []) @
        cleanupRequest s (''Prover_'' @ randomID W) (randomID W @ ''_witness'') (randomID W @ ''_proof'')"
proof (cases "length pub = 33 \<and> is_ok (circuitInputs W jwt pub)")
  case False
  then have "tr = [] \<and> \<not> is_ok r"
    using assms by (cases "circuitInputs W jwt pub") (auto simp: Prove_def pure_f_def bind_f_def split: if_splits)
  with early show ?thesis by blast
next
  case True
  then obtain c N d where "circuitInputs W jwt pub = Ok (c, N, d)" by (cases "circuitInputs W jwt pub") auto
  with True assms show ?thesis
    by (intro run [of c N d])
      (auto simp: Prove_def bind_f_def pure_f_def deferring_def Let_def split: prod.splits)
qed

lemma Prove_shape:
  assumes "Prove W s jwt pub [] = (r, tr)"
  obtains (early) "tr = []" "\<not> is_ok r"
    | (late) work where "tr = work @ cleanupRequest s (''Prover_'' @ randomID W) (randomID W @ ''_witness'') (randomID W @ ''_proof'')"
      "\<forall>e \<in> set work. workEvent s (randomID W) e" "is_ok r \<Longrightarrow> programs work = [nargoPath s, bbPath s]"
  using assms
proof (cases rule: Prove_run)
  case (run c N d)
  with late runProof_work [of W s "randomID W" c N pub d "[]"] show ?thesis by auto
qed

text \<open>What a run creates, and what its removals delete, are paths of its request.\<close>

lemma run_creates:
  assumes "Prove W s jwt pub [] = (r, tr)" "e \<in> set tr" "p \<in> set (creates s e)"
  shows "\<exists>q \<in> set (requestPaths (randomID W)). p = circuitDir s @ ''/'' @ q"
  using assms(1)
proof (cases rule: Prove_shape)
  case (late work)
  with assms(2,3) show ?thesis using work_creates [of s "randomID W" e p] by (auto simp: cleanupRequest_def)
qed (use assms in simp)

lemma run_deletes:
  assumes "Prove W s jwt pub [] = (r, tr)"
  shows "tr \<noteq> [] \<Longrightarrow> (\<exists>e \<in> set tr. deletes e (circuitDir s @ ''/'' @ q)) \<longleftrightarrow> requestDeletes (randomID W) q"
  using assms
proof (cases rule: Prove_shape)
  case (late work)
  have "\<not> deletes e p" if "e \<in> set work" for e p
  proof -
    have "workEvent s (randomID W) e" using that late(2) by blast
    then show ?thesis by (cases e) (simp_all add: workEvent_def)
  qed
  then show ?thesis using cleanup_deletes [of s "randomID W" q] by (auto simp: late(1))
qed simp

text \<open>
C25: whatever fails or panics, a request ends by deleting what it created: the removals come last and cover every file
it wrote, every directory it made and the files \<open>nargo\<close> and \<open>bb\<close> write for it. They delete nothing that a request
with another random identifier creates, and none of the files of the circuit. A proof is returned only after
\<open>nargo\<close> and then \<open>bb\<close> were run.
\<close>

theorem prove_cleans_up:
  assumes "Prove W s jwt pub [] = (r, tr)"
  shows "tr = filter (\<lambda>e. \<not> isRemoval e) tr @ filter isRemoval tr \<and>
    (\<forall>e \<in> set tr. \<forall>p \<in> set (creates s e). \<exists>d \<in> set tr. deletes d p) \<and>
    (\<forall>W' jwt' pub' r' tr'. Prove W' s jwt' pub' [] = (r', tr') \<longrightarrow> pwRandom W' \<noteq> pwRandom W \<longrightarrow>
       (\<forall>e \<in> set tr'. \<forall>p \<in> set (creates s e). \<forall>d \<in> set tr. \<not> deletes d p)) \<and>
    (\<forall>p \<in> set (circuitPaths s). \<forall>d \<in> set tr. \<not> deletes d p) \<and>
    (is_ok r \<longrightarrow> programs tr = [nargoPath s, bbPath s])"
  using assms
proof (cases rule: Prove_shape)
  case (late work)
  have "tr \<noteq> []" by (simp add: late(1) cleanupRequest_def)
  note dels = run_deletes [OF assms this]
  have "filter isRemoval work = []" "filter (\<lambda>e. \<not> isRemoval e) work = work"
    using late(2) workEvent_not_removal by (auto simp: filter_empty_conv filter_id_conv)
  then have "tr = filter (\<lambda>e. \<not> isRemoval e) tr @ filter isRemoval tr"
    by (simp add: late(1) cleanupRequest_def)
  moreover have "programs tr = [nargoPath s, bbPath s]" if "is_ok r"
    using late(3) [OF that] by (simp add: late(1) programs_def cleanupRequest_def)
  moreover have "\<exists>d \<in> set tr. deletes d p" if "e \<in> set tr" "p \<in> set (creates s e)" for e p
    using run_creates [OF assms that] request_deletes_own dels by blast
  moreover have "\<not> deletes d p" if other: "Prove W' s jwt' pub' [] = (r', tr')" "pwRandom W' \<noteq> pwRandom W"
    "e \<in> set tr'" "p \<in> set (creates s e)" "d \<in> set tr" for W' jwt' pub' r' tr' e p d
  proof -
    obtain q where q: "q \<in> set (requestPaths (randomID W'))" "p = circuitDir s @ ''/'' @ q"
      using run_creates [OF other(1,3,4)] by blast
    have "\<not> requestDeletes (randomID W) q"
      by (rule request_deletes_other [OF _ _ _ q(1)]) (use other(2) in \<open>auto simp: randomID_def hexEncode_no_slash\<close>)
    with dels other(5) q(2) show ?thesis by blast
  qed
  moreover have "\<not> deletes d p" if "p \<in> set (circuitPaths s)" "d \<in> set tr" for p d
    using dels that circuit_not_deleted by blast
  ultimately show ?thesis by blast
qed (simp add: circuitPaths_def)

text \<open>
  Over HTTP, nothing is written or run and no proof is answered unless the request is a \<open>POST\<close> with the configured key.
\<close>

theorem prove_requires_key:
  assumes "proveHandler W s apiKey r = (h, tr)"
    "tr \<noteq> [] \<or> (\<exists>res. h = Responded res \<and> httpStatus res = 200)"
  shows "reqMethod r = ''POST'' \<and> (apiKey = [] \<or> reqApiKey r = apiKey)"
  using assms by (auto simp: proveHandler_def writeJSONError_def split: if_splits)

text \<open>
  The bound of 128 bytes on the claims is not checked before the storage of that size is filled: the
  file is written exactly when every claim fits, and a longer claim makes the request panic.
\<close>

lemma proverToml_Ok_iff:
  "is_ok (proverToml d) \<longleftrightarrow>
     length (Iss d) \<le> 128 \<and> length (Sub d) \<le> 128 \<and> length (Aud d) \<le> 128 \<and> length (Azp d) \<le> 128"
  by (auto simp: proverToml_def writeBoundedVec_def fillInts_def BoundedVecMaxLen_def Let_def)

lemma proverToml_no_Err: "proverToml d \<noteq> Err e"
  by (simp add: proverToml_def writeBoundedVec_def fillInts_def Let_def)

lemma long_claim_panics:
  assumes "circuitInputs W jwt pub = Ok (c, N, d)" "length pub = 33" "128 < length (clIss c)"
  shows "\<exists>m tr. Prove W s jwt pub [] = (Panic m, tr)"
proof -
  have "Iss d = clIss c" using circuitInputs_claims [OF assms(1)] by simp
  then obtain m where "proverToml d = Panic m"
    using assms(3) proverToml_Ok_iff [of d] proverToml_no_Err [of d] by (cases "proverToml d") auto
  then have "fst (runProof W s i c N pub d []) = Panic m" for i
    unfolding runProof_def Let_def bind_f_toml by simp
  then show ?thesis
    using assms(1,2) by (simp add: Prove_def bind_f_def pure_f_def deferring_def Let_def split: prod.splits) (metis fst_conv)
qed

section \<open>A concrete token\<close>

definition keyText :: string where
  "keyText = replicate 341 (CHR ''_'') @ ''w''"

definition tokenWorld :: proverWorld where
  "tokenWorld = \<lparr>pwGet = (\<lambda>k url. Inr (200, Inr (if k = 0 then [3] else [4]))),
     pwParse = (\<lambda>b. Inr (
       if b = [0] then JObj [(''alg'', JStr ''RS256''), (''kid'', JStr ''k'')]
       else if b = [1] then JObj [(''iss'', JStr ''https://issuer'')]
       else if b = [3] then JObj [(''jwks_uri'', JStr ''https://keys'')]
       else JObj [(''keys'', JArr [JObj [(''kid'', JStr ''k''), (''kty'', JStr ''RSA''), (''n'', JStr keyText), (''e'', JStr ''AQAB'')]])])),
     pwRandom = [171], pwWrite = (\<lambda>_ _. None), pwMkdirAll = (\<lambda>_. None), pwRun = (\<lambda>_ _. None),
     pwReadFile = (\<lambda>_. Inr [42]), pwLookPath = (\<lambda>n. Some n), pwHomeDir = None, pwStat = (\<lambda>_. True), pwToolchain = None,
     pwMkdirTemp = Inr ''/tmp/c''\<rparr>"

lemma token_base64:
  "base64Decode ''AA'' = Ok [0]" "base64Decode ''AQ'' = Ok [1]" "base64Decode ''Ag'' = Ok [2]" "base64Decode ''AQAB'' = Ok [1, 0, 1]"
  by code_simp+

lemma base64Decode_clean:
  assumes "\<forall>c \<in> set s. \<not> isNewline c \<and> sextet c \<noteq> None" "length s mod 4 \<noteq> 1"
  shows "base64Decode s = Ok (sextetBytes (map (\<lambda>c. the (sextet c)) s))"
proof -
  have "filter (\<lambda>c. \<not> isNewline c) s = s" using assms(1) by (simp add: filter_id_conv)
  moreover have "find (\<lambda>i. \<not> isNewline (s ! i) \<and> sextet (s ! i) = None) [0..<length s] = None"
    using assms(1) by (simp add: find_None_iff)
  ultimately show ?thesis using assms(2) by (simp add: base64Decode_def Let_def)
qed

lemma sextetBytes_ones: "sextetBytes (replicate (4 * k) 63 @ r) = replicate (3 * k) 255 @ sextetBytes r"
proof (induction k)
  case (Suc k)
  have "replicate (4 * Suc k) 63 @ r = 63 # 63 # 63 # 63 # replicate (4 * k) (63::int) @ r" by (simp add: numeral_eq_Suc)
  moreover have "replicate (3 * Suc k) (255::byte) = 255 # 255 # 255 # replicate (3 * k) 255" by (simp add: numeral_eq_Suc)
  ultimately show ?case using Suc by simp
qed simp

lemma SetBytes_ones: "SetBytes (replicate k 255) = 256 ^ k - 1"
proof (induction k)
  case (Suc k)
  have "replicate (Suc k) (255::byte) = replicate k 255 @ [255]" by (simp add: replicate_append_same)
  then show ?case using Suc by simp
qed simp

lemma key_base64: "base64Decode keyText = Ok (replicate 256 255)"
proof -
  have c: "\<not> isNewline (CHR ''_'')" "sextet (CHR ''_'') = Some 63" "\<not> isNewline (CHR ''w'')" "sextet (CHR ''w'') = Some 48"
    by code_simp+
  then have "base64Decode keyText = Ok (sextetBytes (replicate 341 63 @ [48]))"
    by (subst base64Decode_clean) (auto simp: keyText_def)
  moreover have "replicate 341 63 @ [48] = replicate (4 * 85) (63::int) @ [63, 48]"
    using replicate_add [of "4 * 85" 1 "63::int"] by simp
  moreover have "sextetBytes [63, 48] = [255]" by code_simp
  moreover have "replicate (3 * 85) 255 @ [255] = replicate 256 (255::byte)"
    using replicate_add [of "3 * 85" 1 "255::byte"] by simp
  ultimately show ?thesis using sextetBytes_ones [of 85 "[63, 48]"] by simp
qed

lemma key_size: "2 ^ 2047 \<le> SetBytes (replicate 256 255)" "SetBytes (replicate 256 255) < 2 ^ 2048"
proof -
  have "(256::int) ^ 256 = (2 ^ 8) ^ 256" by simp
  also have "\<dots> = 2 ^ (8 * 256)" by (simp only: power_mult)
  finally have e: "(256::int) ^ 256 = 2 ^ 2048" by simp
  then show "SetBytes (replicate 256 255) < 2 ^ 2048" unfolding SetBytes_ones by linarith
  have "(2::int) ^ 2048 = 2 * 2 ^ 2047" using power_Suc [of "2::int" 2047] by simp
  moreover have "(1::int) \<le> 2 ^ 2047" by (rule one_le_power) simp
  ultimately show "2 ^ 2047 \<le> SetBytes (replicate 256 255)" unfolding SetBytes_ones e by linarith
qed

lemma token_fields:
  "foldName ''alg'' = ''ALG''" "foldName ''kid'' = ''KID''" "foldName ''iss'' = ''ISS''" "foldName ''sub'' = ''SUB''"
  "foldName ''aud'' = ''AUD''" "foldName ''azp'' = ''AZP''" "foldName ''exp'' = ''EXP''"
  by code_simp+

lemma stringField_sel: "fName (stringField n p) = n" "fStore (stringField n p) = storeString p"
  by (simp_all add: stringField_def)

lemma token_claims:
  "unmarshalText tokenWorld ty claimFields \<lparr>clIss = [], clSub = [], clAud = [], clAzp = [], clExp = 0\<rparr> [1] =
     Ok \<lparr>clIss = ''https://issuer'', clSub = [], clAud = [], clAzp = [], clExp = 0\<rparr>"
  by (simp add: unmarshalText_def tokenWorld_def answered_def findField_def claimFields_def stringField_sel token_fields)

lemma token_header: "unmarshalText tokenWorld ty headerFields ([], []) [0] = Ok (''k'', ''RS256'')"
  by (simp add: unmarshalText_def tokenWorld_def answered_def findField_def headerFields_def stringField_sel token_fields)

lemma token_key: "fetchJWKSPublicKey tokenWorld iss ''AA'' = Ok \<lparr>rsaN = SetBytes (replicate 256 255), rsaE = 65537\<rparr>"
proof -
  have "httpGetJSON tokenWorld 0 u = Ok (map_of [(''jwks_uri'', JStr ''https://keys'')])" for u
    by (simp add: httpGetJSON_def tokenWorld_def answered_def unmarshalMap_def)
  moreover have "httpGetJSON tokenWorld 1 u = Ok (map_of [(''keys'',
      JArr [JObj [(''kid'', JStr ''k''), (''kty'', JStr ''RSA''), (''n'', JStr keyText), (''e'', JStr ''AQAB'')]])])" for u
    by (simp add: httpGetJSON_def tokenWorld_def answered_def unmarshalMap_def)
  moreover have "keyText \<noteq> []" by (simp add: keyText_def)
  moreover have "Int64 (SetBytes [1, 0, 1]) = 65537" by code_simp
  ultimately show ?thesis
    by (simp add: fetchJWKSPublicKey_def token_base64 token_header stringOf_def parseJWK_def key_base64 Let_def)
qed

lemma token_inputs:
  "\<exists>d. circuitInputs tokenWorld ''AA.AQ.Ag'' (replicate 33 2) =
     Ok (\<lparr>clIss = ''https://issuer'', clSub = [], clAud = [], clAzp = [], clExp = 0\<rparr>, SetBytes (replicate 256 255), d)"
proof -
  have "splitN ''AA.AQ.Ag'' (CHR ''.'') 3 = [''AA'', ''AQ'', ''Ag'']" by code_simp
  moreover have "SetBytes (replicate 256 255) \<noteq> 0"
    using key_size(1) zero_less_power [of "2::int" 2047] by linarith
  ultimately show ?thesis
    by (simp add: circuitInputs_def token_base64 token_claims token_key fillInts_def MaxDataLength_def Let_def)
qed

definition tokenService :: Service where
  "tokenService = \<lparr>circuitDir = ''/tmp/c'', nargoPath = ''nargo'', bbPath = ''bb''\<rparr>"

lemma token_proof: "is_ok (fst (Prove tokenWorld tokenService ''AA.AQ.Ag'' (replicate 33 2) []))"
proof -
  let ?c = "\<lparr>clIss = ''https://issuer'', clSub = [], clAud = [], clAzp = [], clExp = 0\<rparr>"
  obtain d where ok: "circuitInputs tokenWorld ''AA.AQ.Ag'' (replicate 33 2) = Ok (?c, SetBytes (replicate 256 255), d)"
    using token_inputs by blast
  obtain txt0 where toml: "proverToml d = Ok txt0"
    using proverToml_Ok_iff [of d] circuitInputs_claims [OF ok] by (auto simp: is_ok_iff)
  have world: "pwWrite tokenWorld p t = None" "pwMkdirAll tokenWorld p = None" "pwRun tokenWorld b args = None"
    "pwReadFile tokenWorld p = Inr [42]" for p t b args by (simp_all add: tokenWorld_def)
  have "is_ok (fst (runProof tokenWorld tokenService i ?c (SetBytes (replicate 256 255)) (replicate 33 2) d []))" for i
    unfolding runProof_def Let_def runCmd_def bind_f_toml bind_f_perform
    by (simp add: toml world failing_def answered_def pure_f_def)
  then show ?thesis
    using ok by (simp add: Prove_def bind_f_def pure_f_def deferring_def Let_def split: prod.splits) (metis fst_conv)
qed

text \<open>The request runs beside another one that differs in its identifier.\<close>

theorem prove_cleans_up_witness:
  "\<exists>r tr r' tr'. Prove tokenWorld tokenService ''AA.AQ.Ag'' (replicate 33 2) [] = (r, tr) \<and> is_ok r \<and>
     Prove (tokenWorld\<lparr>pwRandom := [172]\<rparr>) tokenService ''AA.AQ.Ag'' (replicate 33 2) [] = (r', tr') \<and>
     (\<forall>e \<in> set tr. \<forall>p \<in> set (creates tokenService e). (\<exists>d \<in> set tr. deletes d p) \<and> (\<forall>d \<in> set tr'. \<not> deletes d p)) \<and>
     programs tr = [''nargo'', ''bb'']"
proof -
  obtain r tr where run: "Prove tokenWorld tokenService ''AA.AQ.Ag'' (replicate 33 2) [] = (r, tr)" by (rule prod.exhaust)
  obtain r' tr' where other: "Prove (tokenWorld\<lparr>pwRandom := [172]\<rparr>) tokenService ''AA.AQ.Ag'' (replicate 33 2) [] = (r', tr')"
    by (rule prod.exhaust)
  have ok: "is_ok r" using token_proof by (simp add: run)
  moreover have "[nargoPath tokenService, bbPath tokenService] = [''nargo'', ''bb'']" by (simp add: tokenService_def)
  then have "programs tr = [''nargo'', ''bb'']" using prove_cleans_up [OF run] ok by argo
  moreover have "\<forall>e \<in> set tr. \<forall>p \<in> set (creates tokenService e). \<forall>d \<in> set tr'. \<not> deletes d p"
  proof -
    have "pwRandom tokenWorld \<noteq> pwRandom (tokenWorld\<lparr>pwRandom := [172]\<rparr>)" by (simp add: tokenWorld_def)
    with prove_cleans_up [OF other] run show ?thesis by blast
  qed
  moreover have "\<forall>e \<in> set tr. \<forall>p \<in> set (creates tokenService e). \<exists>d \<in> set tr. deletes d p"
    using prove_cleans_up [OF run] by blast
  ultimately show ?thesis
    by (intro exI [of _ r] exI [of _ tr] exI [of _ r'] exI [of _ tr']) (simp add: run other)
qed

end
