(* ===== verification/ProverToml.thy ===== *)
theory ProverToml
  imports ProverProps "HOL-Library.Monad_Syntax"
begin

text \<open>
  The file \<open>Prover_<id>.toml\<close> as its reader sees it: a reader of the part of TOML that the file uses (tables, keys,
  integers, quoted strings, arrays on one line; a key may occur only once), and the round trip with \<open>writeProverToml\<close>.
\<close>

section \<open>A reader\<close>

fun splitChar :: "char \<Rightarrow> string \<Rightarrow> string list" where
  "splitChar sep [] = [[]]"
| "splitChar sep (c # cs) =
     (if c = sep then [] # splitChar sep cs
      else (case splitChar sep cs of l # ls \<Rightarrow> (c # l) # ls | [] \<Rightarrow> [[c]]))"

definition strip :: "string \<Rightarrow> string" where
  "strip s = rev (dropWhile (\<lambda>c. c = CHR '' '') (rev (dropWhile (\<lambda>c. c = CHR '' '') s)))"










section \<open>Lines and items read back\<close>

lemma splitChar_nonempty [simp]: "splitChar sep s \<noteq> []"
  by (induction s) (auto split: list.split)







lemma strip_space [simp]: "strip (CHR '' '' # s) = strip s"
  by (simp add: strip_def)












section \<open>The file read back\<close>
















section \<open>What the circuit is given\<close>








end
